theory Spec2Isabelle
  imports Complex_Main "HOL-Library.Word" "HOL-Library.Signed_Division"
begin

section \<open>Readings: C floats\<close>

text \<open>
  A C \<^verbatim>\<open>float\<close> of the two sketches is an IEEE 754 binary32 value: NaN, an infinity, a
  zero of either sign, or a finite non-zero number. \<open>Val x\<close> is the finite float of value
  \<open>x\<close> (\<open>Val 0\<close> is the positive zero), \<open>MZero\<close> the negative zero. The NaNs are not told
  apart: the sketches only test \<^verbatim>\<open>isnan\<close>.
\<close>

datatype cfloat = NaN | Val real | PInf | MInf | MZero

fun isnan :: "cfloat \<Rightarrow> bool" where
  "isnan NaN = True"
| "isnan _ = False"

fun is_finite :: "cfloat \<Rightarrow> bool" where
  "is_finite (Val x) = True"
| "is_finite MZero = True"
| "is_finite _ = False"

fun val :: "cfloat \<Rightarrow> real" where
  "val (Val x) = x"
| "val _ = 0"

subsection \<open>Rounding to binary32\<close>

text \<open>
  Every arithmetic operation delivers the exact result rounded to the nearest binary32
  value, ties to the even significand. A binary32 value is an integer of at most 24 bits
  times a power of two \<open>2 ^ k\<close> with \<open>k\<close> from -149 to 104. \<open>quantum y k\<close> finds the
  exponent of the last place for the magnitude \<open>y\<close>: the least \<open>k\<close> from -149 on for which
  \<open>y\<close> is below \<open>2 ^ (k + 24)\<close>, at most 104. A result of magnitude \<open>2 ^ 128\<close> or more
  after rounding is an infinity; a non-zero result that rounds to zero keeps its sign.
\<close>

definition pow2 :: "int \<Rightarrow> real" where
  "pow2 k = (if 0 \<le> k then 2 ^ nat k else 1 / 2 ^ nat (- k))"

function quantum :: "real \<Rightarrow> int \<Rightarrow> int" where
  "quantum y k = (if k < 104 \<and> pow2 (k + 24) \<le> y then quantum y (k + 1) else k)"
  by pat_completeness auto
termination
  by (relation "measure (\<lambda>(y, k). nat (104 - k))") auto

declare quantum.simps [simp del]

definition round_even :: "real \<Rightarrow> int" where
  "round_even y =
     (let f = \<lfloor>y\<rfloor> in
      if y - of_int f < 1 / 2 then f
      else if 1 / 2 < y - of_int f then f + 1
      else if even f then f else f + 1)"

definition round32 :: "real \<Rightarrow> cfloat" where
  "round32 x =
     (let k = quantum \<bar>x\<bar> (- 149);
          m = round_even (\<bar>x\<bar> / pow2 k)
      in if m = 0 then (if x < 0 then MZero else Val 0)
         else if pow2 128 \<le> of_int m * pow2 k then (if x < 0 then MInf else PInf)
         else Val (sgn x * (of_int m * pow2 k)))"

text \<open>
  \<^verbatim>\<open>a + b\<close> on floats. An exact sum of zero is the positive zero, except for the sum of
  two negative zeros.
\<close>

fun fadd :: "cfloat \<Rightarrow> cfloat \<Rightarrow> cfloat" where
  "fadd NaN _ = NaN"
| "fadd _ NaN = NaN"
| "fadd PInf MInf = NaN"
| "fadd MInf PInf = NaN"
| "fadd PInf _ = PInf"
| "fadd _ PInf = PInf"
| "fadd MInf _ = MInf"
| "fadd _ MInf = MInf"
| "fadd MZero MZero = MZero"
| "fadd a b = (if val a + val b = 0 then Val 0 else round32 (val a + val b))"

text \<open>
  \<^verbatim>\<open>s / c\<close> for a float \<open>s\<close> and an integer count \<open>c\<close>, which C converts to float before
  it divides. Both call sites divide by a count that is above zero, and a count is an
  \<^verbatim>\<open>int\<close> at most, so its conversion is a finite positive float.
\<close>

fun fdiv :: "cfloat \<Rightarrow> nat \<Rightarrow> cfloat" where
  "fdiv NaN c = NaN"
| "fdiv PInf c = PInf"
| "fdiv MInf c = MInf"
| "fdiv MZero c = (if c = 0 then NaN else MZero)"
| "fdiv (Val x) c =
     (if c = 0 then (if x = 0 then NaN else if x < 0 then MInf else PInf)
      else round32 (x / val (round32 (real c))))"

text \<open>
  \<^verbatim>\<open>a == b\<close> on floats: false as soon as one side is NaN; the two zeros are equal.
\<close>

fun feq :: "cfloat \<Rightarrow> cfloat \<Rightarrow> bool" where
  "feq NaN _ = False"
| "feq _ NaN = False"
| "feq PInf b = (b = PInf)"
| "feq MInf b = (b = MInf)"
| "feq a PInf = False"
| "feq a MInf = False"
| "feq a b = (val a = val b)"

section \<open>The NaN-tolerant mean\<close>

subsection \<open>Agro.cpp: \<^verbatim>\<open>avg\<close>\<close>

text \<open>
  \<^verbatim>\<open>float avg(const float* a,uint8_t n){ float s=0;uint8_t c=0;
     for(uint8_t i=0;i<n;i++) if(!isnan(a[i])){s+=a[i];c++;} return c? s/c : NAN; }\<close>
  The counters are \<^verbatim>\<open>uint8_t\<close>, hence 8-bit words.
\<close>

function avg_loop :: "cfloat list \<Rightarrow> 8 word \<Rightarrow> 8 word \<Rightarrow> cfloat \<Rightarrow> 8 word \<Rightarrow> cfloat \<times> 8 word" where
  "avg_loop a n i s c =
     (if i < n then
        (if \<not> isnan (a ! unat i) then avg_loop a n (i + 1) (fadd s (a ! unat i)) (c + 1)
         else avg_loop a n (i + 1) s c)
      else (s, c))"
  by pat_completeness auto
termination
proof (relation "measure (\<lambda>(a, n, i, s, c). unat n - unat i)")
  show "wf (measure (\<lambda>(a, n, i, s, c). unat n - unat i))" by simp
next
  fix a :: "cfloat list" and n i :: "8 word" and s :: cfloat and c :: "8 word"
  assume "i < n"
  then have lt: "unat i < unat n" by (simp add: word_less_nat_alt)
  moreover have "unat n < 256" using unsigned_less [of n, where ?'a = nat] by simp
  ultimately have "unat i + 1 < 256" by simp
  then have "unat (i + 1) = Suc (unat i)" by (simp add: unat_word_ariths)
  with lt show "((a, n, i + 1, fadd s (a ! unat i), c + 1), (a, n, i, s, c))
      \<in> measure (\<lambda>(a, n, i, s, c). unat n - unat i)"
    by simp
next
  fix a :: "cfloat list" and n i :: "8 word" and s :: cfloat and c :: "8 word"
  assume "i < n"
  then have lt: "unat i < unat n" by (simp add: word_less_nat_alt)
  moreover have "unat n < 256" using unsigned_less [of n, where ?'a = nat] by simp
  ultimately have "unat i + 1 < 256" by simp
  then have "unat (i + 1) = Suc (unat i)" by (simp add: unat_word_ariths)
  with lt show "((a, n, i + 1, s, c), (a, n, i, s, c))
      \<in> measure (\<lambda>(a, n, i, s, c). unat n - unat i)"
    by simp
qed

declare avg_loop.simps [simp del]

definition avg :: "cfloat list \<Rightarrow> 8 word \<Rightarrow> cfloat" where
  "avg a n = (case avg_loop a n 0 (Val 0) 0 of
                (s, c) \<Rightarrow> if c \<noteq> 0 then fdiv s (unat c) else NaN)"

subsection \<open>AgroPRO.cpp: \<^verbatim>\<open>calculateAverage\<close>\<close>

text \<open>
  The counters are \<^verbatim>\<open>int\<close>; the loop runs \<open>i\<close> from 0 while \<open>i < num_samples\<close>, so a
  count cannot leave the range of a 32-bit \<^verbatim>\<open>int\<close> and plain integers model it.
\<close>

function calc_loop :: "cfloat list \<Rightarrow> int \<Rightarrow> int \<Rightarrow> cfloat \<Rightarrow> int \<Rightarrow> cfloat \<times> int" where
  "calc_loop arr num_samples i sm valid_sample_count =
     (if i < num_samples then
        (if \<not> isnan (arr ! nat i)
         then calc_loop arr num_samples (i + 1) (fadd sm (arr ! nat i)) (valid_sample_count + 1)
         else calc_loop arr num_samples (i + 1) sm valid_sample_count)
      else (sm, valid_sample_count))"
  by pat_completeness auto
termination
  by (relation "measure (\<lambda>(arr, n, i, s, c). nat (n - i))") auto

declare calc_loop.simps [simp del]

definition calculateAverage :: "cfloat list \<Rightarrow> int \<Rightarrow> cfloat" where
  "calculateAverage arr num_samples =
     (if num_samples = 0 then NaN
      else case calc_loop arr num_samples 0 (Val 0) 0 of
             (sm, valid_sample_count) \<Rightarrow>
               if valid_sample_count > 0 then fdiv sm (nat valid_sample_count) else NaN)"

text \<open>The valid entries of a window prefix, as the specification speaks of them.\<close>

definition valid_entries :: "cfloat list \<Rightarrow> cfloat list" where
  "valid_entries xs = filter (\<lambda>x. \<not> isnan x) xs"

text \<open>
  The mean in the specification's words, over the real numbers: the sum of the valid
  entries divided by their number.
\<close>

definition mean_valid :: "cfloat list \<Rightarrow> cfloat" where
  "mean_valid xs =
     (if valid_entries xs = [] then NaN
      else Val (sum_list (map val (valid_entries xs)) / real (length (valid_entries xs))))"

text \<open>
  The same mean in binary32 arithmetic: the valid entries added one by one to 0 in slot
  order, each sum rounded, and the total divided by their number, rounded.
\<close>

definition float_mean :: "cfloat list \<Rightarrow> cfloat" where
  "float_mean xs =
     (if valid_entries xs = [] then NaN
      else fdiv (foldl fadd (Val 0) (valid_entries xs)) (length (valid_entries xs)))"

section \<open>Shared pieces of the two sketches\<close>

text \<open>
  What a loop pass does that the outside can observe: a sample taken into the window, the
  report branch entered, and an HTTP POST of the six averages together with the status code
  the client returned.
\<close>

datatype event = Sampled | ReportFired | Posted "cfloat list" int

text \<open>The fields of \<^verbatim>\<open>struct tm\<close> that the sketches read.\<close>

record tm =
  tm_sec :: int
  tm_min :: int
  tm_hour :: int

text \<open>
  \<^verbatim>\<open>localtime_r\<close> after \<^verbatim>\<open>configTime(offset, 0, ...)\<close>: the library's break-down of
  an epoch (seconds since 1970, not negative once the clock is valid) into local wall-clock
  fields, the offset added.
\<close>

definition localtime_r :: "int \<Rightarrow> int \<Rightarrow> tm" where
  "localtime_r offset now_s =
     \<lparr>tm_sec = (now_s + offset) mod 60,
      tm_min = ((now_s + offset) div 60) mod 60,
      tm_hour = ((now_s + offset) div 3600) mod 24\<rparr>"

text \<open>
  The boundaries as the specification's clock gate words them: a sample boundary is a
  second with minute mod 10 = 0 and second 0, a report boundary is minute 0, second 5.
\<close>

definition isSampleBoundary :: "tm \<Rightarrow> bool" where
  "isSampleBoundary t \<longleftrightarrow> tm_min t mod 10 = 0 \<and> tm_sec t = 0"

definition isReportBoundary :: "tm \<Rightarrow> bool" where
  "isReportBoundary t \<longleftrightarrow> tm_min t = 0 \<and> tm_sec t = 5"

text \<open>
  The DS18B20 check of both sketches:
  \<^verbatim>\<open>(tc==DEVICE_DISCONNECTED_C||tc==85||tc==-127)?NAN:tc\<close>. The macro
  \<^verbatim>\<open>DEVICE_DISCONNECTED_C\<close> comes from the DallasTemperature header, which is not part of
  the sources; it is the parameter \<open>D\<close> throughout.
\<close>

definition ds_check :: "cfloat \<Rightarrow> cfloat \<Rightarrow> cfloat" where
  "ds_check D tc = (if feq tc D \<or> feq tc (Val 85) \<or> feq tc (Val (- 127)) then NaN else tc)"

text \<open>A probe reading that the sketches treat as invalid: one of the sentinels, or NaN.\<close>

definition invalid_probe_read :: "cfloat \<Rightarrow> cfloat \<Rightarrow> bool" where
  "invalid_probe_read D r \<longleftrightarrow> feq r D \<or> feq r (Val 85) \<or> feq r (Val (- 127)) \<or> isnan r"

text \<open>
  \<^verbatim>\<open>b[j][i] = v\<close> on a two-dimensional array. Arrays are lists of the declared
  length; a write outside an array is undefined behaviour in C, and here it leaves the
  list as it is. The properties below are stated for indices inside the arrays.
\<close>

definition set2 :: "cfloat list list \<Rightarrow> nat \<Rightarrow> nat \<Rightarrow> cfloat \<Rightarrow> cfloat list list" where
  "set2 b j i v = b[j := (b ! j)[i := v]]"

section \<open>Agro.cpp\<close>

definition MIN_EPOCH :: int where "MIN_EPOCH = 946684800"
definition GMT_OFFSET :: int where "GMT_OFFSET = 8 * 3600"
definition SAMPLES_HR :: "8 word" where "SAMPLES_HR = 6"
definition SAMPLE_STEP :: "8 word" where "SAMPLE_STEP = 10"
definition REPORT_SEC :: "8 word" where "REPORT_SEC = 5"
definition NUM_DS :: "8 word" where "NUM_DS = 4"
definition FAST_READ_MS :: "32 word" where "FAST_READ_MS = 5000"

text \<open>
  The globals of the sketch. \<open>temp1\<close> .. \<open>dhtHumi\<close> are the Arduino IoT Cloud variables
  of \<^verbatim>\<open>thingProperties.h\<close>: the live telemetry sink.
\<close>

record agro_state =
  dsBuf :: "cfloat list list"
  dhtTBuf :: "cfloat list"
  dhtHBuf :: "cfloat list"
  bufIdx :: "8 word"
  validSamples :: "8 word"
  lastSampleMin :: int
  lastReportHr :: int
  lastFastRead :: "32 word"
  temp1 :: cfloat
  temp2 :: cfloat
  temp3 :: cfloat
  temp4 :: cfloat
  dhtTemp :: cfloat
  dhtHumi :: cfloat

text \<open>
  What one pass of \<^verbatim>\<open>loop()\<close> reads from the outside: the two \<^verbatim>\<open>millis()\<close> calls, the
  sensor values the fast read would get, the epoch of \<^verbatim>\<open>time(nullptr)\<close>, the sensor
  values the boundary sample would get, and the status code of the POST.
\<close>

record agro_in =
  millis_test :: "32 word"
  millis_store :: "32 word"
  fast_getTempC :: "nat \<Rightarrow> cfloat"
  fast_readTemperature :: cfloat
  fast_readHumidity :: cfloat
  now :: int
  getTempC :: "nat \<Rightarrow> cfloat"
  readTemperature :: cfloat
  readHumidity :: cfloat
  http_code :: int

text \<open>
  \<^verbatim>\<open>void clearBuffers(){ for(uint8_t i=0;i<SAMPLES_HR;i++){
     for(uint8_t j=0;j<4;j++) dsBuf[j][i]=NAN; dhtTBuf[i]=dhtHBuf[i]=NAN;} }\<close>
\<close>

definition clearBuffers :: "agro_state \<Rightarrow> agro_state" where
  "clearBuffers s =
     fold (\<lambda>i s.
        let s1 = fold (\<lambda>j s. s\<lparr>dsBuf := set2 (dsBuf s) j i NaN\<rparr>) [0..<4] s;
            s2 = s1\<lparr>dhtHBuf := (dhtHBuf s1)[i := NaN]\<rparr>
        in s2\<lparr>dhtTBuf := (dhtTBuf s2)[i := NaN]\<rparr>)
      [0..<unat SAMPLES_HR] s"

text \<open>\<^verbatim>\<open>readSensorsFast\<close>: the live mirroring pass, every 5 s.\<close>

definition readSensorsFast :: "cfloat \<Rightarrow> agro_in \<Rightarrow> agro_state \<Rightarrow> agro_state" where
  "readSensorsFast D inp s =
     (let dsT = map (\<lambda>i. ds_check D (fast_getTempC inp i)) [0..<unat NUM_DS];
          dhtT = fast_readTemperature inp;
          dhtH = fast_readHumidity inp
      in s\<lparr>temp1 := dsT ! 0, temp2 := dsT ! 1, temp3 := dsT ! 2, temp4 := dsT ! 3,
            dhtTemp := (if isnan dhtT then dhtTemp s else dhtT),
            dhtHumi := (if isnan dhtH then dhtHumi s else dhtH)\<rparr>)"

text \<open>\<^verbatim>\<open>postSheet\<close>: the six averages over the populated window, posted once.\<close>

definition postSheet :: "agro_in \<Rightarrow> agro_state \<Rightarrow> event list" where
  "postSheet inp s =
     [Posted [avg (dsBuf s ! 0) (validSamples s), avg (dsBuf s ! 1) (validSamples s),
              avg (dsBuf s ! 2) (validSamples s), avg (dsBuf s ! 3) (validSamples s),
              avg (dhtTBuf s) (validSamples s), avg (dhtHBuf s) (validSamples s)]
             (http_code inp)]"

text \<open>Step 1 of \<^verbatim>\<open>loop()\<close>: the fast sensor read for the cloud.\<close>

definition fast_step :: "cfloat \<Rightarrow> agro_in \<Rightarrow> agro_state \<Rightarrow> agro_state" where
  "fast_step D inp s =
     (if millis_test inp - lastFastRead s \<ge> FAST_READ_MS
      then readSensorsFast D inp (s\<lparr>lastFastRead := millis_store inp\<rparr>)
      else s)"

text \<open>
  The guard and the body of the 10-minute sample (lines 89 to 101). \<^verbatim>\<open>%\<close> on \<^verbatim>\<open>int\<close>
  truncates, hence \<open>smod\<close>; \<^verbatim>\<open>min<uint8_t>(validSamples+1,SAMPLES_HR)\<close> converts the sum
  back to 8 bits, and \<^verbatim>\<open>(bufIdx+1)%SAMPLES_HR\<close> is computed on \<^verbatim>\<open>int\<close>.
\<close>

definition sample_due :: "tm \<Rightarrow> agro_state \<Rightarrow> bool" where
  "sample_due t s \<longleftrightarrow>
     tm_min t smod uint SAMPLE_STEP = 0 \<and> tm_sec t = 0 \<and> lastSampleMin s \<noteq> tm_min t"

definition sample_write :: "cfloat \<Rightarrow> agro_in \<Rightarrow> agro_state \<Rightarrow> agro_state" where
  "sample_write D inp s =
     (let s1 = fold (\<lambda>i s. s\<lparr>dsBuf := set2 (dsBuf s) i (unat (bufIdx s))
                                          (ds_check D (getTempC inp i))\<rparr>)
                 [0..<unat NUM_DS] s;
          tt = readTemperature inp;
          hh = readHumidity inp;
          s2 = s1\<lparr>dhtTBuf := (dhtTBuf s1)[unat (bufIdx s1) := (if isnan tt then NaN else tt)]\<rparr>
      in s2\<lparr>dhtHBuf := (dhtHBuf s2)[unat (bufIdx s2) := (if isnan hh then NaN else hh)]\<rparr>)"

definition sample_step :: "cfloat \<Rightarrow> agro_in \<Rightarrow> tm \<Rightarrow> agro_state \<Rightarrow> agro_state" where
  "sample_step D inp t s =
     (if sample_due t s then
        (let s1 = sample_write D inp s;
             s2 = s1\<lparr>validSamples := min (validSamples s1 + 1) SAMPLES_HR\<rparr>;
             s3 = s2\<lparr>bufIdx := word_of_int ((uint (bufIdx s2) + 1) smod uint SAMPLES_HR)\<rparr>
         in s3\<lparr>lastSampleMin := tm_min t\<rparr>)
      else s)"

text \<open>\<^verbatim>\<open>if(t.tm_min%SAMPLE_STEP!=0) lastSampleMin=-1;\<close>\<close>

definition unlatch_step :: "tm \<Rightarrow> agro_state \<Rightarrow> agro_state" where
  "unlatch_step t s =
     (if tm_min t smod uint SAMPLE_STEP \<noteq> 0 then s\<lparr>lastSampleMin := - 1\<rparr> else s)"

text \<open>The hourly post (lines 105 to 107).\<close>

definition report_due :: "tm \<Rightarrow> agro_state \<Rightarrow> bool" where
  "report_due t s \<longleftrightarrow>
     tm_min t = 0 \<and> tm_sec t = uint REPORT_SEC \<and> lastReportHr s \<noteq> tm_hour t
     \<and> validSamples s \<noteq> 0"

text \<open>The window reset at its close: \<^verbatim>\<open>clearBuffers(); bufIdx=0; validSamples=0;\<close>\<close>

definition reset_window :: "agro_state \<Rightarrow> agro_state" where
  "reset_window s = (clearBuffers s)\<lparr>bufIdx := 0, validSamples := 0\<rparr>"

definition report_step :: "tm \<Rightarrow> agro_state \<Rightarrow> agro_state" where
  "report_step t s =
     (if report_due t s then (reset_window s)\<lparr>lastReportHr := tm_hour t\<rparr> else s)"

text \<open>
  One pass of \<^verbatim>\<open>loop()\<close>. \<^verbatim>\<open>ArduinoCloud.update()\<close> is the cloud library's own
  transmission of the cloud variables and touches none of the globals above.
\<close>

definition loop :: "cfloat \<Rightarrow> agro_in \<Rightarrow> agro_state \<Rightarrow> event list \<times> agro_state" where
  "loop D inp s =
     (let s1 = fast_step D inp s in
      if now inp < MIN_EPOCH then ([], s1)
      else
        let t = localtime_r GMT_OFFSET (now inp);
            s2 = sample_step D inp t s1;
            s3 = unlatch_step t s2;
            s4 = report_step t s3
        in ((if sample_due t s1 then [Sampled] else []) @
            (if report_due t s3 then ReportFired # postSheet inp s3 else []),
            s4))"

text \<open>
  The globals as the C++ runtime initialises them (zero where the source gives no
  initialiser), and the state after the sketch's set-up routine, which clears the buffers;
  the NTP wait and the start-up of the libraries leave the globals alone.
\<close>

definition boot :: agro_state where
  "boot = \<lparr>dsBuf = replicate 4 (replicate 6 (Val 0)),
           dhtTBuf = replicate 6 (Val 0), dhtHBuf = replicate 6 (Val 0),
           bufIdx = 0, validSamples = 0, lastSampleMin = - 1, lastReportHr = - 1,
           lastFastRead = 0,
           temp1 = Val 0, temp2 = Val 0, temp3 = Val 0, temp4 = Val 0,
           dhtTemp = Val 0, dhtHumi = Val 0\<rparr>"

definition setup_agro :: agro_state where
  "setup_agro = clearBuffers boot"

text \<open>A sequence of passes, the events of all of them in order.\<close>

fun run :: "cfloat \<Rightarrow> agro_in list \<Rightarrow> agro_state \<Rightarrow> event list \<times> agro_state" where
  "run D [] s = ([], s)"
| "run D (inp # inps) s =
     (fst (loop D inp s) @ fst (run D inps (snd (loop D inp s))),
      snd (run D inps (snd (loop D inp s))))"

text \<open>The shape of the arrays (\<^verbatim>\<open>float dsBuf[4][SAMPLES_HR]\<close> and the two DHT buffers).\<close>

definition shape :: "agro_state \<Rightarrow> bool" where
  "shape s \<longleftrightarrow>
     length (dsBuf s) = 4 \<and> list_all (\<lambda>b. length b = 6) (dsBuf s)
     \<and> length (dhtTBuf s) = 6 \<and> length (dhtHBuf s) = 6"

text \<open>Every slot of every buffer holds the invalid marker.\<close>

definition all_invalid :: "agro_state \<Rightarrow> bool" where
  "all_invalid s \<longleftrightarrow>
     list_all (\<lambda>b. list_all isnan b) (dsBuf s)
     \<and> list_all isnan (dhtTBuf s) \<and> list_all isnan (dhtHBuf s)"

text \<open>The ring-buffer invariant: index below the capacity, count at most the capacity.\<close>

definition ring_inv :: "agro_state \<Rightarrow> bool" where
  "ring_inv s \<longleftrightarrow> bufIdx s < SAMPLES_HR \<and> validSamples s \<le> SAMPLES_HR"

text \<open>
  The aggregation window (buffers, write index, populated count) and the boundary state
  (last sample minute, last report hour) of a state, and the wall-clock fields a pass sees.
\<close>

definition window :: "agro_state \<Rightarrow> cfloat list list \<times> cfloat list \<times> cfloat list \<times> 8 word \<times> 8 word" where
  "window s = (dsBuf s, dhtTBuf s, dhtHBuf s, bufIdx s, validSamples s)"

definition boundary :: "agro_state \<Rightarrow> int \<times> int" where
  "boundary s = (lastSampleMin s, lastReportHr s)"

definition clock :: "agro_in \<Rightarrow> tm" where
  "clock inp = localtime_r GMT_OFFSET (now inp)"

text \<open>The state of a pass over a valid clock just before the hourly post is decided.\<close>

definition mid :: "cfloat \<Rightarrow> agro_in \<Rightarrow> agro_state \<Rightarrow> agro_state" where
  "mid D inp s = unlatch_step (clock inp) (sample_step D inp (clock inp) (fast_step D inp s))"

text \<open>No slot of a probe buffer holds one of the three raw sentinel values.\<close>

definition no_sentinel :: "cfloat \<Rightarrow> cfloat \<Rightarrow> bool" where
  "no_sentinel D x \<longleftrightarrow> \<not> feq x D \<and> \<not> feq x (Val 85) \<and> \<not> feq x (Val (- 127))"

definition sentinel_free :: "cfloat \<Rightarrow> agro_state \<Rightarrow> bool" where
  "sentinel_free D s \<longleftrightarrow> list_all (list_all (no_sentinel D)) (dsBuf s)"

text \<open>
  A pass at epoch \<open>e\<close> in which every sensor returns \<open>r\<close>, the fast read is not yet due
  and the POST returns 200; used for concrete runs.
\<close>

definition tick_at :: "int \<Rightarrow> cfloat \<Rightarrow> agro_in" where
  "tick_at e r =
     \<lparr>millis_test = 0, millis_store = 0,
      fast_getTempC = (\<lambda>i. r), fast_readTemperature = r, fast_readHumidity = r,
      now = e,
      getTempC = (\<lambda>i. r), readTemperature = r, readHumidity = r,
      http_code = 200\<rparr>"

text \<open>The four probe variables of the cloud, in the order of the probes.\<close>

definition cloud_probes :: "agro_state \<Rightarrow> cfloat list" where
  "cloud_probes s = [temp1 s, temp2 s, temp3 s, temp4 s]"

definition nan_row :: "cfloat list" where
  "nan_row = replicate 6 NaN"

text \<open>
  The state after the first sample of a run that starts with the clock at
  2000-01-01 08:00:00 local time (epoch 946684800), every sensor reading 20.
\<close>

definition sampled_once :: agro_state where
  "sampled_once = snd (loop (Val (- 127)) (tick_at 946684800 (Val 20)) setup_agro)"

section \<open>AgroPRO.cpp\<close>

definition MIN_EPOCH_TIME_SEC :: int where "MIN_EPOCH_TIME_SEC = 946684800"
definition GMT_OFFSET_SECONDS :: int where "GMT_OFFSET_SECONDS = 8 * 3600"
definition DAYLIGHT_OFFSET_SECONDS :: int where "DAYLIGHT_OFFSET_SECONDS = 0"
definition NTP_RESYNC_INTERVAL_MS :: "32 word" where "NTP_RESYNC_INTERVAL_MS = 12 * 3600 * 1000"
definition SAMPLES_PER_HOUR :: int where "SAMPLES_PER_HOUR = 6"
definition SAMPLING_INTERVAL_MIN :: int where "SAMPLING_INTERVAL_MIN = 10"
definition REPORTING_TRIGGER_SECOND :: int where "REPORTING_TRIGGER_SECOND = 5"
definition NUM_DS18B20_SENSORS :: int where "NUM_DS18B20_SENSORS = 4"

text \<open>
  The globals of the sketch; the counters are \<^verbatim>\<open>int\<close> here. \<open>sensor1\<close> ..
  \<open>dhtHumi_pro\<close> are the cloud variables (\<^verbatim>\<open>dhtTemp\<close> and \<^verbatim>\<open>dhtHumi\<close> in the source).
\<close>

record pro_state =
  ds18b20_temp_samples :: "cfloat list list"
  dht_humidity_samples :: "cfloat list"
  dht_temp_samples :: "cfloat list"
  current_sample_index :: int
  samples_taken_this_hour :: int
  last_sample_minute_taken :: int
  last_report_hour_sent :: int
  lastNtpSyncMillis :: "32 word"
  sensor1 :: cfloat
  sensor2 :: cfloat
  sensor3 :: cfloat
  sensor4 :: cfloat
  dhtTemp_pro :: cfloat
  dhtHumi_pro :: cfloat

text \<open>
  What one pass reads from the outside: \<^verbatim>\<open>millis()\<close>, the epoch, the sensor values, and
  on the report path whether WiFi is connected, whether \<^verbatim>\<open>snprintf\<close> fitted the payload
  into its 256 bytes, whether \<^verbatim>\<open>http_client.begin\<close> succeeded, and the response code.
\<close>

record pro_in =
  current_millis :: "32 word"
  now_epoch :: int
  getTempC_pro :: "nat \<Rightarrow> cfloat"
  readTemperature_pro :: cfloat
  readHumidity_pro :: cfloat
  wifi_connected :: bool
  payload_fits :: bool
  begin_ok :: bool
  http_response_code :: int

definition clearSampleArrays :: "pro_state \<Rightarrow> pro_state" where
  "clearSampleArrays s =
     fold (\<lambda>i s.
        let s1 = fold (\<lambda>j s. s\<lparr>ds18b20_temp_samples := set2 (ds18b20_temp_samples s) j i NaN\<rparr>)
                   [0..<nat NUM_DS18B20_SENSORS] s;
            s2 = s1\<lparr>dht_temp_samples := (dht_temp_samples s1)[i := NaN]\<rparr>
        in s2\<lparr>dht_humidity_samples := (dht_humidity_samples s2)[i := NaN]\<rparr>)
      [0..<nat SAMPLES_PER_HOUR] s"

text \<open>
  \<^verbatim>\<open>takeSample(sample_idx)\<close>: the readings go into the sample arrays at \<open>sample_idx\<close>
  and from there into the cloud variables. The index is a C \<^verbatim>\<open>int\<close>; the loop only
  passes values in the range of the arrays.
\<close>

definition takeSample :: "cfloat \<Rightarrow> pro_in \<Rightarrow> int \<Rightarrow> pro_state \<Rightarrow> pro_state" where
  "takeSample D inp sample_idx s =
     (let s1 = fold (\<lambda>i s.
                  let temp_c = getTempC_pro inp i in
                  if feq temp_c D \<or> feq temp_c (Val 85) \<or> feq temp_c (Val (- 127))
                  then s\<lparr>ds18b20_temp_samples :=
                           set2 (ds18b20_temp_samples s) i (nat sample_idx) NaN\<rparr>
                  else s\<lparr>ds18b20_temp_samples :=
                           set2 (ds18b20_temp_samples s) i (nat sample_idx) temp_c\<rparr>)
                 [0..<nat NUM_DS18B20_SENSORS] s;
          dht_temp = readTemperature_pro inp;
          dht_hum = readHumidity_pro inp;
          s2 = s1\<lparr>dht_temp_samples :=
                    (dht_temp_samples s1)[nat sample_idx := (if \<not> isnan dht_temp then dht_temp else NaN)]\<rparr>;
          s3 = s2\<lparr>dht_humidity_samples :=
                    (dht_humidity_samples s2)[nat sample_idx := (if \<not> isnan dht_hum then dht_hum else NaN)]\<rparr>;
          s4 = (if NUM_DS18B20_SENSORS > 0
                then s3\<lparr>sensor1 := ds18b20_temp_samples s3 ! 0 ! nat sample_idx\<rparr> else s3);
          s5 = (if NUM_DS18B20_SENSORS > 1
                then s4\<lparr>sensor2 := ds18b20_temp_samples s4 ! 1 ! nat sample_idx\<rparr> else s4);
          s6 = (if NUM_DS18B20_SENSORS > 2
                then s5\<lparr>sensor3 := ds18b20_temp_samples s5 ! 2 ! nat sample_idx\<rparr> else s5);
          s7 = (if NUM_DS18B20_SENSORS > 3
                then s6\<lparr>sensor4 := ds18b20_temp_samples s6 ! 3 ! nat sample_idx\<rparr> else s6);
          s8 = s7\<lparr>dhtTemp_pro := dht_temp_samples s7 ! nat sample_idx\<rparr>
      in s8\<lparr>dhtHumi_pro := dht_humidity_samples s8 ! nat sample_idx\<rparr>)"

text \<open>
  \<^verbatim>\<open>reportDataToGoogleSheet\<close>: nothing is sent without WiFi, with a payload that did not
  fit, or when the connection could not be opened; otherwise one POST of the six averages.
\<close>

definition reportDataToGoogleSheet :: "pro_in \<Rightarrow> pro_state \<Rightarrow> event list" where
  "reportDataToGoogleSheet inp s =
     (if \<not> wifi_connected inp then []
      else
        let avg_ds18b20_temps =
              map (\<lambda>i. calculateAverage (ds18b20_temp_samples s ! i) (samples_taken_this_hour s))
                [0..<nat NUM_DS18B20_SENSORS];
            avg_dht_temp = calculateAverage (dht_temp_samples s) (samples_taken_this_hour s);
            avg_dht_hum = calculateAverage (dht_humidity_samples s) (samples_taken_this_hour s);
            json_payload =
              [if NUM_DS18B20_SENSORS > 0 then avg_ds18b20_temps ! 0 else NaN,
               if NUM_DS18B20_SENSORS > 1 then avg_ds18b20_temps ! 1 else NaN,
               if NUM_DS18B20_SENSORS > 2 then avg_ds18b20_temps ! 2 else NaN,
               if NUM_DS18B20_SENSORS > 3 then avg_ds18b20_temps ! 3 else NaN,
               avg_dht_temp, avg_dht_hum]
        in if \<not> payload_fits inp then []
           else if begin_ok inp then [Posted json_payload (http_response_code inp)]
           else [])"

text \<open>
  The periodic NTP resynchronisation at the head of \<^verbatim>\<open>loop()\<close>:
  \<^verbatim>\<open>synchronizeNtpTime\<close> waits and prints, and of the globals only
  \<open>lastNtpSyncMillis\<close> changes.
\<close>

definition ntp_step :: "pro_in \<Rightarrow> pro_state \<Rightarrow> pro_state" where
  "ntp_step inp s =
     (if current_millis inp - lastNtpSyncMillis s > NTP_RESYNC_INTERVAL_MS
         \<or> lastNtpSyncMillis s = 0
      then s\<lparr>lastNtpSyncMillis := current_millis inp\<rparr>
      else s)"

definition sample_due_pro :: "tm \<Rightarrow> pro_state \<Rightarrow> bool" where
  "sample_due_pro t s \<longleftrightarrow>
     tm_min t smod SAMPLING_INTERVAL_MIN = 0 \<and> tm_sec t = 0
     \<and> last_sample_minute_taken s \<noteq> tm_min t"

definition sample_step_pro :: "cfloat \<Rightarrow> pro_in \<Rightarrow> tm \<Rightarrow> pro_state \<Rightarrow> pro_state" where
  "sample_step_pro D inp t s =
     (if sample_due_pro t s then
        (let s1 = takeSample D inp (current_sample_index s) s;
             s2 = s1\<lparr>current_sample_index := (current_sample_index s1 + 1) smod SAMPLES_PER_HOUR\<rparr>;
             s3 = s2\<lparr>samples_taken_this_hour := min (samples_taken_this_hour s2 + 1) SAMPLES_PER_HOUR\<rparr>
         in s3\<lparr>last_sample_minute_taken := tm_min t\<rparr>)
      else s)"

definition unlatch_step_pro :: "tm \<Rightarrow> pro_state \<Rightarrow> pro_state" where
  "unlatch_step_pro t s =
     (if tm_min t smod SAMPLING_INTERVAL_MIN \<noteq> 0 then s\<lparr>last_sample_minute_taken := - 1\<rparr> else s)"

definition report_due_pro :: "tm \<Rightarrow> pro_state \<Rightarrow> bool" where
  "report_due_pro t s \<longleftrightarrow>
     tm_min t = 0 \<and> tm_sec t = REPORTING_TRIGGER_SECOND
     \<and> last_report_hour_sent s \<noteq> tm_hour t \<and> samples_taken_this_hour s > 0"

text \<open>
  The reset for the next hour:
  \<^verbatim>\<open>clearSampleArrays(); current_sample_index = 0; samples_taken_this_hour = 0;\<close>
\<close>

definition reset_window_pro :: "pro_state \<Rightarrow> pro_state" where
  "reset_window_pro s =
     (clearSampleArrays s)\<lparr>current_sample_index := 0, samples_taken_this_hour := 0\<rparr>"

definition report_step_pro :: "tm \<Rightarrow> pro_state \<Rightarrow> pro_state" where
  "report_step_pro t s =
     (if report_due_pro t s then (reset_window_pro s)\<lparr>last_report_hour_sent := tm_hour t\<rparr>
      else s)"

definition loop_pro :: "cfloat \<Rightarrow> pro_in \<Rightarrow> pro_state \<Rightarrow> event list \<times> pro_state" where
  "loop_pro D inp s =
     (let s1 = ntp_step inp s in
      if now_epoch inp < MIN_EPOCH_TIME_SEC then ([], s1)
      else
        let t = localtime_r (GMT_OFFSET_SECONDS + DAYLIGHT_OFFSET_SECONDS) (now_epoch inp);
            s2 = sample_step_pro D inp t s1;
            s3 = unlatch_step_pro t s2;
            s4 = report_step_pro t s3
        in ((if sample_due_pro t s1 then [Sampled] else []) @
            (if report_due_pro t s3 then ReportFired # reportDataToGoogleSheet inp s3 else []),
            s4))"

definition boot_pro :: pro_state where
  "boot_pro = \<lparr>ds18b20_temp_samples = replicate 4 (replicate 6 (Val 0)),
               dht_humidity_samples = replicate 6 (Val 0),
               dht_temp_samples = replicate 6 (Val 0),
               current_sample_index = 0, samples_taken_this_hour = 0,
               last_sample_minute_taken = - 1, last_report_hour_sent = - 1,
               lastNtpSyncMillis = 0,
               sensor1 = Val 0, sensor2 = Val 0, sensor3 = Val 0, sensor4 = Val 0,
               dhtTemp_pro = Val 0, dhtHumi_pro = Val 0\<rparr>"

definition setup_pro :: pro_state where
  "setup_pro = clearSampleArrays boot_pro"

fun run_pro :: "cfloat \<Rightarrow> pro_in list \<Rightarrow> pro_state \<Rightarrow> event list \<times> pro_state" where
  "run_pro D [] s = ([], s)"
| "run_pro D (inp # inps) s =
     (fst (loop_pro D inp s) @ fst (run_pro D inps (snd (loop_pro D inp s))),
      snd (run_pro D inps (snd (loop_pro D inp s))))"

definition shape_pro :: "pro_state \<Rightarrow> bool" where
  "shape_pro s \<longleftrightarrow>
     length (ds18b20_temp_samples s) = 4 \<and> list_all (\<lambda>b. length b = 6) (ds18b20_temp_samples s)
     \<and> length (dht_temp_samples s) = 6 \<and> length (dht_humidity_samples s) = 6"

definition all_invalid_pro :: "pro_state \<Rightarrow> bool" where
  "all_invalid_pro s \<longleftrightarrow>
     list_all (\<lambda>b. list_all isnan b) (ds18b20_temp_samples s)
     \<and> list_all isnan (dht_temp_samples s) \<and> list_all isnan (dht_humidity_samples s)"

definition ring_inv_pro :: "pro_state \<Rightarrow> bool" where
  "ring_inv_pro s \<longleftrightarrow>
     0 \<le> current_sample_index s \<and> current_sample_index s < SAMPLES_PER_HOUR
     \<and> 0 \<le> samples_taken_this_hour s \<and> samples_taken_this_hour s \<le> SAMPLES_PER_HOUR"


definition window_pro :: "pro_state \<Rightarrow> cfloat list list \<times> cfloat list \<times> cfloat list \<times> int \<times> int" where
  "window_pro s =
     (ds18b20_temp_samples s, dht_temp_samples s, dht_humidity_samples s,
      current_sample_index s, samples_taken_this_hour s)"

definition boundary_pro :: "pro_state \<Rightarrow> int \<times> int" where
  "boundary_pro s = (last_sample_minute_taken s, last_report_hour_sent s)"

definition clock_pro :: "pro_in \<Rightarrow> tm" where
  "clock_pro inp = localtime_r (GMT_OFFSET_SECONDS + DAYLIGHT_OFFSET_SECONDS) (now_epoch inp)"

definition mid_pro :: "cfloat \<Rightarrow> pro_in \<Rightarrow> pro_state \<Rightarrow> pro_state" where
  "mid_pro D inp s =
     unlatch_step_pro (clock_pro inp) (sample_step_pro D inp (clock_pro inp) (ntp_step inp s))"

definition sentinel_free_pro :: "cfloat \<Rightarrow> pro_state \<Rightarrow> bool" where
  "sentinel_free_pro D s \<longleftrightarrow> list_all (list_all (no_sentinel D)) (ds18b20_temp_samples s)"

definition tick_at_pro :: "int \<Rightarrow> cfloat \<Rightarrow> pro_in" where
  "tick_at_pro e r =
     \<lparr>current_millis = 1, now_epoch = e,
      getTempC_pro = (\<lambda>i. r), readTemperature_pro = r, readHumidity_pro = r,
      wifi_connected = True, payload_fits = True, begin_ok = True,
      http_response_code = 200\<rparr>"

definition cloud_probes_pro :: "pro_state \<Rightarrow> cfloat list" where
  "cloud_probes_pro s = [sensor1 s, sensor2 s, sensor3 s, sensor4 s]"

definition sampled_once_pro :: pro_state where
  "sampled_once_pro = snd (loop_pro (Val (- 127)) (tick_at_pro 946684800 (Val 20)) setup_pro)"

section \<open>Properties of the mean\<close>

lemma word8_inc_unat: "(i :: 8 word) < n \<Longrightarrow> unat (i + 1) = Suc (unat i)"
proof -
  assume a: "i < n"
  have "unat i < unat n" using a by (simp add: word_less_nat_alt)
  moreover have "unat n < 256" using unsigned_less [of n, where ?'a = nat] by simp
  ultimately have "unat i + 1 < 256" by simp
  then show ?thesis by (simp add: unat_word_ariths)
qed

lemma slice_step:
  assumes "i < n" "n \<le> length a"
  shows "drop i (take n a) = a ! i # drop (Suc i) (take n a)"
proof -
  have "i < length (take n a)" using assms by simp
  then have "drop i (take n a) = take n a ! i # drop (Suc i) (take n a)"
    by (rule Cons_nth_drop_Suc [symmetric])
  then show ?thesis using assms by simp
qed

lemma avg_loop_eq:
  "unat i \<le> unat n \<Longrightarrow> unat n \<le> length a \<Longrightarrow>
   avg_loop a n i s c =
     (foldl fadd s (valid_entries (drop (unat i) (take (unat n) a))),
      c + of_nat (length (valid_entries (drop (unat i) (take (unat n) a)))))"
proof (induction a n i s c rule: avg_loop.induct)
  case (1 a n i s c)
  show ?case
  proof (cases "i < n")
    case False
    then have "unat i = unat n" using "1.prems" by (simp add: word_less_nat_alt)
    then show ?thesis using False by (simp add: avg_loop.simps valid_entries_def)
  next
    case True
    then have u: "unat (i + 1) = Suc (unat i)" and lt: "unat i < unat n"
      by (simp_all add: word8_inc_unat word_less_nat_alt)
    have sl: "drop (unat i) (take (unat n) a) = a ! unat i # drop (Suc (unat i)) (take (unat n) a)"
      using lt "1.prems" by (intro slice_step) simp_all
    show ?thesis
    proof (cases "isnan (a ! unat i)")
      case nan: True
      have "avg_loop a n i s c = avg_loop a n (i + 1) s c"
        using True nan by (subst avg_loop.simps) simp
      also have "\<dots> = (foldl fadd s (valid_entries (drop (unat (i + 1)) (take (unat n) a))),
          c + of_nat (length (valid_entries (drop (unat (i + 1)) (take (unat n) a)))))"
        using "1.IH"(2) [OF True] nan u lt "1.prems" by simp
      finally show ?thesis using sl nan u by (simp add: valid_entries_def)
    next
      case ok: False
      have "avg_loop a n i s c = avg_loop a n (i + 1) (fadd s (a ! unat i)) (c + 1)"
        using True ok by (subst avg_loop.simps) simp
      also have "\<dots> = (foldl fadd (fadd s (a ! unat i)) (valid_entries (drop (unat (i + 1)) (take (unat n) a))),
          c + 1 + of_nat (length (valid_entries (drop (unat (i + 1)) (take (unat n) a)))))"
        using "1.IH"(1) [OF True] ok u lt "1.prems" by simp
      finally show ?thesis using sl ok u by (simp add: valid_entries_def)
    qed
  qed
qed

lemma calc_loop_eq:
  "0 \<le> i \<Longrightarrow> i \<le> n \<Longrightarrow> nat n \<le> length a \<Longrightarrow>
   calc_loop a n i s c =
     (foldl fadd s (valid_entries (drop (nat i) (take (nat n) a))),
      c + int (length (valid_entries (drop (nat i) (take (nat n) a)))))"
proof (induction a n i s c rule: calc_loop.induct)
  case (1 a n i s c)
  show ?case
  proof (cases "i < n")
    case False
    then have "i = n" using "1.prems" by simp
    then show ?thesis by (simp add: calc_loop.simps valid_entries_def)
  next
    case True
    then have u: "nat (i + 1) = Suc (nat i)" and lt: "nat i < nat n"
      using "1.prems" by simp_all
    have sl: "drop (nat i) (take (nat n) a) = a ! nat i # drop (Suc (nat i)) (take (nat n) a)"
      using lt "1.prems" by (intro slice_step) simp_all
    show ?thesis
    proof (cases "isnan (a ! nat i)")
      case nan: True
      have "calc_loop a n i s c = calc_loop a n (i + 1) s c"
        using True nan by (subst calc_loop.simps) simp
      also have "\<dots> = (foldl fadd s (valid_entries (drop (nat (i + 1)) (take (nat n) a))),
          c + int (length (valid_entries (drop (nat (i + 1)) (take (nat n) a)))))"
        using "1.IH"(2) [OF True] nan True "1.prems" by simp
      finally show ?thesis using sl nan u by (simp add: valid_entries_def)
    next
      case ok: False
      have "calc_loop a n i s c = calc_loop a n (i + 1) (fadd s (a ! nat i)) (c + 1)"
        using True ok by (subst calc_loop.simps) simp
      also have "\<dots> = (foldl fadd (fadd s (a ! nat i)) (valid_entries (drop (nat (i + 1)) (take (nat n) a))),
          c + 1 + int (length (valid_entries (drop (nat (i + 1)) (take (nat n) a)))))"
        using "1.IH"(1) [OF True] ok True "1.prems" by simp
      finally show ?thesis using sl ok u by (simp add: valid_entries_def)
    qed
  qed
qed

lemma valid_entries_all: "\<forall>x\<in>set (valid_entries xs). \<not> isnan x"
  by (simp add: valid_entries_def)

lemma length_valid_le: "length (valid_entries xs) \<le> length xs"
  by (simp add: valid_entries_def)

lemma isnan_iff: "isnan x \<longleftrightarrow> x = NaN"
  by (cases x) simp_all

lemma round32_not_nan: "round32 x \<noteq> NaN"
  by (simp add: round32_def Let_def)

lemma fadd_not_nan: "\<not> isnan acc \<Longrightarrow> is_finite v \<Longrightarrow> \<not> isnan (fadd acc v)"
  by (cases acc; cases v) (simp_all add: isnan_iff round32_not_nan)

lemma foldl_fadd_not_nan:
  "\<not> isnan acc \<Longrightarrow> \<forall>v\<in>set vs. is_finite v \<Longrightarrow> \<not> isnan (foldl fadd acc vs)"
proof (induction vs arbitrary: acc)
  case Nil
  then show ?case by simp
next
  case (Cons v vs)
  then have "\<not> isnan (fadd acc v)" by (simp add: fadd_not_nan)
  with Cons show ?case by simp
qed

lemma fdiv_not_nan: "\<not> isnan s \<Longrightarrow> 0 < c \<Longrightarrow> \<not> isnan (fdiv s c)"
  by (cases s) (simp_all add: isnan_iff round32_not_nan)

lemma float_mean_nan_iff:
  assumes "list_all (\<lambda>x. isnan x \<or> is_finite x) xs"
  shows "float_mean xs = NaN \<longleftrightarrow> valid_entries xs = []"
proof (cases "valid_entries xs = []")
  case True
  then show ?thesis by (simp add: float_mean_def)
next
  case False
  have "\<forall>v\<in>set (valid_entries xs). is_finite v"
    using assms by (auto simp: valid_entries_def list_all_iff)
  then have "\<not> isnan (foldl fadd (Val 0) (valid_entries xs))"
    by (intro foldl_fadd_not_nan) simp_all
  then have "\<not> isnan (fdiv (foldl fadd (Val 0) (valid_entries xs)) (length (valid_entries xs)))"
    using False by (intro fdiv_not_nan) simp_all
  then show ?thesis using False by (simp add: float_mean_def isnan_iff)
qed

lemma avg_float_mean: "unat n \<le> length a \<Longrightarrow> avg a n = float_mean (take (unat n) a)"
proof -
  assume len: "unat n \<le> length a"
  let ?vs = "valid_entries (take (unat n) a)"
  have "length ?vs \<le> unat n" using length_valid_le [of "take (unat n) a"] len by simp
  moreover have "unat n < 256" using unsigned_less [of n, where ?'a = nat] by simp
  ultimately have small: "length ?vs < 256" by simp
  then have uc: "unat (of_nat (length ?vs) :: 8 word) = length ?vs"
    by (simp add: of_nat_inverse)
  have nz: "(of_nat (length ?vs) :: 8 word) \<noteq> 0 \<longleftrightarrow> ?vs \<noteq> []"
  proof
    assume "(of_nat (length ?vs) :: 8 word) \<noteq> 0"
    then show "?vs \<noteq> []" by auto
  next
    assume "?vs \<noteq> []"
    then have "unat (of_nat (length ?vs) :: 8 word) \<noteq> 0" using uc by simp
    then show "(of_nat (length ?vs) :: 8 word) \<noteq> 0" by auto
  qed
  have loop: "avg_loop a n 0 (Val 0) 0 = (foldl fadd (Val 0) ?vs, of_nat (length ?vs))"
    using avg_loop_eq [of 0 n a "Val 0" 0] len by simp
  show ?thesis
  proof (cases "?vs = []")
    case True
    then show ?thesis unfolding avg_def loop float_mean_def by simp
  next
    case False
    then have "(of_nat (length ?vs) :: 8 word) \<noteq> 0" using nz by simp
    then show ?thesis unfolding avg_def loop float_mean_def using False uc by simp
  qed
qed

lemma calc_float_mean:
  "0 \<le> n \<Longrightarrow> nat n \<le> length a \<Longrightarrow> calculateAverage a n = float_mean (take (nat n) a)"
proof -
  assume n0: "0 \<le> n" and len: "nat n \<le> length a"
  let ?vs = "valid_entries (take (nat n) a)"
  have loop: "calc_loop a n 0 (Val 0) 0 = (foldl fadd (Val 0) ?vs, int (length ?vs))"
    using calc_loop_eq [of 0 n a "Val 0" 0] n0 len by simp
  show ?thesis
  proof (cases "n = 0")
    case True
    then show ?thesis by (simp add: calculateAverage_def float_mean_def valid_entries_def)
  next
    case False
    then show ?thesis
      unfolding calculateAverage_def loop float_mean_def by simp
  qed
qed

lemmas float_eval = round32_def quantum.simps pow2_def round_even_def Let_def

lemma float_mean_20_21_21:
  "float_mean [Val 20, Val 21, Val 21] = Val (10835285 / 524288)"
  by (simp add: float_mean_def valid_entries_def float_eval)

lemma float_mean_inf: "float_mean [PInf, MInf] = NaN"
  by (simp add: float_mean_def valid_entries_def)

text \<open>
  Claim C1, as stated, fails. The sketches add and divide in binary32: over the window
  20, 21, 21 both means are 10835285/524288, not the sum 62 divided by 3. And a mean can be
  the invalid marker although entries are valid: over the two infinities the running sum
  is NaN with two valid entries.
\<close>

theorem mean_not_exact_counterexample:
  "avg [Val 20, Val 21, Val 21] 3 = Val (10835285 / 524288)
   \<and> calculateAverage [Val 20, Val 21, Val 21] 3 = Val (10835285 / 524288)
   \<and> mean_valid [Val 20, Val 21, Val 21] = Val (62 / 3)
   \<and> avg [Val 20, Val 21, Val 21] 3 \<noteq> mean_valid [Val 20, Val 21, Val 21]
   \<and> length (valid_entries [PInf, MInf]) = 2
   \<and> avg [PInf, MInf] 2 = NaN \<and> calculateAverage [PInf, MInf] 2 = NaN"
proof -
  have 1: "avg [Val 20, Val 21, Val 21] 3 = Val (10835285 / 524288)"
    using avg_float_mean [of 3 "[Val 20, Val 21, Val 21]"] by (simp add: float_mean_20_21_21)
  have 2: "calculateAverage [Val 20, Val 21, Val 21] 3 = Val (10835285 / 524288)"
    using calc_float_mean [of 3 "[Val 20, Val 21, Val 21]"] by (simp add: float_mean_20_21_21)
  have 3: "mean_valid [Val 20, Val 21, Val 21] = Val (62 / 3)"
    by (simp add: mean_valid_def valid_entries_def)
  have 4: "length (valid_entries [PInf, MInf]) = 2" by (simp add: valid_entries_def)
  have 5: "avg [PInf, MInf] 2 = NaN"
    using avg_float_mean [of 2 "[PInf, MInf]"] by (simp add: float_mean_inf)
  have 6: "calculateAverage [PInf, MInf] 2 = NaN"
    using calc_float_mean [of 2 "[PInf, MInf]"] by (simp add: float_mean_inf)
  show ?thesis unfolding 1 2 3 5 6 using 4 by simp
qed

text \<open>
  Claim C1, amended. For every window and every populated count \<open>n\<close> within it, the mean of
  both sketches over the first \<open>n\<close> slots is the invalid marker when the number \<open>m\<close> of
  valid (non-NaN) entries is 0, which includes \<open>n = 0\<close>, and otherwise the binary32 sum of
  the valid entries, added to 0 one by one in slot order with each sum rounded to nearest,
  divided in binary32 by \<open>m\<close>. When no entry of the window is infinite, the mean is the
  invalid marker exactly when \<open>m = 0\<close>.
\<close>

theorem mean_is_float_mean:
  assumes "unat n \<le> length a" and "0 \<le> k" and "nat k \<le> length a"
  shows "avg a n = float_mean (take (unat n) a)
       \<and> calculateAverage a k = float_mean (take (nat k) a)
       \<and> (length (valid_entries (take (unat n) a)) = 0 \<longrightarrow> avg a n = NaN)
       \<and> (length (valid_entries (take (nat k) a)) = 0 \<longrightarrow> calculateAverage a k = NaN)
       \<and> (list_all (\<lambda>x. isnan x \<or> is_finite x) a \<longrightarrow>
            (avg a n = NaN \<longleftrightarrow> length (valid_entries (take (unat n) a)) = 0)
            \<and> (calculateAverage a k = NaN \<longleftrightarrow> length (valid_entries (take (nat k) a)) = 0))
       \<and> avg a 0 = NaN \<and> calculateAverage a 0 = NaN"
proof -
  have 1: "avg a n = float_mean (take (unat n) a)" using assms(1) by (rule avg_float_mean)
  have 2: "calculateAverage a k = float_mean (take (nat k) a)"
    using assms(2,3) by (rule calc_float_mean)
  have 3: "valid_entries xs = [] \<Longrightarrow> float_mean xs = NaN" for xs
    by (simp add: float_mean_def)
  have 4: "list_all (\<lambda>x. isnan x \<or> is_finite x) a \<Longrightarrow>
      float_mean (take j a) = NaN \<longleftrightarrow> valid_entries (take j a) = []" for j
  proof -
    assume "list_all (\<lambda>x. isnan x \<or> is_finite x) a"
    then have "list_all (\<lambda>x. isnan x \<or> is_finite x) (take j a)"
      by (auto simp: list_all_iff dest: in_set_takeD)
    then show ?thesis by (rule float_mean_nan_iff)
  qed
  have 5: "avg a 0 = NaN" by (simp add: avg_def avg_loop.simps)
  have 6: "calculateAverage a 0 = NaN" by (simp add: calculateAverage_def)
  show ?thesis using 1 2 3 4 5 6 by simp
qed

theorem mean_is_float_mean_witness:
  "avg [Val 10, Val 20, NaN, Val 40, Val 50, Val 60] 6 = Val 36
   \<and> calculateAverage [Val 10, Val 20, NaN, Val 40, Val 50, Val 60] 6 = Val 36
   \<and> avg [Val 20, Val 21, NaN, Val 21] 4 = Val (10835285 / 524288)
   \<and> list_all (\<lambda>x. isnan x \<or> is_finite x) [NaN, NaN, Val 3]
   \<and> avg [NaN, NaN, Val 3] 2 = NaN"
proof -
  let ?a = "[Val 10, Val 20, NaN, Val 40, Val 50, Val 60]"
  have f1: "float_mean (take (unat (6 :: 8 word)) ?a) = Val 36"
    by (simp add: float_mean_def valid_entries_def float_eval)
  have f2: "float_mean (take (nat 6) ?a) = Val 36"
    by (simp add: float_mean_def valid_entries_def float_eval)
  have f3: "float_mean (take (unat (4 :: 8 word)) [Val 20, Val 21, NaN, Val 21])
      = Val (10835285 / 524288)"
    by (simp add: float_mean_def valid_entries_def float_eval)
  have h: "unat (6 :: 8 word) \<le> length ?a" "(0::int) \<le> 6" "nat 6 \<le> length ?a" by simp_all
  have 1: "avg ?a 6 = Val 36 \<and> calculateAverage ?a 6 = Val 36"
    using mean_is_float_mean [OF h] unfolding f1 f2 by blast
  have h3: "unat (4 :: 8 word) \<le> length [Val 20, Val 21, NaN, Val 21]" "(0::int) \<le> 4"
    "nat 4 \<le> length [Val 20, Val 21, NaN, Val 21]" by simp_all
  have 2: "avg [Val 20, Val 21, NaN, Val 21] 4 = Val (10835285 / 524288)"
    using mean_is_float_mean [OF h3] unfolding f3 by blast
  have l: "list_all (\<lambda>x. isnan x \<or> is_finite x) [NaN, NaN, Val 3]" by simp
  have h4: "unat (2 :: 8 word) \<le> length [NaN, NaN, Val 3]" "(0::int) \<le> 2"
    "nat 2 \<le> length [NaN, NaN, Val 3]" by simp_all
  have v: "length (valid_entries (take (unat (2 :: 8 word)) [NaN, NaN, Val 3])) = 0"
    by (simp add: valid_entries_def)
  have 3: "avg [NaN, NaN, Val 3] 2 = NaN"
    using mean_is_float_mean [OF h4] v by blast
  show ?thesis using 1 2 l 3 by blast
qed

text \<open>The mean over a window whose only populated slot holds 20.\<close>

lemma avg_first_20:
  "avg (Val 20 # xs) 1 = Val 20" "calculateAverage (Val 20 # xs) 1 = Val 20"
proof -
  have f: "float_mean [Val 20] = Val 20"
    by (simp add: float_mean_def valid_entries_def float_eval)
  show "avg (Val 20 # xs) 1 = Val 20"
    using avg_float_mean [of 1 "Val 20 # xs"] by (simp add: f)
  show "calculateAverage (Val 20 # xs) 1 = Val 20"
    using calc_float_mean [of 1 "Val 20 # xs"] by (simp add: f)
qed

section \<open>Properties of the two loops\<close>

subsection \<open>Lists of a fixed length\<close>

lemma len6: "length (xs :: 'a list) = 6 \<Longrightarrow> \<exists>a b c d e f. xs = [a, b, c, d, e, f]"
  by (auto simp: length_Suc_conv eval_nat_numeral)

lemma len4: "length (xs :: 'a list) = 4 \<Longrightarrow> \<exists>a b c d. xs = [a, b, c, d]"
  by (auto simp: length_Suc_conv eval_nat_numeral)

lemma upt6: "[0..<6] = [0, 1, 2, 3, 4, 5]" by (simp add: upt_rec)
lemma upt4: "[0..<4] = [0, 1, 2, 3]" by (simp add: upt_rec)

lemma clear_row:
  assumes "length xs = 6"
  shows "xs[0 := v, Suc 0 := v, 2 := v, 3 := v, 4 := v, 5 := v] = replicate 6 v"
proof -
  from len6 [OF assms] obtain a b c d e f where "xs = [a, b, c, d, e, f]" by blast
  then show ?thesis by (simp add: eval_nat_numeral)
qed

subsection \<open>Agro: the steps of a pass, field by field\<close>

lemma clearBuffers_eq:
  assumes "shape s"
  shows "clearBuffers s = s\<lparr>dsBuf := [nan_row, nan_row, nan_row, nan_row], dhtHBuf := nan_row, dhtTBuf := nan_row\<rparr>"
proof -
  from assms obtain r0 r1 r2 r3 where ds: "dsBuf s = [r0, r1, r2, r3]"
    unfolding shape_def by (auto dest!: len4)
  with assms have l: "length r0 = 6" "length r1 = 6" "length r2 = 6" "length r3 = 6"
      "length (dhtTBuf s) = 6" "length (dhtHBuf s) = 6"
    unfolding shape_def by simp_all
  show ?thesis
    unfolding clearBuffers_def SAMPLES_HR_def nan_row_def
    by (simp add: upt6 upt4 set2_def ds Let_def clear_row l)
qed

lemma clearBuffers_fields:
  "bufIdx (clearBuffers s) = bufIdx s" "validSamples (clearBuffers s) = validSamples s"
  "lastSampleMin (clearBuffers s) = lastSampleMin s" "lastReportHr (clearBuffers s) = lastReportHr s"
  "lastFastRead (clearBuffers s) = lastFastRead s"
  "temp1 (clearBuffers s) = temp1 s" "temp2 (clearBuffers s) = temp2 s"
  "temp3 (clearBuffers s) = temp3 s" "temp4 (clearBuffers s) = temp4 s"
  "dhtTemp (clearBuffers s) = dhtTemp s" "dhtHumi (clearBuffers s) = dhtHumi s"
  by (simp_all add: clearBuffers_def SAMPLES_HR_def upt6 upt4 Let_def)

lemma sample_write_fields:
  "bufIdx (sample_write D inp s) = bufIdx s" "validSamples (sample_write D inp s) = validSamples s"
  "lastSampleMin (sample_write D inp s) = lastSampleMin s"
  "lastReportHr (sample_write D inp s) = lastReportHr s"
  "lastFastRead (sample_write D inp s) = lastFastRead s"
  "temp1 (sample_write D inp s) = temp1 s" "temp2 (sample_write D inp s) = temp2 s"
  "temp3 (sample_write D inp s) = temp3 s" "temp4 (sample_write D inp s) = temp4 s"
  "dhtTemp (sample_write D inp s) = dhtTemp s" "dhtHumi (sample_write D inp s) = dhtHumi s"
  by (simp_all add: sample_write_def NUM_DS_def upt4 Let_def)

lemma fast_step_window: "window (fast_step D inp s) = window s"
  by (simp add: fast_step_def readSensorsFast_def window_def Let_def)

lemma fast_step_boundary: "boundary (fast_step D inp s) = boundary s"
  by (simp add: fast_step_def readSensorsFast_def boundary_def Let_def)

lemma fast_step_fields:
  "lastSampleMin (fast_step D inp s) = lastSampleMin s"
  "lastReportHr (fast_step D inp s) = lastReportHr s"
  "validSamples (fast_step D inp s) = validSamples s"
  "bufIdx (fast_step D inp s) = bufIdx s"
  "dsBuf (fast_step D inp s) = dsBuf s"
  "dhtTBuf (fast_step D inp s) = dhtTBuf s"
  "dhtHBuf (fast_step D inp s) = dhtHBuf s"
  by (simp_all add: fast_step_def readSensorsFast_def Let_def)

lemma sample_due_fast: "sample_due t (fast_step D inp s) = sample_due t s"
  by (simp add: sample_due_def fast_step_fields)

lemma loop_invalid: "now inp < MIN_EPOCH \<Longrightarrow> loop D inp s = ([], fast_step D inp s)"
  by (simp add: loop_def)


lemma loop_valid:
  "MIN_EPOCH \<le> now inp \<Longrightarrow>
   loop D inp s =
     ((if sample_due (clock inp) s then [Sampled] else []) @
      (if report_due (clock inp) (mid D inp s) then ReportFired # postSheet inp (mid D inp s) else []),
      report_step (clock inp) (mid D inp s))"
  by (simp add: loop_def clock_def mid_def Let_def sample_due_fast)

lemma invalid_clock_agro:
  assumes "now inp < MIN_EPOCH"
  shows "fst (loop D inp s) = [] \<and> window (snd (loop D inp s)) = window s
     \<and> boundary (snd (loop D inp s)) = boundary s"
  using assms by (simp add: loop_invalid fast_step_window fast_step_boundary)

lemma fast_read_when_invalid:
  assumes "millis_test inp - lastFastRead s \<ge> FAST_READ_MS" "now inp < MIN_EPOCH"
  shows "loop D inp s = ([], readSensorsFast D inp (s\<lparr>lastFastRead := millis_store inp\<rparr>))"
  using assms by (simp add: loop_invalid fast_step_def)

lemma readSensorsFast_cloud:
  "temp1 (readSensorsFast D inp s) = ds_check D (fast_getTempC inp 0)"
  "temp2 (readSensorsFast D inp s) = ds_check D (fast_getTempC inp 1)"
  "temp3 (readSensorsFast D inp s) = ds_check D (fast_getTempC inp 2)"
  "temp4 (readSensorsFast D inp s) = ds_check D (fast_getTempC inp 3)"
  "dhtTemp (readSensorsFast D inp s) = (if isnan (fast_readTemperature inp) then dhtTemp s else fast_readTemperature inp)"
  "dhtHumi (readSensorsFast D inp s) = (if isnan (fast_readHumidity inp) then dhtHumi s else fast_readHumidity inp)"
  by (simp_all add: readSensorsFast_def NUM_DS_def upt4 Let_def)

lemma reset_window_agro:
  assumes "shape s"
  shows "validSamples (reset_window s) = 0 \<and> bufIdx (reset_window s) = 0 \<and> all_invalid (reset_window s)
    \<and> shape (reset_window s)
    \<and> dsBuf (reset_window s) = replicate 4 (replicate 6 NaN)
    \<and> dhtTBuf (reset_window s) = replicate 6 NaN \<and> dhtHBuf (reset_window s) = replicate 6 NaN
    \<and> boundary (reset_window s) = boundary s"
  using assms
  by (simp add: reset_window_def clearBuffers_eq all_invalid_def shape_def nan_row_def boundary_def eval_nat_numeral)

subsection \<open>AgroPRO: the steps of a pass, field by field\<close>

lemma clearSampleArrays_eq:
  assumes "shape_pro s"
  shows "clearSampleArrays s = s\<lparr>ds18b20_temp_samples := [nan_row, nan_row, nan_row, nan_row],
            dht_temp_samples := nan_row, dht_humidity_samples := nan_row\<rparr>"
proof -
  from assms obtain r0 r1 r2 r3 where ds: "ds18b20_temp_samples s = [r0, r1, r2, r3]"
    unfolding shape_pro_def by (auto dest!: len4)
  with assms have l: "length r0 = 6" "length r1 = 6" "length r2 = 6" "length r3 = 6"
      "length (dht_temp_samples s) = 6" "length (dht_humidity_samples s) = 6"
    unfolding shape_pro_def by simp_all
  show ?thesis
    unfolding clearSampleArrays_def SAMPLES_PER_HOUR_def NUM_DS18B20_SENSORS_def nan_row_def
    by (simp add: upt6 upt4 set2_def ds Let_def clear_row l)
qed

lemma clearSampleArrays_fields:
  "current_sample_index (clearSampleArrays s) = current_sample_index s"
  "samples_taken_this_hour (clearSampleArrays s) = samples_taken_this_hour s"
  "last_sample_minute_taken (clearSampleArrays s) = last_sample_minute_taken s"
  "last_report_hour_sent (clearSampleArrays s) = last_report_hour_sent s"
  "lastNtpSyncMillis (clearSampleArrays s) = lastNtpSyncMillis s"
  "sensor1 (clearSampleArrays s) = sensor1 s" "sensor2 (clearSampleArrays s) = sensor2 s"
  "sensor3 (clearSampleArrays s) = sensor3 s" "sensor4 (clearSampleArrays s) = sensor4 s"
  "dhtTemp_pro (clearSampleArrays s) = dhtTemp_pro s" "dhtHumi_pro (clearSampleArrays s) = dhtHumi_pro s"
  by (simp_all add: clearSampleArrays_def SAMPLES_PER_HOUR_def NUM_DS18B20_SENSORS_def upt6 upt4 Let_def)

lemma takeSample_fields:
  "current_sample_index (takeSample D inp k s) = current_sample_index s"
  "samples_taken_this_hour (takeSample D inp k s) = samples_taken_this_hour s"
  "last_sample_minute_taken (takeSample D inp k s) = last_sample_minute_taken s"
  "last_report_hour_sent (takeSample D inp k s) = last_report_hour_sent s"
  "lastNtpSyncMillis (takeSample D inp k s) = lastNtpSyncMillis s"
  by (simp_all add: takeSample_def NUM_DS18B20_SENSORS_def upt4 Let_def)

lemma ntp_step_window: "window_pro (ntp_step inp s) = window_pro s"
  by (simp add: ntp_step_def window_pro_def)

lemma ntp_step_boundary: "boundary_pro (ntp_step inp s) = boundary_pro s"
  by (simp add: ntp_step_def boundary_pro_def)

lemma ntp_step_fields:
  "last_sample_minute_taken (ntp_step inp s) = last_sample_minute_taken s"
  "last_report_hour_sent (ntp_step inp s) = last_report_hour_sent s"
  "samples_taken_this_hour (ntp_step inp s) = samples_taken_this_hour s"
  "current_sample_index (ntp_step inp s) = current_sample_index s"
  "ds18b20_temp_samples (ntp_step inp s) = ds18b20_temp_samples s"
  "dht_temp_samples (ntp_step inp s) = dht_temp_samples s"
  "dht_humidity_samples (ntp_step inp s) = dht_humidity_samples s"
  "sensor1 (ntp_step inp s) = sensor1 s" "sensor2 (ntp_step inp s) = sensor2 s"
  "sensor3 (ntp_step inp s) = sensor3 s" "sensor4 (ntp_step inp s) = sensor4 s"
  "dhtTemp_pro (ntp_step inp s) = dhtTemp_pro s" "dhtHumi_pro (ntp_step inp s) = dhtHumi_pro s"
  by (simp_all add: ntp_step_def)

lemma sample_due_ntp: "sample_due_pro t (ntp_step inp s) = sample_due_pro t s"
  by (simp add: sample_due_pro_def ntp_step_fields)

lemma loop_pro_invalid:
  "now_epoch inp < MIN_EPOCH_TIME_SEC \<Longrightarrow> loop_pro D inp s = ([], ntp_step inp s)"
  by (simp add: loop_pro_def)

lemma loop_pro_valid:
  "MIN_EPOCH_TIME_SEC \<le> now_epoch inp \<Longrightarrow>
   loop_pro D inp s =
     ((if sample_due_pro (clock_pro inp) s then [Sampled] else []) @
      (if report_due_pro (clock_pro inp) (mid_pro D inp s)
       then ReportFired # reportDataToGoogleSheet inp (mid_pro D inp s) else []),
      report_step_pro (clock_pro inp) (mid_pro D inp s))"
  by (simp add: loop_pro_def clock_pro_def mid_pro_def Let_def sample_due_ntp)

lemma invalid_clock_pro:
  assumes "now_epoch inp < MIN_EPOCH_TIME_SEC"
  shows "fst (loop_pro D inp s) = [] \<and> window_pro (snd (loop_pro D inp s)) = window_pro s
     \<and> boundary_pro (snd (loop_pro D inp s)) = boundary_pro s"
  using assms by (simp add: loop_pro_invalid ntp_step_window ntp_step_boundary)

lemma reset_window_pro_eq:
  assumes "shape_pro s"
  shows "samples_taken_this_hour (reset_window_pro s) = 0 \<and> current_sample_index (reset_window_pro s) = 0
    \<and> all_invalid_pro (reset_window_pro s) \<and> shape_pro (reset_window_pro s)
    \<and> ds18b20_temp_samples (reset_window_pro s) = replicate 4 (replicate 6 NaN)
    \<and> dht_temp_samples (reset_window_pro s) = replicate 6 NaN
    \<and> dht_humidity_samples (reset_window_pro s) = replicate 6 NaN
    \<and> boundary_pro (reset_window_pro s) = boundary_pro s"
  using assms
  by (simp add: reset_window_pro_def clearSampleArrays_eq all_invalid_pro_def shape_pro_def nan_row_def
      boundary_pro_def eval_nat_numeral)

subsection \<open>Sample writes\<close>

lemma ds_check_no_sentinel: "no_sentinel D (ds_check D r)"
  by (cases r; cases D) (auto simp: ds_check_def no_sentinel_def)

lemma ds_check_cases:
  "ds_check D r = (if feq r D \<or> feq r (Val 85) \<or> feq r (Val (- 127)) then NaN else r)"
  by (simp add: ds_check_def)

lemma sample_write_ds:
  assumes "length (dsBuf s) = 4"
  shows "dsBuf (sample_write D inp s) =
    map (\<lambda>i. (dsBuf s ! i)[unat (bufIdx s) := ds_check D (getTempC inp i)]) [0, 1, 2, 3]"
proof -
  from assms obtain r0 r1 r2 r3 where ds: "dsBuf s = [r0, r1, r2, r3]"
    by (auto dest!: len4)
  show ?thesis
    by (simp add: sample_write_def NUM_DS_def upt4 Let_def set2_def ds)
qed

lemma sample_write_dht:
  "dhtTBuf (sample_write D inp s) =
     (dhtTBuf s)[unat (bufIdx s) := (if isnan (readTemperature inp) then NaN else readTemperature inp)]"
  "dhtHBuf (sample_write D inp s) =
     (dhtHBuf s)[unat (bufIdx s) := (if isnan (readHumidity inp) then NaN else readHumidity inp)]"
  by (simp_all add: sample_write_def NUM_DS_def upt4 Let_def)

lemma takeSample_ds:
  assumes "length (ds18b20_temp_samples s) = 4"
  shows "ds18b20_temp_samples (takeSample D inp k s) =
    map (\<lambda>i. (ds18b20_temp_samples s ! i)[nat k := ds_check D (getTempC_pro inp i)]) [0, 1, 2, 3]"
proof -
  from assms obtain r0 r1 r2 r3 where ds: "ds18b20_temp_samples s = [r0, r1, r2, r3]"
    by (auto dest!: len4)
  show ?thesis
    by (simp add: takeSample_def NUM_DS18B20_SENSORS_def upt4 Let_def set2_def ds ds_check_def)
qed

lemma takeSample_dht:
  "dht_temp_samples (takeSample D inp k s) =
     (dht_temp_samples s)[nat k := (if \<not> isnan (readTemperature_pro inp) then readTemperature_pro inp else NaN)]"
  "dht_humidity_samples (takeSample D inp k s) =
     (dht_humidity_samples s)[nat k := (if \<not> isnan (readHumidity_pro inp) then readHumidity_pro inp else NaN)]"
  by (simp_all add: takeSample_def NUM_DS18B20_SENSORS_def upt4 Let_def)

lemma takeSample_cloud:
  "sensor1 (takeSample D inp k s) = ds18b20_temp_samples (takeSample D inp k s) ! 0 ! nat k"
  "sensor2 (takeSample D inp k s) = ds18b20_temp_samples (takeSample D inp k s) ! 1 ! nat k"
  "sensor3 (takeSample D inp k s) = ds18b20_temp_samples (takeSample D inp k s) ! 2 ! nat k"
  "sensor4 (takeSample D inp k s) = ds18b20_temp_samples (takeSample D inp k s) ! 3 ! nat k"
  "dhtTemp_pro (takeSample D inp k s) = dht_temp_samples (takeSample D inp k s) ! nat k"
  "dhtHumi_pro (takeSample D inp k s) = dht_humidity_samples (takeSample D inp k s) ! nat k"
  by (simp_all add: takeSample_def NUM_DS18B20_SENSORS_def upt4 Let_def)

lemma smod_nonneg: "0 \<le> (k::int) \<Longrightarrow> 0 < l \<Longrightarrow> k smod l = k mod l"
  by (cases "k = 0") (simp_all add: signed_modulo_int_def)

lemma localtime_range:
  "0 \<le> tm_sec (localtime_r off e)" "tm_sec (localtime_r off e) < 60"
  "0 \<le> tm_min (localtime_r off e)" "tm_min (localtime_r off e) < 60"
  "0 \<le> tm_hour (localtime_r off e)" "tm_hour (localtime_r off e) < 24"
  by (simp_all add: localtime_r_def)

lemma idx_next_lt: "(word_of_int ((uint (i :: 8 word) + 1) smod 6) :: 8 word) < 6"
proof -
  have "0 \<le> uint i + 1" by simp
  then have e: "(uint i + 1) smod 6 = (uint i + 1) mod 6" by (simp add: smod_nonneg)
  have "0 \<le> (uint i + 1) mod 6" "(uint i + 1) mod 6 < 6" by simp_all
  then have "uint (word_of_int ((uint i + 1) mod 6) :: 8 word) = (uint i + 1) mod 6"
    by (simp add: uint_word_of_int)
  then show ?thesis using \<open>(uint i + 1) mod 6 < 6\<close> unfolding e by (simp add: word_less_def)
qed

lemma idx_next_uint: "uint (word_of_int ((uint (i :: 8 word) + 1) smod 6) :: 8 word) = (uint i + 1) mod 6"
proof -
  have "0 \<le> uint i + 1" by simp
  then have e: "(uint i + 1) smod 6 = (uint i + 1) mod 6" by (simp add: smod_nonneg)
  have "0 \<le> (uint i + 1) mod 6" "(uint i + 1) mod 6 < 6" by simp_all
  then show ?thesis unfolding e by (simp add: uint_word_of_int)
qed

lemma count_next:
  assumes "(v :: 8 word) \<le> 6"
  shows "v \<le> min (v + 1) 6" "min (v + 1) 6 \<le> 6" "unat (min (v + 1) 6) = min (unat v + 1) 6"
proof -
  have u: "unat v \<le> 6" using assms by (simp add: word_le_nat_alt)
  then have s: "unat (v + 1) = unat v + 1" by (simp add: unat_word_ariths)
  then have "v \<le> v + 1" by (simp add: word_le_nat_alt)
  then show "v \<le> min (v + 1) 6" using assms by simp
  show "min (v + 1) 6 \<le> 6" by simp
  show "unat (min (v + 1) 6) = min (unat v + 1) 6"
    using s by (simp add: min_def word_le_nat_alt)
qed

lemma sample_step_due:
  "sample_due t s \<Longrightarrow> sample_step D inp t s =
     (sample_write D inp s)\<lparr>validSamples := min (validSamples s + 1) 6,
        bufIdx := word_of_int ((uint (bufIdx s) + 1) smod 6), lastSampleMin := tm_min t\<rparr>"
  by (simp add: sample_step_def Let_def sample_write_fields SAMPLES_HR_def)

lemma sample_step_idle: "\<not> sample_due t s \<Longrightarrow> sample_step D inp t s = s"
  by (simp add: sample_step_def)

lemma sample_step_pro_due:
  "sample_due_pro t s \<Longrightarrow> sample_step_pro D inp t s =
     (takeSample D inp (current_sample_index s) s)\<lparr>
        current_sample_index := (current_sample_index s + 1) smod 6,
        samples_taken_this_hour := min (samples_taken_this_hour s + 1) 6,
        last_sample_minute_taken := tm_min t\<rparr>"
  by (simp add: sample_step_pro_def Let_def takeSample_fields SAMPLES_PER_HOUR_def)

lemma sample_step_pro_idle: "\<not> sample_due_pro t s \<Longrightarrow> sample_step_pro D inp t s = s"
  by (simp add: sample_step_pro_def)

lemma mid_lastReportHr: "lastReportHr (mid D inp s) = lastReportHr s"
  by (simp add: mid_def unlatch_step_def sample_step_def Let_def sample_write_fields fast_step_fields)

lemma mid_pro_last_report: "last_report_hour_sent (mid_pro D inp s) = last_report_hour_sent s"
  by (simp add: mid_pro_def unlatch_step_pro_def sample_step_pro_def Let_def takeSample_fields ntp_step_fields)

subsection \<open>A pass at a sample boundary\<close>

lemma clock_min_smod: "tm_min (clock inp) smod 10 = tm_min (clock inp) mod 10"
  by (simp add: clock_def smod_nonneg localtime_range)

lemma clock_pro_min_smod: "tm_min (clock_pro inp) smod 10 = tm_min (clock_pro inp) mod 10"
  by (simp add: clock_pro_def smod_nonneg localtime_range)

lemma sample_due_iff:
  "sample_due (clock inp) s \<longleftrightarrow> isSampleBoundary (clock inp) \<and> lastSampleMin s \<noteq> tm_min (clock inp)"
  by (simp add: sample_due_def isSampleBoundary_def SAMPLE_STEP_def clock_min_smod)

lemma sample_due_pro_iff:
  "sample_due_pro (clock_pro inp) s \<longleftrightarrow>
     isSampleBoundary (clock_pro inp) \<and> last_sample_minute_taken s \<noteq> tm_min (clock_pro inp)"
  by (simp add: sample_due_pro_def isSampleBoundary_def SAMPLING_INTERVAL_MIN_def clock_pro_min_smod)

lemma report_due_iff:
  "report_due t s \<longleftrightarrow> isReportBoundary t \<and> lastReportHr s \<noteq> tm_hour t \<and> validSamples s \<noteq> 0"
  by (simp add: report_due_def isReportBoundary_def REPORT_SEC_def)

lemma report_due_pro_iff:
  "report_due_pro t s \<longleftrightarrow>
     isReportBoundary t \<and> last_report_hour_sent s \<noteq> tm_hour t \<and> samples_taken_this_hour s > 0"
  by (simp add: report_due_pro_def isReportBoundary_def REPORTING_TRIGGER_SECOND_def)

lemma mid_at_sample_boundary:
  assumes "isSampleBoundary (clock inp)"
  shows "lastSampleMin (mid D inp s) = tm_min (clock inp)"
    and "\<not> report_due (clock inp) (mid D inp s)"
proof -
  have m: "tm_min (clock inp) smod 10 = 0" using assms by (simp add: clock_min_smod isSampleBoundary_def)
  show "lastSampleMin (mid D inp s) = tm_min (clock inp)"
    using m assms by (cases "sample_due (clock inp) (fast_step D inp s)")
      (simp_all add: mid_def unlatch_step_def SAMPLE_STEP_def sample_step_due sample_step_idle
        sample_due_def fast_step_fields isSampleBoundary_def)
  show "\<not> report_due (clock inp) (mid D inp s)"
    using assms by (simp add: report_due_iff isReportBoundary_def isSampleBoundary_def)
qed

lemma tick_sample_boundary:
  assumes "MIN_EPOCH \<le> now inp" "isSampleBoundary (clock inp)"
  shows "fst (loop D inp s) = (if lastSampleMin s \<noteq> tm_min (clock inp) then [Sampled] else [])"
    and "lastSampleMin (snd (loop D inp s)) = tm_min (clock inp)"
  using assms mid_at_sample_boundary [OF assms(2), of D s]
  by (simp_all add: loop_valid sample_due_iff report_step_def)

lemma mid_pro_at_sample_boundary:
  assumes "isSampleBoundary (clock_pro inp)"
  shows "last_sample_minute_taken (mid_pro D inp s) = tm_min (clock_pro inp)"
    and "\<not> report_due_pro (clock_pro inp) (mid_pro D inp s)"
proof -
  have m: "tm_min (clock_pro inp) smod 10 = 0"
    using assms by (simp add: clock_pro_min_smod isSampleBoundary_def)
  show "last_sample_minute_taken (mid_pro D inp s) = tm_min (clock_pro inp)"
    using m assms by (cases "sample_due_pro (clock_pro inp) (ntp_step inp s)")
      (simp_all add: mid_pro_def unlatch_step_pro_def SAMPLING_INTERVAL_MIN_def sample_step_pro_due
        sample_step_pro_idle sample_due_pro_def ntp_step_fields isSampleBoundary_def)
  show "\<not> report_due_pro (clock_pro inp) (mid_pro D inp s)"
    using assms by (simp add: report_due_pro_iff isReportBoundary_def isSampleBoundary_def)
qed

lemma tick_pro_sample_boundary:
  assumes "MIN_EPOCH_TIME_SEC \<le> now_epoch inp" "isSampleBoundary (clock_pro inp)"
  shows "fst (loop_pro D inp s) =
           (if last_sample_minute_taken s \<noteq> tm_min (clock_pro inp) then [Sampled] else [])"
    and "last_sample_minute_taken (snd (loop_pro D inp s)) = tm_min (clock_pro inp)"
  using assms mid_pro_at_sample_boundary [OF assms(2), of D s]
  by (simp_all add: loop_pro_valid sample_due_pro_iff report_step_pro_def)

lemma run_sample_boundary:
  assumes "\<forall>i\<in>set inps. now i = b" "MIN_EPOCH \<le> b" "isSampleBoundary (localtime_r GMT_OFFSET b)"
    "inps \<noteq> []"
  shows "fst (run D inps s) =
           (if lastSampleMin s \<noteq> tm_min (localtime_r GMT_OFFSET b) then [Sampled] else [])
       \<and> lastSampleMin (snd (run D inps s)) = tm_min (localtime_r GMT_OFFSET b)"
  using assms(1,4)
proof (induction inps arbitrary: s)
  case Nil
  then show ?case by simp
next
  case (Cons i inps)
  have c: "clock i = localtime_r GMT_OFFSET b" using Cons.prems by (simp add: clock_def)
  have v: "MIN_EPOCH \<le> now i" using Cons.prems assms(2) by simp
  have sb: "isSampleBoundary (clock i)" using c assms(3) by simp
  note t = tick_sample_boundary [OF v sb, of D s, unfolded c]
  show ?case
  proof (cases "inps = []")
    case True
    then show ?thesis using t by simp
  next
    case False
    then have "fst (run D inps (snd (loop D i s))) = [] \<and>
        lastSampleMin (snd (run D inps (snd (loop D i s)))) = tm_min (localtime_r GMT_OFFSET b)"
      using Cons.IH [of "snd (loop D i s)"] Cons.prems t by simp
    then show ?thesis using t by simp
  qed
qed

lemma run_pro_sample_boundary:
  assumes "\<forall>i\<in>set inps. now_epoch i = b" "MIN_EPOCH_TIME_SEC \<le> b"
    "isSampleBoundary (localtime_r (GMT_OFFSET_SECONDS + DAYLIGHT_OFFSET_SECONDS) b)"
    "inps \<noteq> []"
  shows "fst (run_pro D inps s) =
           (if last_sample_minute_taken s \<noteq> tm_min (localtime_r (GMT_OFFSET_SECONDS + DAYLIGHT_OFFSET_SECONDS) b)
            then [Sampled] else [])
       \<and> last_sample_minute_taken (snd (run_pro D inps s)) =
           tm_min (localtime_r (GMT_OFFSET_SECONDS + DAYLIGHT_OFFSET_SECONDS) b)"
  using assms(1,4)
proof (induction inps arbitrary: s)
  case Nil
  then show ?case by simp
next
  case (Cons i inps)
  let ?t = "localtime_r (GMT_OFFSET_SECONDS + DAYLIGHT_OFFSET_SECONDS) b"
  have c: "clock_pro i = ?t" using Cons.prems by (simp add: clock_pro_def)
  have v: "MIN_EPOCH_TIME_SEC \<le> now_epoch i" using Cons.prems assms(2) by simp
  have sb: "isSampleBoundary (clock_pro i)" using c assms(3) by simp
  note t = tick_pro_sample_boundary [OF v sb, of D s, unfolded c]
  show ?case
  proof (cases "inps = []")
    case True
    then show ?thesis using t by simp
  next
    case False
    then have "fst (run_pro D inps (snd (loop_pro D i s))) = [] \<and>
        last_sample_minute_taken (snd (run_pro D inps (snd (loop_pro D i s)))) = tm_min ?t"
      using Cons.IH [of "snd (loop_pro D i s)"] Cons.prems t by simp
    then show ?thesis using t by simp
  qed
qed

lemma tick_unlatch:
  assumes "MIN_EPOCH \<le> now inp" "tm_min (clock inp) mod 10 \<noteq> 0"
  shows "lastSampleMin (snd (loop D inp s)) = - 1" "Sampled \<notin> set (fst (loop D inp s))"
proof -
  have nb: "\<not> isSampleBoundary (clock inp)" using assms(2) by (simp add: isSampleBoundary_def)
  then have nd: "\<not> sample_due (clock inp) s" "\<not> sample_due (clock inp) (fast_step D inp s)"
    by (simp_all add: sample_due_iff sample_due_fast)
  have rb: "\<not> isReportBoundary (clock inp)" using assms(2) by (auto simp add: isReportBoundary_def)
  have m: "lastSampleMin (mid D inp s) = - 1"
    using assms(2) nd by (simp add: mid_def unlatch_step_def sample_step_idle SAMPLE_STEP_def clock_min_smod)
  show "lastSampleMin (snd (loop D inp s)) = - 1"
    using assms(1) m rb by (simp add: loop_valid report_step_def report_due_iff)
  show "Sampled \<notin> set (fst (loop D inp s))"
    using assms(1) nd rb by (simp add: loop_valid report_due_iff)
qed

lemma tick_pro_unlatch:
  assumes "MIN_EPOCH_TIME_SEC \<le> now_epoch inp" "tm_min (clock_pro inp) mod 10 \<noteq> 0"
  shows "last_sample_minute_taken (snd (loop_pro D inp s)) = - 1"
    "Sampled \<notin> set (fst (loop_pro D inp s))"
proof -
  have nb: "\<not> isSampleBoundary (clock_pro inp)" using assms(2) by (simp add: isSampleBoundary_def)
  then have nd: "\<not> sample_due_pro (clock_pro inp) s" "\<not> sample_due_pro (clock_pro inp) (ntp_step inp s)"
    by (simp_all add: sample_due_pro_iff sample_due_ntp)
  have rb: "\<not> isReportBoundary (clock_pro inp)" using assms(2) by (auto simp add: isReportBoundary_def)
  have m: "last_sample_minute_taken (mid_pro D inp s) = - 1"
    using assms(2) nd
    by (simp add: mid_pro_def unlatch_step_pro_def sample_step_pro_idle SAMPLING_INTERVAL_MIN_def
        clock_pro_min_smod)
  show "last_sample_minute_taken (snd (loop_pro D inp s)) = - 1"
    using assms(1) m rb by (simp add: loop_pro_valid report_step_pro_def report_due_pro_iff)
  show "Sampled \<notin> set (fst (loop_pro D inp s))"
    using assms(1) nd rb by (simp add: loop_pro_valid report_due_pro_iff)
qed


subsection \<open>A pass at a report boundary\<close>

lemma postSheet_counts:
  "count_list (postSheet inp s) ReportFired = 0" "count_list (postSheet inp s) Sampled = 0"
  "length (postSheet inp s) = 1"
  by (simp_all add: postSheet_def)

lemma report_counts:
  "count_list (reportDataToGoogleSheet inp s) ReportFired = 0"
  "count_list (reportDataToGoogleSheet inp s) Sampled = 0"
  "length (reportDataToGoogleSheet inp s) \<le> 1"
  by (simp_all add: reportDataToGoogleSheet_def Let_def)

lemma mid_at_report_boundary:
  assumes "isReportBoundary (clock inp)"
  shows "mid D inp s = fast_step D inp s"
proof -
  have "tm_sec (clock inp) \<noteq> 0" "tm_min (clock inp) smod 10 = 0"
    using assms by (simp_all add: isReportBoundary_def)
  then show ?thesis
    by (simp add: mid_def unlatch_step_def sample_step_def sample_due_def SAMPLE_STEP_def)
qed

lemma mid_pro_at_report_boundary:
  assumes "isReportBoundary (clock_pro inp)"
  shows "mid_pro D inp s = ntp_step inp s"
proof -
  have "tm_sec (clock_pro inp) \<noteq> 0" "tm_min (clock_pro inp) smod 10 = 0"
    using assms by (simp_all add: isReportBoundary_def)
  then show ?thesis
    by (simp add: mid_pro_def unlatch_step_pro_def sample_step_pro_def sample_due_pro_def
        SAMPLING_INTERVAL_MIN_def)
qed

lemma tick_report_boundary:
  assumes "MIN_EPOCH \<le> now inp" "isReportBoundary (clock inp)"
  shows "loop D inp s =
    (if lastReportHr s \<noteq> tm_hour (clock inp) \<and> validSamples s \<noteq> 0
     then (ReportFired # postSheet inp (fast_step D inp s),
           (reset_window (fast_step D inp s))\<lparr>lastReportHr := tm_hour (clock inp)\<rparr>)
     else ([], fast_step D inp s))"
  using assms
  by (simp add: loop_valid mid_at_report_boundary report_due_iff report_step_def fast_step_fields
      sample_due_iff isReportBoundary_def isSampleBoundary_def)

lemma tick_pro_report_boundary:
  assumes "MIN_EPOCH_TIME_SEC \<le> now_epoch inp" "isReportBoundary (clock_pro inp)"
  shows "loop_pro D inp s =
    (if last_report_hour_sent s \<noteq> tm_hour (clock_pro inp) \<and> samples_taken_this_hour s > 0
     then (ReportFired # reportDataToGoogleSheet inp (ntp_step inp s),
           (reset_window_pro (ntp_step inp s))\<lparr>last_report_hour_sent := tm_hour (clock_pro inp)\<rparr>)
     else ([], ntp_step inp s))"
  using assms
  by (simp add: loop_pro_valid mid_pro_at_report_boundary report_due_pro_iff report_step_pro_def
      ntp_step_fields sample_due_pro_iff isReportBoundary_def isSampleBoundary_def)

lemma reset_window_fields:
  "validSamples (reset_window s) = 0" "bufIdx (reset_window s) = 0"
  "lastReportHr (reset_window s) = lastReportHr s" "lastSampleMin (reset_window s) = lastSampleMin s"
  by (simp_all add: reset_window_def clearBuffers_fields)

lemma reset_window_pro_fields:
  "samples_taken_this_hour (reset_window_pro s) = 0" "current_sample_index (reset_window_pro s) = 0"
  "last_report_hour_sent (reset_window_pro s) = last_report_hour_sent s"
  "last_sample_minute_taken (reset_window_pro s) = last_sample_minute_taken s"
  by (simp_all add: reset_window_pro_def clearSampleArrays_fields)

lemma run_report_boundary:
  assumes "\<forall>i\<in>set inps. now i = b" "MIN_EPOCH \<le> b" "isReportBoundary (localtime_r GMT_OFFSET b)"
    "inps \<noteq> []"
  shows "fst (run D inps s) =
           (if lastReportHr s \<noteq> tm_hour (localtime_r GMT_OFFSET b) \<and> validSamples s \<noteq> 0
            then ReportFired # postSheet (hd inps) (fast_step D (hd inps) s) else [])"
  using assms(1,4)
proof (induction inps arbitrary: s)
  case Nil
  then show ?case by simp
next
  case (Cons i inps)
  let ?h = "tm_hour (localtime_r GMT_OFFSET b)"
  have c: "clock i = localtime_r GMT_OFFSET b" using Cons.prems by (simp add: clock_def)
  have v: "MIN_EPOCH \<le> now i" using Cons.prems assms(2) by simp
  have rb: "isReportBoundary (clock i)" using c assms(3) by simp
  note t = tick_report_boundary [OF v rb, of D s, unfolded c]
  have after: "\<not> (lastReportHr (snd (loop D i s)) \<noteq> ?h \<and> validSamples (snd (loop D i s)) \<noteq> 0)"
    using t by (auto simp: fast_step_fields reset_window_fields)
  show ?case
  proof (cases "inps = []")
    case True
    then show ?thesis using t by simp
  next
    case False
    then have "fst (run D inps (snd (loop D i s))) = []"
      using Cons.IH [of "snd (loop D i s)"] Cons.prems after by simp
    then show ?thesis using t by simp
  qed
qed

lemma run_pro_report_boundary:
  assumes "\<forall>i\<in>set inps. now_epoch i = b" "MIN_EPOCH_TIME_SEC \<le> b"
    "isReportBoundary (localtime_r (GMT_OFFSET_SECONDS + DAYLIGHT_OFFSET_SECONDS) b)"
    "inps \<noteq> []"
  shows "fst (run_pro D inps s) =
           (if last_report_hour_sent s \<noteq> tm_hour (localtime_r (GMT_OFFSET_SECONDS + DAYLIGHT_OFFSET_SECONDS) b)
               \<and> samples_taken_this_hour s > 0
            then ReportFired # reportDataToGoogleSheet (hd inps) (ntp_step (hd inps) s) else [])"
  using assms(1,4)
proof (induction inps arbitrary: s)
  case Nil
  then show ?case by simp
next
  case (Cons i inps)
  let ?t = "localtime_r (GMT_OFFSET_SECONDS + DAYLIGHT_OFFSET_SECONDS) b"
  have c: "clock_pro i = ?t" using Cons.prems by (simp add: clock_pro_def)
  have v: "MIN_EPOCH_TIME_SEC \<le> now_epoch i" using Cons.prems assms(2) by simp
  have rb: "isReportBoundary (clock_pro i)" using c assms(3) by simp
  note t = tick_pro_report_boundary [OF v rb, of D s, unfolded c]
  have after: "\<not> (last_report_hour_sent (snd (loop_pro D i s)) \<noteq> tm_hour ?t
      \<and> samples_taken_this_hour (snd (loop_pro D i s)) > 0)"
    using t by (auto simp: ntp_step_fields reset_window_pro_fields)
  show ?case
  proof (cases "inps = []")
    case True
    then show ?thesis using t by simp
  next
    case False
    then have "fst (run_pro D inps (snd (loop_pro D i s))) = []"
      using Cons.IH [of "snd (loop_pro D i s)"] Cons.prems after by simp
    then show ?thesis using t by simp
  qed
qed

text \<open>With an empty window the boundary is passed over, whatever the number of polls.\<close>

lemma run_report_skip:
  assumes "\<forall>i\<in>set inps. now i = b" "MIN_EPOCH \<le> b" "isReportBoundary (localtime_r GMT_OFFSET b)"
    "validSamples s = 0"
  shows "fst (run D inps s) = [] \<and> window (snd (run D inps s)) = window s
       \<and> boundary (snd (run D inps s)) = boundary s"
  using assms(1,4)
proof (induction inps arbitrary: s)
  case Nil
  then show ?case by simp
next
  case (Cons i inps)
  have c: "clock i = localtime_r GMT_OFFSET b" using Cons.prems by (simp add: clock_def)
  have v: "MIN_EPOCH \<le> now i" using Cons.prems assms(2) by simp
  have rb: "isReportBoundary (clock i)" using c assms(3) by simp
  have t: "loop D i s = ([], fast_step D i s)"
    using tick_report_boundary [OF v rb, of D s] Cons.prems by simp
  have "validSamples (fast_step D i s) = 0" using Cons.prems by (simp add: fast_step_fields)
  then show ?case
    using Cons.IH [of "fast_step D i s"] Cons.prems t
    by (simp add: fast_step_window fast_step_boundary)
qed

lemma run_pro_report_skip:
  assumes "\<forall>i\<in>set inps. now_epoch i = b" "MIN_EPOCH_TIME_SEC \<le> b"
    "isReportBoundary (localtime_r (GMT_OFFSET_SECONDS + DAYLIGHT_OFFSET_SECONDS) b)"
    "samples_taken_this_hour s = 0"
  shows "fst (run_pro D inps s) = [] \<and> window_pro (snd (run_pro D inps s)) = window_pro s
       \<and> boundary_pro (snd (run_pro D inps s)) = boundary_pro s"
  using assms(1,4)
proof (induction inps arbitrary: s)
  case Nil
  then show ?case by simp
next
  case (Cons i inps)
  have c: "clock_pro i = localtime_r (GMT_OFFSET_SECONDS + DAYLIGHT_OFFSET_SECONDS) b"
    using Cons.prems by (simp add: clock_pro_def)
  have v: "MIN_EPOCH_TIME_SEC \<le> now_epoch i" using Cons.prems assms(2) by simp
  have rb: "isReportBoundary (clock_pro i)" using c assms(3) by simp
  have t: "loop_pro D i s = ([], ntp_step i s)"
    using tick_pro_report_boundary [OF v rb, of D s] Cons.prems by simp
  have "samples_taken_this_hour (ntp_step i s) = 0" using Cons.prems by (simp add: ntp_step_fields)
  then show ?case
    using Cons.IH [of "ntp_step i s"] Cons.prems t
    by (simp add: ntp_step_window ntp_step_boundary)
qed

subsection \<open>At most one report per hour\<close>

lemma tick_report_latch:
  shows "count_list (fst (loop D inp s)) ReportFired \<le> 1"
    and "ReportFired \<in> set (fst (loop D inp s)) \<Longrightarrow>
           lastReportHr s \<noteq> tm_hour (clock inp) \<and> lastReportHr (snd (loop D inp s)) = tm_hour (clock inp)"
    and "ReportFired \<notin> set (fst (loop D inp s)) \<Longrightarrow> lastReportHr (snd (loop D inp s)) = lastReportHr s"
proof -
  show "count_list (fst (loop D inp s)) ReportFired \<le> 1"
    by (cases "now inp < MIN_EPOCH") (simp_all add: loop_invalid loop_valid postSheet_counts)
  show "ReportFired \<in> set (fst (loop D inp s)) \<Longrightarrow>
           lastReportHr s \<noteq> tm_hour (clock inp) \<and> lastReportHr (snd (loop D inp s)) = tm_hour (clock inp)"
    by (cases "now inp < MIN_EPOCH")
      (auto simp add: loop_invalid loop_valid report_step_def report_due_iff mid_lastReportHr
        split: if_splits)
  show "ReportFired \<notin> set (fst (loop D inp s)) \<Longrightarrow> lastReportHr (snd (loop D inp s)) = lastReportHr s"
    by (cases "now inp < MIN_EPOCH")
      (auto simp add: loop_invalid loop_valid report_step_def fast_step_fields mid_lastReportHr
        split: if_splits)
qed

lemma tick_pro_report_latch:
  shows "count_list (fst (loop_pro D inp s)) ReportFired \<le> 1"
    and "ReportFired \<in> set (fst (loop_pro D inp s)) \<Longrightarrow>
           last_report_hour_sent s \<noteq> tm_hour (clock_pro inp)
           \<and> last_report_hour_sent (snd (loop_pro D inp s)) = tm_hour (clock_pro inp)"
    and "ReportFired \<notin> set (fst (loop_pro D inp s)) \<Longrightarrow>
           last_report_hour_sent (snd (loop_pro D inp s)) = last_report_hour_sent s"
proof -
  show "count_list (fst (loop_pro D inp s)) ReportFired \<le> 1"
    by (cases "now_epoch inp < MIN_EPOCH_TIME_SEC")
      (simp_all add: loop_pro_invalid loop_pro_valid report_counts)
  have nr: "ReportFired \<notin> set (reportDataToGoogleSheet inp s')" for s'
    using report_counts(1) [of inp s'] by (simp add: count_list_0_iff)
  show "ReportFired \<in> set (fst (loop_pro D inp s)) \<Longrightarrow>
           last_report_hour_sent s \<noteq> tm_hour (clock_pro inp)
           \<and> last_report_hour_sent (snd (loop_pro D inp s)) = tm_hour (clock_pro inp)"
    by (cases "now_epoch inp < MIN_EPOCH_TIME_SEC")
      (auto simp add: loop_pro_invalid loop_pro_valid report_step_pro_def report_due_pro_iff
        mid_pro_last_report split: if_splits)
  show "ReportFired \<notin> set (fst (loop_pro D inp s)) \<Longrightarrow>
           last_report_hour_sent (snd (loop_pro D inp s)) = last_report_hour_sent s"
    by (cases "now_epoch inp < MIN_EPOCH_TIME_SEC")
      (auto simp add: loop_pro_invalid loop_pro_valid report_step_pro_def ntp_step_fields
        mid_pro_last_report split: if_splits)
qed

lemma run_one_report_per_hour:
  assumes "\<forall>i\<in>set inps. now i < MIN_EPOCH \<or> tm_hour (clock i) = h"
  shows "count_list (fst (run D inps s)) ReportFired \<le> 1
       \<and> (lastReportHr s = h \<longrightarrow> count_list (fst (run D inps s)) ReportFired = 0)"
  using assms
proof (induction inps arbitrary: s)
  case Nil
  then show ?case by simp
next
  case (Cons i inps)
  let ?s' = "snd (loop D i s)"
  have ih: "count_list (fst (run D inps ?s')) ReportFired \<le> 1
       \<and> (lastReportHr ?s' = h \<longrightarrow> count_list (fst (run D inps ?s')) ReportFired = 0)"
    using Cons.IH [of ?s'] Cons.prems by simp
  have hour: "now i < MIN_EPOCH \<or> tm_hour (clock i) = h" using Cons.prems by simp
  show ?case
  proof (cases "ReportFired \<in> set (fst (loop D i s))")
    case True
    then have v: "\<not> now i < MIN_EPOCH" by (auto simp: loop_invalid)
    have l: "lastReportHr s \<noteq> h" "lastReportHr ?s' = h"
      using tick_report_latch(2) [OF True] hour v by simp_all
    have "count_list (fst (loop D i s)) ReportFired \<le> 1" by (rule tick_report_latch(1))
    then show ?thesis using ih l by simp
  next
    case False
    then have z: "count_list (fst (loop D i s)) ReportFired = 0" by (simp add: count_list_0_iff)
    have "lastReportHr ?s' = lastReportHr s" using tick_report_latch(3) [OF False] .
    then show ?thesis using ih z by simp
  qed
qed

lemma run_pro_one_report_per_hour:
  assumes "\<forall>i\<in>set inps. now_epoch i < MIN_EPOCH_TIME_SEC \<or> tm_hour (clock_pro i) = h"
  shows "count_list (fst (run_pro D inps s)) ReportFired \<le> 1
       \<and> (last_report_hour_sent s = h \<longrightarrow> count_list (fst (run_pro D inps s)) ReportFired = 0)"
  using assms
proof (induction inps arbitrary: s)
  case Nil
  then show ?case by simp
next
  case (Cons i inps)
  let ?s' = "snd (loop_pro D i s)"
  have ih: "count_list (fst (run_pro D inps ?s')) ReportFired \<le> 1
       \<and> (last_report_hour_sent ?s' = h \<longrightarrow> count_list (fst (run_pro D inps ?s')) ReportFired = 0)"
    using Cons.IH [of ?s'] Cons.prems by simp
  have hour: "now_epoch i < MIN_EPOCH_TIME_SEC \<or> tm_hour (clock_pro i) = h" using Cons.prems by simp
  show ?case
  proof (cases "ReportFired \<in> set (fst (loop_pro D i s))")
    case True
    then have v: "\<not> now_epoch i < MIN_EPOCH_TIME_SEC" by (auto simp: loop_pro_invalid)
    have l: "last_report_hour_sent s \<noteq> h" "last_report_hour_sent ?s' = h"
      using tick_pro_report_latch(2) [OF True] hour v by simp_all
    have "count_list (fst (loop_pro D i s)) ReportFired \<le> 1" by (rule tick_pro_report_latch(1))
    then show ?thesis using ih l by simp
  next
    case False
    then have z: "count_list (fst (loop_pro D i s)) ReportFired = 0" by (simp add: count_list_0_iff)
    have "last_report_hour_sent ?s' = last_report_hour_sent s" using tick_pro_report_latch(3) [OF False] .
    then show ?thesis using ih z by simp
  qed
qed

subsection \<open>The four ways a pass can go\<close>

lemma loop_cases:
  obtains (invalid) "now inp < MIN_EPOCH" "loop D inp s = ([], fast_step D inp s)"
  | (sample) "MIN_EPOCH \<le> now inp" "isSampleBoundary (clock inp)"
      "lastSampleMin s \<noteq> tm_min (clock inp)"
      "loop D inp s = ([Sampled],
         (sample_write D inp (fast_step D inp s))\<lparr>
            validSamples := min (validSamples s + 1) 6,
            bufIdx := word_of_int ((uint (bufIdx s) + 1) smod 6),
            lastSampleMin := tm_min (clock inp)\<rparr>)"
  | (report) "MIN_EPOCH \<le> now inp" "isReportBoundary (clock inp)"
      "lastReportHr s \<noteq> tm_hour (clock inp)" "validSamples s \<noteq> 0"
      "loop D inp s = (ReportFired # postSheet inp (fast_step D inp s),
         (reset_window (fast_step D inp s))\<lparr>lastReportHr := tm_hour (clock inp)\<rparr>)"
  | (idle) "MIN_EPOCH \<le> now inp"
      "loop D inp s = ([], unlatch_step (clock inp) (fast_step D inp s))"
proof (cases "now inp < MIN_EPOCH")
  case True
  then show ?thesis using invalid by (simp add: loop_invalid)
next
  case False
  then have v: "MIN_EPOCH \<le> now inp" by simp
  show ?thesis
  proof (cases "sample_due (clock inp) s")
    case True
    then have sb: "isSampleBoundary (clock inp)" and l: "lastSampleMin s \<noteq> tm_min (clock inp)"
      by (simp_all add: sample_due_iff)
    have d: "sample_due (clock inp) (fast_step D inp s)" using True by (simp add: sample_due_fast)
    have m: "tm_min (clock inp) smod 10 = 0" using sb by (simp add: clock_min_smod isSampleBoundary_def)
    have "mid D inp s = (sample_write D inp (fast_step D inp s))\<lparr>
            validSamples := min (validSamples s + 1) 6,
            bufIdx := word_of_int ((uint (bufIdx s) + 1) smod 6),
            lastSampleMin := tm_min (clock inp)\<rparr>"
      using m by (simp add: mid_def unlatch_step_def SAMPLE_STEP_def sample_step_due [OF d] fast_step_fields)
    then have "loop D inp s = ([Sampled],
         (sample_write D inp (fast_step D inp s))\<lparr>
            validSamples := min (validSamples s + 1) 6,
            bufIdx := word_of_int ((uint (bufIdx s) + 1) smod 6),
            lastSampleMin := tm_min (clock inp)\<rparr>)"
      using v True mid_at_sample_boundary(2) [OF sb, of D s]
      by (simp add: loop_valid report_step_def)
    then show ?thesis using sample v sb l by blast
  next
    case nd: False
    then have nd': "\<not> sample_due (clock inp) (fast_step D inp s)" by (simp add: sample_due_fast)
    have m: "mid D inp s = unlatch_step (clock inp) (fast_step D inp s)"
      by (simp add: mid_def sample_step_idle [OF nd'])
    show ?thesis
    proof (cases "isReportBoundary (clock inp) \<and> lastReportHr s \<noteq> tm_hour (clock inp) \<and> validSamples s \<noteq> 0")
      case True
      then show ?thesis using report v tick_report_boundary [OF v, of D s] by simp
    next
      case False
      have "\<not> report_due (clock inp) (mid D inp s)"
        using False by (simp add: report_due_iff mid_lastReportHr m unlatch_step_def fast_step_fields)
      then have "loop D inp s = ([], unlatch_step (clock inp) (fast_step D inp s))"
        using v nd m by (simp add: loop_valid report_step_def)
      then show ?thesis using idle v by blast
    qed
  qed
qed

lemma loop_pro_cases:
  obtains (invalid) "now_epoch inp < MIN_EPOCH_TIME_SEC" "loop_pro D inp s = ([], ntp_step inp s)"
  | (sample) "MIN_EPOCH_TIME_SEC \<le> now_epoch inp" "isSampleBoundary (clock_pro inp)"
      "last_sample_minute_taken s \<noteq> tm_min (clock_pro inp)"
      "loop_pro D inp s = ([Sampled],
         (takeSample D inp (current_sample_index s) (ntp_step inp s))\<lparr>
            current_sample_index := (current_sample_index s + 1) smod 6,
            samples_taken_this_hour := min (samples_taken_this_hour s + 1) 6,
            last_sample_minute_taken := tm_min (clock_pro inp)\<rparr>)"
  | (report) "MIN_EPOCH_TIME_SEC \<le> now_epoch inp" "isReportBoundary (clock_pro inp)"
      "last_report_hour_sent s \<noteq> tm_hour (clock_pro inp)" "samples_taken_this_hour s > 0"
      "loop_pro D inp s = (ReportFired # reportDataToGoogleSheet inp (ntp_step inp s),
         (reset_window_pro (ntp_step inp s))\<lparr>last_report_hour_sent := tm_hour (clock_pro inp)\<rparr>)"
  | (idle) "MIN_EPOCH_TIME_SEC \<le> now_epoch inp"
      "loop_pro D inp s = ([], unlatch_step_pro (clock_pro inp) (ntp_step inp s))"
proof (cases "now_epoch inp < MIN_EPOCH_TIME_SEC")
  case True
  then show ?thesis using invalid by (simp add: loop_pro_invalid)
next
  case False
  then have v: "MIN_EPOCH_TIME_SEC \<le> now_epoch inp" by simp
  show ?thesis
  proof (cases "sample_due_pro (clock_pro inp) s")
    case True
    then have sb: "isSampleBoundary (clock_pro inp)"
      and l: "last_sample_minute_taken s \<noteq> tm_min (clock_pro inp)"
      by (simp_all add: sample_due_pro_iff)
    have d: "sample_due_pro (clock_pro inp) (ntp_step inp s)" using True by (simp add: sample_due_ntp)
    have m: "tm_min (clock_pro inp) smod 10 = 0"
      using sb by (simp add: clock_pro_min_smod isSampleBoundary_def)
    have "mid_pro D inp s = (takeSample D inp (current_sample_index s) (ntp_step inp s))\<lparr>
            current_sample_index := (current_sample_index s + 1) smod 6,
            samples_taken_this_hour := min (samples_taken_this_hour s + 1) 6,
            last_sample_minute_taken := tm_min (clock_pro inp)\<rparr>"
      using m by (simp add: mid_pro_def unlatch_step_pro_def SAMPLING_INTERVAL_MIN_def
          sample_step_pro_due [OF d] ntp_step_fields)
    then have "loop_pro D inp s = ([Sampled],
         (takeSample D inp (current_sample_index s) (ntp_step inp s))\<lparr>
            current_sample_index := (current_sample_index s + 1) smod 6,
            samples_taken_this_hour := min (samples_taken_this_hour s + 1) 6,
            last_sample_minute_taken := tm_min (clock_pro inp)\<rparr>)"
      using v True mid_pro_at_sample_boundary(2) [OF sb, of D s]
      by (simp add: loop_pro_valid report_step_pro_def)
    then show ?thesis using sample v sb l by blast
  next
    case nd: False
    then have nd': "\<not> sample_due_pro (clock_pro inp) (ntp_step inp s)" by (simp add: sample_due_ntp)
    have m: "mid_pro D inp s = unlatch_step_pro (clock_pro inp) (ntp_step inp s)"
      by (simp add: mid_pro_def sample_step_pro_idle [OF nd'])
    show ?thesis
    proof (cases "isReportBoundary (clock_pro inp) \<and> last_report_hour_sent s \<noteq> tm_hour (clock_pro inp)
        \<and> samples_taken_this_hour s > 0")
      case True
      then show ?thesis using report v tick_pro_report_boundary [OF v, of D s] by simp
    next
      case False
      have "\<not> report_due_pro (clock_pro inp) (mid_pro D inp s)"
        using False
        by (simp add: report_due_pro_iff mid_pro_last_report m unlatch_step_pro_def ntp_step_fields)
      then have "loop_pro D inp s = ([], unlatch_step_pro (clock_pro inp) (ntp_step inp s))"
        using v nd m by (simp add: loop_pro_valid report_step_pro_def)
      then show ?thesis using idle v by blast
    qed
  qed
qed

subsection \<open>Shape of the arrays\<close>

lemma shape_fast_step: "shape (fast_step D inp s) = shape s"
  by (simp add: shape_def fast_step_fields)

lemma shape_ntp_step: "shape_pro (ntp_step inp s) = shape_pro s"
  by (simp add: shape_pro_def ntp_step_fields)

lemma shape_sample_write: "shape s \<Longrightarrow> shape (sample_write D inp s)"
proof -
  assume a: "shape s"
  then obtain r0 r1 r2 r3 where ds: "dsBuf s = [r0, r1, r2, r3]"
    unfolding shape_def by (auto dest!: len4)
  show ?thesis
    using a by (simp add: shape_def sample_write_ds sample_write_dht ds)
qed

lemma shape_takeSample: "shape_pro s \<Longrightarrow> shape_pro (takeSample D inp k s)"
proof -
  assume a: "shape_pro s"
  then obtain r0 r1 r2 r3 where ds: "ds18b20_temp_samples s = [r0, r1, r2, r3]"
    unfolding shape_pro_def by (auto dest!: len4)
  show ?thesis
    using a by (simp add: shape_pro_def takeSample_ds takeSample_dht ds)
qed

lemma shape_unlatch: "shape (unlatch_step t s) = shape s"
  by (simp add: shape_def unlatch_step_def)

lemma shape_unlatch_pro: "shape_pro (unlatch_step_pro t s) = shape_pro s"
  by (simp add: shape_pro_def unlatch_step_pro_def)

lemma shape_loop: "shape s \<Longrightarrow> shape (snd (loop D inp s))"
proof (cases D inp s rule: loop_cases)
  case invalid
  assume "shape s" with invalid show ?thesis by (simp add: shape_fast_step)
next
  case sample
  assume "shape s"
  then have "shape (sample_write D inp (fast_step D inp s))"
    by (intro shape_sample_write) (simp add: shape_fast_step)
  then show ?thesis using sample by (simp add: shape_def)
next
  case report
  assume "shape s"
  then have "shape (reset_window (fast_step D inp s))"
    using reset_window_agro [of "fast_step D inp s"] by (simp add: shape_fast_step)
  then show ?thesis using report by (simp add: shape_def)
next
  case idle
  assume "shape s" with idle show ?thesis by (simp add: shape_unlatch shape_fast_step)
qed

lemma shape_loop_pro: "shape_pro s \<Longrightarrow> shape_pro (snd (loop_pro D inp s))"
proof (cases D inp s rule: loop_pro_cases)
  case invalid
  assume "shape_pro s" with invalid show ?thesis by (simp add: shape_ntp_step)
next
  case sample
  assume "shape_pro s"
  then have "shape_pro (takeSample D inp (current_sample_index s) (ntp_step inp s))"
    by (intro shape_takeSample) (simp add: shape_ntp_step)
  then show ?thesis using sample by (simp add: shape_pro_def)
next
  case report
  assume "shape_pro s"
  then have "shape_pro (reset_window_pro (ntp_step inp s))"
    using reset_window_pro_eq [of "ntp_step inp s"] by (simp add: shape_ntp_step)
  then show ?thesis using report by (simp add: shape_pro_def)
next
  case idle
  assume "shape_pro s" with idle show ?thesis by (simp add: shape_unlatch_pro shape_ntp_step)
qed


section \<open>The claims about single passes\<close>

lemma shape_boot: "shape boot" "shape_pro boot_pro"
  by (simp_all add: shape_def shape_pro_def boot_def boot_pro_def list_all_iff)

lemma setup_agro_eq:
  "setup_agro = boot\<lparr>dsBuf := [nan_row, nan_row, nan_row, nan_row], dhtHBuf := nan_row, dhtTBuf := nan_row\<rparr>"
  unfolding setup_agro_def by (rule clearBuffers_eq) (rule shape_boot)

lemma setup_pro_eq:
  "setup_pro = boot_pro\<lparr>ds18b20_temp_samples := [nan_row, nan_row, nan_row, nan_row],
            dht_temp_samples := nan_row, dht_humidity_samples := nan_row\<rparr>"
  unfolding setup_pro_def by (rule clearSampleArrays_eq) (rule shape_boot)

lemma shape_setup: "shape setup_agro" "shape_pro setup_pro"
  by (simp_all add: setup_agro_eq setup_pro_eq shape_def shape_pro_def nan_row_def boot_def boot_pro_def)

text \<open>
  Claim C4. A pass whose epoch is below the minimum epoch takes no sampling and no
  reporting action in either sketch: it produces no event and leaves the window (buffers,
  write index, populated count) and the boundary state (last sample minute, last report
  hour) as they were.
\<close>

theorem invalid_clock_no_action:
  assumes "now inp < MIN_EPOCH" and "now_epoch pinp < MIN_EPOCH_TIME_SEC"
  shows "fst (loop D inp s) = [] \<and> window (snd (loop D inp s)) = window s
       \<and> boundary (snd (loop D inp s)) = boundary s
       \<and> fst (loop_pro D pinp p) = [] \<and> window_pro (snd (loop_pro D pinp p)) = window_pro p
       \<and> boundary_pro (snd (loop_pro D pinp p)) = boundary_pro p"
  using invalid_clock_agro [OF assms(1), of D s] invalid_clock_pro [OF assms(2), of D p]
  by simp

theorem invalid_clock_no_action_witness:
  "now (tick_at 946684799 (Val 20)) < MIN_EPOCH
   \<and> now_epoch (tick_at_pro 946684799 (Val 20)) < MIN_EPOCH_TIME_SEC
   \<and> fst (loop (Val (- 127)) (tick_at 946684799 (Val 20)) setup_agro) = []
   \<and> window (snd (loop (Val (- 127)) (tick_at 946684799 (Val 20)) setup_agro)) = window setup_agro
   \<and> boundary (snd (loop (Val (- 127)) (tick_at 946684799 (Val 20)) setup_agro)) = (- 1, - 1)
   \<and> fst (loop_pro (Val (- 127)) (tick_at_pro 946684799 (Val 20)) setup_pro) = []
   \<and> window_pro (snd (loop_pro (Val (- 127)) (tick_at_pro 946684799 (Val 20)) setup_pro))
       = window_pro setup_pro"
proof -
  have a: "now (tick_at 946684799 (Val 20)) < MIN_EPOCH"
    by (simp add: tick_at_def MIN_EPOCH_def)
  have b: "now_epoch (tick_at_pro 946684799 (Val 20)) < MIN_EPOCH_TIME_SEC"
    by (simp add: tick_at_pro_def MIN_EPOCH_TIME_SEC_def)
  have c: "boundary setup_agro = (- 1, - 1)"
    by (simp add: setup_agro_eq boundary_def boot_def)
  show ?thesis
    using a b c invalid_clock_no_action [OF a b, of "Val (- 127)" setup_agro setup_pro]
    by simp
qed

text \<open>
  Claim C10. In Agro.cpp a pass at which the 5 s fast-read interval has elapsed runs the
  live mirroring pass even though the epoch is below the minimum epoch: the whole pass is
  the fast read (the cloud variables take the checked probe readings, the DHT variables
  the new reading or their old value), no sample or report happens, and the window and the
  boundary state are unchanged.
\<close>

theorem fast_read_precedes_clock_check:
  assumes "FAST_READ_MS \<le> millis_test inp - lastFastRead s" and "now inp < MIN_EPOCH"
  shows "loop D inp s = ([], readSensorsFast D inp (s\<lparr>lastFastRead := millis_store inp\<rparr>))
       \<and> temp1 (snd (loop D inp s)) = ds_check D (fast_getTempC inp 0)
       \<and> temp2 (snd (loop D inp s)) = ds_check D (fast_getTempC inp 1)
       \<and> temp3 (snd (loop D inp s)) = ds_check D (fast_getTempC inp 2)
       \<and> temp4 (snd (loop D inp s)) = ds_check D (fast_getTempC inp 3)
       \<and> dhtTemp (snd (loop D inp s)) =
           (if isnan (fast_readTemperature inp) then dhtTemp s else fast_readTemperature inp)
       \<and> dhtHumi (snd (loop D inp s)) =
           (if isnan (fast_readHumidity inp) then dhtHumi s else fast_readHumidity inp)
       \<and> lastFastRead (snd (loop D inp s)) = millis_store inp
       \<and> window (snd (loop D inp s)) = window s
       \<and> boundary (snd (loop D inp s)) = boundary s"
proof -
  have l: "loop D inp s = ([], readSensorsFast D inp (s\<lparr>lastFastRead := millis_store inp\<rparr>))"
    using assms by (rule fast_read_when_invalid)
  have f: "lastFastRead (readSensorsFast D inp (s\<lparr>lastFastRead := millis_store inp\<rparr>)) = millis_store inp"
    by (simp add: readSensorsFast_def Let_def)
  show ?thesis
    using invalid_clock_agro [OF assms(2), of D s] f
    by (simp add: l readSensorsFast_cloud)
qed

theorem fast_read_precedes_clock_check_witness:
  "FAST_READ_MS \<le> millis_test ((tick_at 0 (Val 21))\<lparr>millis_test := 5000, millis_store := 5001\<rparr>)
      - lastFastRead setup_agro
   \<and> now ((tick_at 0 (Val 21))\<lparr>millis_test := 5000, millis_store := 5001\<rparr>) < MIN_EPOCH
   \<and> temp1 (snd (loop (Val (- 127))
        ((tick_at 0 (Val 21))\<lparr>millis_test := 5000, millis_store := 5001\<rparr>) setup_agro)) = Val 21
   \<and> dhtTemp (snd (loop (Val (- 127))
        ((tick_at 0 (Val 21))\<lparr>millis_test := 5000, millis_store := 5001\<rparr>) setup_agro)) = Val 21
   \<and> lastFastRead (snd (loop (Val (- 127))
        ((tick_at 0 (Val 21))\<lparr>millis_test := 5000, millis_store := 5001\<rparr>) setup_agro)) = 5001
   \<and> window (snd (loop (Val (- 127))
        ((tick_at 0 (Val 21))\<lparr>millis_test := 5000, millis_store := 5001\<rparr>) setup_agro))
       = window setup_agro"
proof -
  let ?i = "(tick_at 0 (Val 21))\<lparr>millis_test := 5000, millis_store := 5001\<rparr>"
  have a: "FAST_READ_MS \<le> millis_test ?i - lastFastRead setup_agro"
    by (simp add: tick_at_def FAST_READ_MS_def setup_agro_eq boot_def)
  have b: "now ?i < MIN_EPOCH" by (simp add: tick_at_def MIN_EPOCH_def)
  have c: "fast_getTempC ?i 0 = Val 21" "fast_readTemperature ?i = Val 21" "millis_store ?i = 5001"
    by (simp_all add: tick_at_def)
  note t = fast_read_precedes_clock_check [OF a b, of "Val (- 127)"]
  have "temp1 (snd (loop (Val (- 127)) ?i setup_agro)) = ds_check (Val (- 127)) (fast_getTempC ?i 0)"
    using t by blast
  also have "\<dots> = Val 21" unfolding c by (simp add: ds_check_def)
  finally have 1: "temp1 (snd (loop (Val (- 127)) ?i setup_agro)) = Val 21" .
  have "dhtTemp (snd (loop (Val (- 127)) ?i setup_agro)) =
      (if isnan (fast_readTemperature ?i) then dhtTemp setup_agro else fast_readTemperature ?i)"
    using t by blast
  also have "\<dots> = Val 21" unfolding c by simp
  finally have 2: "dhtTemp (snd (loop (Val (- 127)) ?i setup_agro)) = Val 21" .
  have "lastFastRead (snd (loop (Val (- 127)) ?i setup_agro)) = millis_store ?i"
    using t by blast
  also have "\<dots> = 5001" unfolding c by simp
  finally have 3: "lastFastRead (snd (loop (Val (- 127)) ?i setup_agro)) = 5001" .
  have 4: "window (snd (loop (Val (- 127)) ?i setup_agro)) = window setup_agro"
    using t by blast
  show ?thesis using a b 1 2 3 4 by blast
qed

text \<open>
  Claim C9. In every state of either sketch, the window reset (clearing the buffers and
  zeroing the two counters, as done at window close) gives a populated count of 0, a write
  index of 0 and the invalid marker in every slot of every channel, so that the snapshot of
  each channel (its first populated-count slots) is empty.
\<close>

theorem reset_yields_empty_window:
  assumes "shape s" and "shape_pro p"
  shows "validSamples (reset_window s) = 0 \<and> bufIdx (reset_window s) = 0
       \<and> dsBuf (reset_window s) = replicate 4 (replicate 6 NaN)
       \<and> dhtTBuf (reset_window s) = replicate 6 NaN
       \<and> dhtHBuf (reset_window s) = replicate 6 NaN
       \<and> all_invalid (reset_window s)
       \<and> take (unat (validSamples (reset_window s))) (dhtTBuf (reset_window s)) = []
       \<and> samples_taken_this_hour (reset_window_pro p) = 0
       \<and> current_sample_index (reset_window_pro p) = 0
       \<and> ds18b20_temp_samples (reset_window_pro p) = replicate 4 (replicate 6 NaN)
       \<and> dht_temp_samples (reset_window_pro p) = replicate 6 NaN
       \<and> dht_humidity_samples (reset_window_pro p) = replicate 6 NaN
       \<and> all_invalid_pro (reset_window_pro p)
       \<and> take (nat (samples_taken_this_hour (reset_window_pro p)))
            (dht_temp_samples (reset_window_pro p)) = []"
  using reset_window_agro [OF assms(1)] reset_window_pro_eq [OF assms(2)] by simp

theorem reset_yields_empty_window_witness:
  "shape boot \<and> shape_pro boot_pro
   \<and> dsBuf boot = replicate 4 (replicate 6 (Val 0))
   \<and> validSamples (reset_window boot) = 0 \<and> bufIdx (reset_window boot) = 0
   \<and> dsBuf (reset_window boot) = replicate 4 (replicate 6 NaN)
   \<and> dht_temp_samples (reset_window_pro boot_pro) = replicate 6 NaN
   \<and> samples_taken_this_hour (reset_window_pro boot_pro) = 0"
  using reset_yields_empty_window [OF shape_boot] shape_boot by (simp add: boot_def)


subsection \<open>The ring-buffer invariant\<close>

lemma window_unlatch: "window (unlatch_step t s) = window s"
  by (simp add: window_def unlatch_step_def)

lemma window_unlatch_pro: "window_pro (unlatch_step_pro t s) = window_pro s"
  by (simp add: window_pro_def unlatch_step_pro_def)

lemma ring_inv_window: "window s' = window s \<Longrightarrow> ring_inv s' = ring_inv s"
  by (simp add: window_def ring_inv_def)

lemma ring_inv_pro_window: "window_pro s' = window_pro s \<Longrightarrow> ring_inv_pro s' = ring_inv_pro s"
  by (simp add: window_pro_def ring_inv_pro_def)

lemma loop_ring:
  assumes "ring_inv s" and "shape s"
  shows "ring_inv (snd (loop D inp s)) \<and> shape (snd (loop D inp s))
    \<and> (ReportFired \<in> set (fst (loop D inp s)) \<longrightarrow>
          validSamples (snd (loop D inp s)) = 0 \<and> bufIdx (snd (loop D inp s)) = 0
          \<and> all_invalid (snd (loop D inp s)))
    \<and> (ReportFired \<notin> set (fst (loop D inp s)) \<longrightarrow>
          validSamples s \<le> validSamples (snd (loop D inp s)))
    \<and> (Sampled \<in> set (fst (loop D inp s)) \<longrightarrow>
          uint (bufIdx (snd (loop D inp s))) = (uint (bufIdx s) + 1) mod 6
          \<and> unat (validSamples (snd (loop D inp s))) = min (unat (validSamples s) + 1) 6)
    \<and> (fst (loop D inp s) = [] \<longrightarrow> window (snd (loop D inp s)) = window s)"
proof -
  have sh: "shape (snd (loop D inp s))" using assms(2) by (rule shape_loop)
  have v6: "validSamples s \<le> 6" using assms(1) by (simp add: ring_inv_def SAMPLES_HR_def)
  show ?thesis
  proof (cases D inp s rule: loop_cases)
    case invalid
    then show ?thesis
      using assms sh ring_inv_window [OF fast_step_window, of D inp s]
      by (simp add: fast_step_window fast_step_fields)
  next
    case sample
    then show ?thesis
      using sh count_next [OF v6] idx_next_lt [of "bufIdx s"] idx_next_uint [of "bufIdx s"]
      by (simp add: ring_inv_def SAMPLES_HR_def)
  next
    case report
    have "shape (fast_step D inp s)" using assms(2) by (simp add: shape_fast_step)
    from reset_window_agro [OF this]
    have rw: "validSamples (reset_window (fast_step D inp s)) = 0"
      "bufIdx (reset_window (fast_step D inp s)) = 0"
      "all_invalid (reset_window (fast_step D inp s))"
      by simp_all
    from rw(3) have ai: "all_invalid ((reset_window (fast_step D inp s))\<lparr>lastReportHr := tm_hour (clock inp)\<rparr>)"
      by (simp add: all_invalid_def)
    show ?thesis
      unfolding report(5) using sh [unfolded report(5)] rw(1,2) ai
      by (simp add: ring_inv_def SAMPLES_HR_def postSheet_def)
  next
    case idle
    have w: "window (unlatch_step (clock inp) (fast_step D inp s)) = window s"
      by (simp add: window_unlatch fast_step_window)
    show ?thesis
      using idle assms sh w ring_inv_window [OF w]
      by (simp add: window_def)
  qed
qed

lemma idx_next_pro:
  assumes "0 \<le> (k::int)" "k < 6"
  shows "0 \<le> (k + 1) smod 6" "(k + 1) smod 6 < 6" "(k + 1) smod 6 = (k + 1) mod 6"
  using assms by (simp_all add: smod_nonneg)

lemma loop_pro_ring:
  assumes "ring_inv_pro s" and "shape_pro s"
  shows "ring_inv_pro (snd (loop_pro D inp s)) \<and> shape_pro (snd (loop_pro D inp s))
    \<and> (ReportFired \<in> set (fst (loop_pro D inp s)) \<longrightarrow>
          samples_taken_this_hour (snd (loop_pro D inp s)) = 0
          \<and> current_sample_index (snd (loop_pro D inp s)) = 0
          \<and> all_invalid_pro (snd (loop_pro D inp s)))
    \<and> (ReportFired \<notin> set (fst (loop_pro D inp s)) \<longrightarrow>
          samples_taken_this_hour s \<le> samples_taken_this_hour (snd (loop_pro D inp s)))
    \<and> (Sampled \<in> set (fst (loop_pro D inp s)) \<longrightarrow>
          current_sample_index (snd (loop_pro D inp s)) = (current_sample_index s + 1) mod 6
          \<and> samples_taken_this_hour (snd (loop_pro D inp s)) = min (samples_taken_this_hour s + 1) 6)
    \<and> (fst (loop_pro D inp s) = [] \<longrightarrow> window_pro (snd (loop_pro D inp s)) = window_pro s)"
proof -
  have sh: "shape_pro (snd (loop_pro D inp s))" using assms(2) by (rule shape_loop_pro)
  have r: "0 \<le> current_sample_index s" "current_sample_index s < 6"
    "0 \<le> samples_taken_this_hour s" "samples_taken_this_hour s \<le> 6"
    using assms(1) by (simp_all add: ring_inv_pro_def SAMPLES_PER_HOUR_def)
  have nr: "ReportFired \<notin> set (reportDataToGoogleSheet inp s')" "Sampled \<notin> set (reportDataToGoogleSheet inp s')" for s'
    using report_counts(1,2) [of inp s'] by (simp_all add: count_list_0_iff)
  show ?thesis
  proof (cases D inp s rule: loop_pro_cases)
    case invalid
    then show ?thesis
      using assms sh ring_inv_pro_window [OF ntp_step_window, of inp s]
      by (simp add: ntp_step_window ntp_step_fields)
  next
    case sample
    then show ?thesis
      using sh r idx_next_pro [OF r(1,2)]
      by (simp add: ring_inv_pro_def SAMPLES_PER_HOUR_def)
  next
    case report
    have "shape_pro (ntp_step inp s)" using assms(2) by (simp add: shape_ntp_step)
    from reset_window_pro_eq [OF this]
    have rw: "samples_taken_this_hour (reset_window_pro (ntp_step inp s)) = 0"
      "current_sample_index (reset_window_pro (ntp_step inp s)) = 0"
      "all_invalid_pro (reset_window_pro (ntp_step inp s))"
      by simp_all
    from rw(3) have ai: "all_invalid_pro ((reset_window_pro (ntp_step inp s))\<lparr>
        last_report_hour_sent := tm_hour (clock_pro inp)\<rparr>)"
      by (simp add: all_invalid_pro_def)
    show ?thesis
      unfolding report(5) using sh [unfolded report(5)] rw(1,2) ai nr
      by (simp add: ring_inv_pro_def SAMPLES_PER_HOUR_def)
  next
    case idle
    have w: "window_pro (unlatch_step_pro (clock_pro inp) (ntp_step inp s)) = window_pro s"
      by (simp add: window_unlatch_pro ntp_step_window)
    show ?thesis
      using idle assms sh w ring_inv_pro_window [OF w]
      by (simp add: window_pro_def)
  qed
qed

lemma ring_setup: "ring_inv setup_agro" "ring_inv_pro setup_pro"
  by (simp_all add: setup_agro_eq setup_pro_eq ring_inv_def ring_inv_pro_def boot_def boot_pro_def
      SAMPLES_HR_def SAMPLES_PER_HOUR_def)

subsection \<open>The delivery outcome does not reach the state\<close>

lemma loop_http_irrelevant: "snd (loop D (inp\<lparr>http_code := c\<rparr>) s) = snd (loop D inp s)"
proof -
  let ?i = "inp\<lparr>http_code := c\<rparr>"
  have f: "fast_step D ?i s' = fast_step D inp s'" for s'
    by (simp add: fast_step_def readSensorsFast_def)
  have w: "sample_write D ?i s' = sample_write D inp s'" for s'
    by (simp add: sample_write_def)
  have st: "sample_step D ?i t s' = sample_step D inp t s'" for t s'
    by (simp add: sample_step_def w)
  show ?thesis by (simp add: loop_def Let_def f st)
qed

lemma loop_pro_outcome_irrelevant:
  "snd (loop_pro D (inp\<lparr>wifi_connected := w, payload_fits := f, begin_ok := b,
                        http_response_code := c\<rparr>) s) = snd (loop_pro D inp s)"
proof -
  let ?i = "inp\<lparr>wifi_connected := w, payload_fits := f, begin_ok := b, http_response_code := c\<rparr>"
  have n: "ntp_step ?i s' = ntp_step inp s'" for s'
    by (simp add: ntp_step_def)
  have t: "takeSample D ?i k s' = takeSample D inp k s'" for k s'
    by (simp add: takeSample_def)
  have st: "sample_step_pro D ?i t s' = sample_step_pro D inp t s'" for t s'
    by (simp add: sample_step_pro_def t)
  show ?thesis by (simp add: loop_pro_def Let_def n st)
qed

lemma events_without_report:
  "ReportFired \<notin> set (fst (loop D inp s)) \<Longrightarrow> set (fst (loop D inp s)) \<subseteq> {Sampled}"
  by (cases D inp s rule: loop_cases) simp_all

lemma events_pro_without_report:
  "ReportFired \<notin> set (fst (loop_pro D inp s)) \<Longrightarrow> set (fst (loop_pro D inp s)) \<subseteq> {Sampled}"
  by (cases D inp s rule: loop_pro_cases) simp_all

lemma run_events_without_report:
  "ReportFired \<notin> set (fst (run D inps s)) \<Longrightarrow> set (fst (run D inps s)) \<subseteq> {Sampled}"
proof (induction inps arbitrary: s)
  case Nil
  then show ?case by simp
next
  case (Cons i inps)
  then show ?case using events_without_report [of D i s] by auto
qed

lemma run_pro_events_without_report:
  "ReportFired \<notin> set (fst (run_pro D inps s)) \<Longrightarrow> set (fst (run_pro D inps s)) \<subseteq> {Sampled}"
proof (induction inps arbitrary: s)
  case Nil
  then show ?case by simp
next
  case (Cons i inps)
  then show ?case using events_pro_without_report [of D i s] by auto
qed

lemma run_quiet_hour:
  assumes "\<forall>i\<in>set inps. now i < MIN_EPOCH \<or> tm_hour (clock i) = h" "lastReportHr s = h"
  shows "set (fst (run D inps s)) \<subseteq> {Sampled}"
proof -
  have "count_list (fst (run D inps s)) ReportFired = 0"
    using run_one_report_per_hour [OF assms(1), of D s] assms(2) by simp
  then have "ReportFired \<notin> set (fst (run D inps s))" by (simp add: count_list_0_iff)
  then show ?thesis by (rule run_events_without_report)
qed

lemma run_pro_quiet_hour:
  assumes "\<forall>i\<in>set inps. now_epoch i < MIN_EPOCH_TIME_SEC \<or> tm_hour (clock_pro i) = h"
    "last_report_hour_sent s = h"
  shows "set (fst (run_pro D inps s)) \<subseteq> {Sampled}"
proof -
  have "count_list (fst (run_pro D inps s)) ReportFired = 0"
    using run_pro_one_report_per_hour [OF assms(1), of D s] assms(2) by simp
  then have "ReportFired \<notin> set (fst (run_pro D inps s))" by (simp add: count_list_0_iff)
  then show ?thesis by (rule run_pro_events_without_report)
qed

lemma report_fired_agro:
  assumes "shape s" "ReportFired \<in> set (fst (loop D inp s))"
  shows "validSamples s \<noteq> 0 \<and> isReportBoundary (clock inp)
    \<and> dsBuf (snd (loop D inp s)) = replicate 4 (replicate 6 NaN)
    \<and> dhtTBuf (snd (loop D inp s)) = replicate 6 NaN
    \<and> dhtHBuf (snd (loop D inp s)) = replicate 6 NaN
    \<and> bufIdx (snd (loop D inp s)) = 0 \<and> validSamples (snd (loop D inp s)) = 0
    \<and> lastReportHr (snd (loop D inp s)) = tm_hour (clock inp)"
proof (cases D inp s rule: loop_cases)
  case invalid
  then show ?thesis using assms(2) by simp
next
  case sample
  then show ?thesis using assms(2) by simp
next
  case report
  have "shape (fast_step D inp s)" using assms(1) by (simp add: shape_fast_step)
  from reset_window_agro [OF this] show ?thesis
    unfolding report(5) using report(2,4) by simp
next
  case idle
  then show ?thesis using assms(2) by simp
qed

lemma report_fired_pro:
  assumes "shape_pro s" "ReportFired \<in> set (fst (loop_pro D inp s))"
  shows "samples_taken_this_hour s > 0 \<and> isReportBoundary (clock_pro inp)
    \<and> ds18b20_temp_samples (snd (loop_pro D inp s)) = replicate 4 (replicate 6 NaN)
    \<and> dht_temp_samples (snd (loop_pro D inp s)) = replicate 6 NaN
    \<and> dht_humidity_samples (snd (loop_pro D inp s)) = replicate 6 NaN
    \<and> current_sample_index (snd (loop_pro D inp s)) = 0
    \<and> samples_taken_this_hour (snd (loop_pro D inp s)) = 0
    \<and> last_report_hour_sent (snd (loop_pro D inp s)) = tm_hour (clock_pro inp)"
proof (cases D inp s rule: loop_pro_cases)
  case invalid
  then show ?thesis using assms(2) by simp
next
  case sample
  then show ?thesis using assms(2) by simp
next
  case report
  have "shape_pro (ntp_step inp s)" using assms(1) by (simp add: shape_ntp_step)
  from reset_window_pro_eq [OF this] show ?thesis
    unfolding report(5) using report(2,4) by simp
next
  case idle
  then show ?thesis using assms(2) by simp
qed

text \<open>
  Claim C7. Whenever the report branch fires (which needs a populated count above 0), the
  pass ends with the window reset, in both sketches and whatever the delivery did: every
  slot holds the invalid marker, write index and populated count are 0, and the last report
  hour is the current hour. The state after the pass is the same for every delivery
  outcome (status code, and in AgroPRO.cpp also no WiFi, a payload that did not fit, a
  connection that did not open), and no later pass of that hour reports again: a failed
  report is not retried.
\<close>

theorem window_reset_whatever_delivery:
  assumes "shape s" and "ReportFired \<in> set (fst (loop D inp s))"
    and "shape_pro p" and "ReportFired \<in> set (fst (loop_pro D pinp p))"
  shows "validSamples s \<noteq> 0
    \<and> dsBuf (snd (loop D inp s)) = replicate 4 (replicate 6 NaN)
    \<and> dhtTBuf (snd (loop D inp s)) = replicate 6 NaN
    \<and> dhtHBuf (snd (loop D inp s)) = replicate 6 NaN
    \<and> bufIdx (snd (loop D inp s)) = 0 \<and> validSamples (snd (loop D inp s)) = 0
    \<and> lastReportHr (snd (loop D inp s)) = tm_hour (clock inp)
    \<and> (\<forall>c. snd (loop D (inp\<lparr>http_code := c\<rparr>) s) = snd (loop D inp s))
    \<and> (\<forall>inps. (\<forall>i\<in>set inps. now i < MIN_EPOCH \<or> tm_hour (clock i) = tm_hour (clock inp))
          \<longrightarrow> set (fst (run D inps (snd (loop D inp s)))) \<subseteq> {Sampled})
    \<and> samples_taken_this_hour p > 0
    \<and> ds18b20_temp_samples (snd (loop_pro D pinp p)) = replicate 4 (replicate 6 NaN)
    \<and> dht_temp_samples (snd (loop_pro D pinp p)) = replicate 6 NaN
    \<and> dht_humidity_samples (snd (loop_pro D pinp p)) = replicate 6 NaN
    \<and> current_sample_index (snd (loop_pro D pinp p)) = 0
    \<and> samples_taken_this_hour (snd (loop_pro D pinp p)) = 0
    \<and> last_report_hour_sent (snd (loop_pro D pinp p)) = tm_hour (clock_pro pinp)
    \<and> (\<forall>w f b c. snd (loop_pro D (pinp\<lparr>wifi_connected := w, payload_fits := f, begin_ok := b,
                                          http_response_code := c\<rparr>) p) = snd (loop_pro D pinp p))
    \<and> (\<forall>inps. (\<forall>i\<in>set inps. now_epoch i < MIN_EPOCH_TIME_SEC
                    \<or> tm_hour (clock_pro i) = tm_hour (clock_pro pinp))
          \<longrightarrow> set (fst (run_pro D inps (snd (loop_pro D pinp p)))) \<subseteq> {Sampled})"
proof -
  note a = report_fired_agro [OF assms(1,2)]
  note b = report_fired_pro [OF assms(3,4)]
  have qa: "\<forall>inps. (\<forall>i\<in>set inps. now i < MIN_EPOCH \<or> tm_hour (clock i) = tm_hour (clock inp))
          \<longrightarrow> set (fst (run D inps (snd (loop D inp s)))) \<subseteq> {Sampled}"
    using run_quiet_hour [where h = "tm_hour (clock inp)" and s = "snd (loop D inp s)" and D = D] a by blast
  have qb: "\<forall>inps. (\<forall>i\<in>set inps. now_epoch i < MIN_EPOCH_TIME_SEC
                    \<or> tm_hour (clock_pro i) = tm_hour (clock_pro pinp))
          \<longrightarrow> set (fst (run_pro D inps (snd (loop_pro D pinp p)))) \<subseteq> {Sampled}"
    using run_pro_quiet_hour [where h = "tm_hour (clock_pro pinp)" and s = "snd (loop_pro D pinp p)" and D = D] b by blast
  show ?thesis
    using a b qa qb loop_http_irrelevant [where D = D and inp = inp and s = s]
      loop_pro_outcome_irrelevant [where D = D and inp = pinp and s = p]
    by blast
qed


lemma sampled_once_eq:
  "sampled_once = setup_agro\<lparr>
     dsBuf := [Val 20 # replicate 5 NaN, Val 20 # replicate 5 NaN, Val 20 # replicate 5 NaN, Val 20 # replicate 5 NaN],
     dhtTBuf := Val 20 # replicate 5 NaN, dhtHBuf := Val 20 # replicate 5 NaN,
     validSamples := 1, bufIdx := 1, lastSampleMin := 0\<rparr>"
  by code_simp

lemma sampled_once_pro_eq:
  "sampled_once_pro = setup_pro\<lparr>
     ds18b20_temp_samples := [Val 20 # replicate 5 NaN, Val 20 # replicate 5 NaN, Val 20 # replicate 5 NaN, Val 20 # replicate 5 NaN],
     dht_temp_samples := Val 20 # replicate 5 NaN, dht_humidity_samples := Val 20 # replicate 5 NaN,
     current_sample_index := 1, samples_taken_this_hour := 1, last_sample_minute_taken := 0,
     lastNtpSyncMillis := 1,
     sensor1 := Val 20, sensor2 := Val 20, sensor3 := Val 20, sensor4 := Val 20,
     dhtTemp_pro := Val 20, dhtHumi_pro := Val 20\<rparr>"
  by code_simp

lemma shape_sampled_once: "shape sampled_once" "shape_pro sampled_once_pro"
  unfolding sampled_once_def sampled_once_pro_def
  by (rule shape_loop shape_loop_pro, rule shape_setup)+

lemma sampled_once_fields:
  "dsBuf sampled_once = [Val 20 # replicate 5 NaN, Val 20 # replicate 5 NaN,
     Val 20 # replicate 5 NaN, Val 20 # replicate 5 NaN]"
  "dhtTBuf sampled_once = Val 20 # replicate 5 NaN" "dhtHBuf sampled_once = Val 20 # replicate 5 NaN"
  "validSamples sampled_once = 1" "bufIdx sampled_once = 1"
  "lastSampleMin sampled_once = 0" "lastReportHr sampled_once = - 1"
  "lastFastRead sampled_once = 0"
  by (simp_all add: sampled_once_eq setup_agro_eq boot_def)

lemma report_after_first_sample:
  assumes "now inp = 946684805" and "millis_test inp = 0"
  shows "loop (Val (- 127)) inp sampled_once =
    ([ReportFired, Posted [Val 20, Val 20, Val 20, Val 20, Val 20, Val 20] (http_code inp)],
     setup_agro\<lparr>lastSampleMin := 0, lastReportHr := 8\<rparr>)"
proof -
  have v: "MIN_EPOCH \<le> now inp" using assms(1) by (simp add: MIN_EPOCH_def)
  have c: "clock inp = \<lparr>tm_sec = 5, tm_min = 0, tm_hour = 8\<rparr>"
    using assms(1) by (simp add: clock_def localtime_r_def GMT_OFFSET_def)
  have rb: "isReportBoundary (clock inp)" unfolding c by (simp add: isReportBoundary_def)
  have f: "fast_step (Val (- 127)) inp sampled_once = sampled_once"
    using assms(2) by (simp add: fast_step_def sampled_once_fields FAST_READ_MS_def)
  have p: "postSheet inp sampled_once =
      [Posted [Val 20, Val 20, Val 20, Val 20, Val 20, Val 20] (http_code inp)]"
    by (simp add: postSheet_def sampled_once_fields avg_first_20)
  have r: "(reset_window sampled_once)\<lparr>lastReportHr := 8\<rparr>
      = setup_agro\<lparr>lastSampleMin := 0, lastReportHr := 8\<rparr>"
    by code_simp
  show ?thesis
    using tick_report_boundary [OF v rb, of "Val (- 127)" sampled_once]
    by (simp add: f p r c sampled_once_fields)
qed

lemma sampled_once_pro_fields:
  "ds18b20_temp_samples sampled_once_pro = [Val 20 # replicate 5 NaN, Val 20 # replicate 5 NaN,
     Val 20 # replicate 5 NaN, Val 20 # replicate 5 NaN]"
  "samples_taken_this_hour sampled_once_pro = 1" "current_sample_index sampled_once_pro = 1"
  "last_sample_minute_taken sampled_once_pro = 0" "last_report_hour_sent sampled_once_pro = - 1"
  "lastNtpSyncMillis sampled_once_pro = 1"
  by (simp_all add: sampled_once_pro_eq setup_pro_eq boot_pro_def)

lemma report_after_first_sample_pro:
  assumes "now_epoch inp = 946684805" and "current_millis inp = 1"
  shows "fst (loop_pro (Val (- 127)) inp sampled_once_pro) =
      ReportFired # reportDataToGoogleSheet inp sampled_once_pro"
    and "snd (loop_pro (Val (- 127)) inp sampled_once_pro) =
      sampled_once_pro\<lparr>ds18b20_temp_samples := [nan_row, nan_row, nan_row, nan_row],
         dht_temp_samples := nan_row, dht_humidity_samples := nan_row,
         current_sample_index := 0, samples_taken_this_hour := 0,
         last_report_hour_sent := 8\<rparr>"
proof -
  have v: "MIN_EPOCH_TIME_SEC \<le> now_epoch inp" using assms(1) by (simp add: MIN_EPOCH_TIME_SEC_def)
  have c: "clock_pro inp = \<lparr>tm_sec = 5, tm_min = 0, tm_hour = 8\<rparr>"
    using assms(1)
    by (simp add: clock_pro_def localtime_r_def GMT_OFFSET_SECONDS_def DAYLIGHT_OFFSET_SECONDS_def)
  have rb: "isReportBoundary (clock_pro inp)" unfolding c by (simp add: isReportBoundary_def)
  have f: "ntp_step inp sampled_once_pro = sampled_once_pro"
    using assms(2) by (simp add: ntp_step_def sampled_once_pro_fields NTP_RESYNC_INTERVAL_MS_def)
  have r: "reset_window_pro sampled_once_pro =
      sampled_once_pro\<lparr>ds18b20_temp_samples := [nan_row, nan_row, nan_row, nan_row],
         dht_temp_samples := nan_row, dht_humidity_samples := nan_row,
         current_sample_index := 0, samples_taken_this_hour := 0\<rparr>"
    unfolding reset_window_pro_def clearSampleArrays_eq [OF shape_sampled_once(2)] by simp
  note t = tick_pro_report_boundary [OF v rb, of "Val (- 127)" sampled_once_pro]
  show "fst (loop_pro (Val (- 127)) inp sampled_once_pro) =
      ReportFired # reportDataToGoogleSheet inp sampled_once_pro"
    using t by (simp add: f c sampled_once_pro_fields)
  show "snd (loop_pro (Val (- 127)) inp sampled_once_pro) =
      sampled_once_pro\<lparr>ds18b20_temp_samples := [nan_row, nan_row, nan_row, nan_row],
         dht_temp_samples := nan_row, dht_humidity_samples := nan_row,
         current_sample_index := 0, samples_taken_this_hour := 0,
         last_report_hour_sent := 8\<rparr>"
    using t by (simp add: f r c sampled_once_pro_fields)
qed

theorem window_reset_whatever_delivery_witness:
  "shape sampled_once \<and> validSamples sampled_once = 1
   \<and> fst (loop (Val (- 127)) ((tick_at 946684805 (Val 20))\<lparr>http_code := - 1\<rparr>) sampled_once)
       = [ReportFired, Posted [Val 20, Val 20, Val 20, Val 20, Val 20, Val 20] (- 1)]
   \<and> validSamples (snd (loop (Val (- 127)) ((tick_at 946684805 (Val 20))\<lparr>http_code := - 1\<rparr>) sampled_once)) = 0
   \<and> dsBuf (snd (loop (Val (- 127)) ((tick_at 946684805 (Val 20))\<lparr>http_code := - 1\<rparr>) sampled_once))
       = replicate 4 (replicate 6 NaN)
   \<and> shape_pro sampled_once_pro \<and> samples_taken_this_hour sampled_once_pro = 1
   \<and> fst (loop_pro (Val (- 127)) ((tick_at_pro 946684805 (Val 20))\<lparr>wifi_connected := False\<rparr>) sampled_once_pro)
       = [ReportFired]
   \<and> samples_taken_this_hour (snd (loop_pro (Val (- 127))
        ((tick_at_pro 946684805 (Val 20))\<lparr>wifi_connected := False\<rparr>) sampled_once_pro)) = 0
   \<and> ds18b20_temp_samples (snd (loop_pro (Val (- 127))
        ((tick_at_pro 946684805 (Val 20))\<lparr>wifi_connected := False\<rparr>) sampled_once_pro))
       = replicate 4 (replicate 6 NaN)"
proof -
  let ?i = "(tick_at 946684805 (Val 20))\<lparr>http_code := - 1\<rparr>"
  let ?j = "(tick_at_pro 946684805 (Val 20))\<lparr>wifi_connected := False\<rparr>"
  have i: "now ?i = 946684805" "millis_test ?i = 0" "http_code ?i = - 1"
    by (simp_all add: tick_at_def)
  have j: "now_epoch ?j = 946684805" "current_millis ?j = 1" "\<not> wifi_connected ?j"
    by (simp_all add: tick_at_pro_def)
  have e1: "fst (loop (Val (- 127)) ?i sampled_once)
       = [ReportFired, Posted [Val 20, Val 20, Val 20, Val 20, Val 20, Val 20] (- 1)]"
    unfolding report_after_first_sample [OF i(1,2)] i(3) by simp
  have e2: "fst (loop_pro (Val (- 127)) ?j sampled_once_pro) = [ReportFired]"
    unfolding report_after_first_sample_pro(1) [OF j(1,2)]
    using j(3) by (simp add: reportDataToGoogleSheet_def)
  have h2: "ReportFired \<in> set (fst (loop (Val (- 127)) ?i sampled_once))" unfolding e1 by simp
  have h4: "ReportFired \<in> set (fst (loop_pro (Val (- 127)) ?j sampled_once_pro))" unfolding e2 by simp
  have v: "validSamples sampled_once = 1" "samples_taken_this_hour sampled_once_pro = 1"
    by (simp_all add: sampled_once_eq sampled_once_pro_eq)
  note t = window_reset_whatever_delivery [OF shape_sampled_once(1) h2 shape_sampled_once(2) h4]
  show ?thesis using t e1 e2 v shape_sampled_once by blast
qed

text \<open>
  Claim C8. Every pass of either loop preserves the ring-buffer invariant: the write index
  stays below the capacity 6 and advances modulo 6 with each sample, the populated count
  stays at most 6 and grows by one, clamped at 6, with each sample; the count never
  decreases in a pass that does not fire the report, and a pass that fires it sets count
  and index to 0 together with every slot to the invalid marker. The state after the
  set-up routine satisfies the invariant.
\<close>

theorem ring_buffer_invariant:
  assumes "ring_inv s" and "shape s" and "ring_inv_pro p" and "shape_pro p"
  shows "ring_inv (snd (loop D inp s)) \<and> shape (snd (loop D inp s))
    \<and> (Sampled \<in> set (fst (loop D inp s)) \<longrightarrow>
          uint (bufIdx (snd (loop D inp s))) = (uint (bufIdx s) + 1) mod 6
          \<and> unat (validSamples (snd (loop D inp s))) = min (unat (validSamples s) + 1) 6)
    \<and> (ReportFired \<notin> set (fst (loop D inp s)) \<longrightarrow>
          validSamples s \<le> validSamples (snd (loop D inp s)))
    \<and> (ReportFired \<in> set (fst (loop D inp s)) \<longrightarrow>
          validSamples (snd (loop D inp s)) = 0 \<and> bufIdx (snd (loop D inp s)) = 0
          \<and> all_invalid (snd (loop D inp s)))
    \<and> (fst (loop D inp s) = [] \<longrightarrow> window (snd (loop D inp s)) = window s)
    \<and> ring_inv_pro (snd (loop_pro D pinp p)) \<and> shape_pro (snd (loop_pro D pinp p))
    \<and> (Sampled \<in> set (fst (loop_pro D pinp p)) \<longrightarrow>
          current_sample_index (snd (loop_pro D pinp p)) = (current_sample_index p + 1) mod 6
          \<and> samples_taken_this_hour (snd (loop_pro D pinp p)) = min (samples_taken_this_hour p + 1) 6)
    \<and> (ReportFired \<notin> set (fst (loop_pro D pinp p)) \<longrightarrow>
          samples_taken_this_hour p \<le> samples_taken_this_hour (snd (loop_pro D pinp p)))
    \<and> (ReportFired \<in> set (fst (loop_pro D pinp p)) \<longrightarrow>
          samples_taken_this_hour (snd (loop_pro D pinp p)) = 0
          \<and> current_sample_index (snd (loop_pro D pinp p)) = 0
          \<and> all_invalid_pro (snd (loop_pro D pinp p)))
    \<and> (fst (loop_pro D pinp p) = [] \<longrightarrow> window_pro (snd (loop_pro D pinp p)) = window_pro p)
    \<and> ring_inv setup_agro \<and> shape setup_agro \<and> ring_inv_pro setup_pro \<and> shape_pro setup_pro"
  using loop_ring [OF assms(1,2), of D inp] loop_pro_ring [OF assms(3,4), of D pinp]
    ring_setup shape_setup
  by blast

theorem ring_buffer_invariant_witness:
  "ring_inv setup_agro \<and> shape setup_agro \<and> ring_inv_pro setup_pro \<and> shape_pro setup_pro
   \<and> fst (loop (Val (- 127)) (tick_at 946684800 (Val 20)) setup_agro) = [Sampled]
   \<and> ring_inv (snd (loop (Val (- 127)) (tick_at 946684800 (Val 20)) setup_agro))
   \<and> uint (bufIdx (snd (loop (Val (- 127)) (tick_at 946684800 (Val 20)) setup_agro))) = 1
   \<and> unat (validSamples (snd (loop (Val (- 127)) (tick_at 946684800 (Val 20)) setup_agro))) = 1
   \<and> fst (loop_pro (Val (- 127)) (tick_at_pro 946684800 (Val 20)) setup_pro) = [Sampled]
   \<and> ring_inv_pro (snd (loop_pro (Val (- 127)) (tick_at_pro 946684800 (Val 20)) setup_pro))
   \<and> current_sample_index (snd (loop_pro (Val (- 127)) (tick_at_pro 946684800 (Val 20)) setup_pro)) = 1
   \<and> samples_taken_this_hour (snd (loop_pro (Val (- 127)) (tick_at_pro 946684800 (Val 20)) setup_pro)) = 1"
proof -
  let ?a = "loop (Val (- 127)) (tick_at 946684800 (Val 20)) setup_agro"
  let ?b = "loop_pro (Val (- 127)) (tick_at_pro 946684800 (Val 20)) setup_pro"
  note t = ring_buffer_invariant [OF ring_setup(1) shape_setup(1) ring_setup(2) shape_setup(2),
      of "Val (- 127)" "tick_at 946684800 (Val 20)" "tick_at_pro 946684800 (Val 20)"]
  have e1: "fst ?a = [Sampled]" by code_simp
  have e2: "fst ?b = [Sampled]" by code_simp
  have z: "bufIdx setup_agro = 0" "validSamples setup_agro = 0"
    "current_sample_index setup_pro = 0" "samples_taken_this_hour setup_pro = 0"
    by (simp_all add: setup_agro_eq setup_pro_eq boot_def boot_pro_def)
  have "uint (bufIdx (snd ?a)) = (uint (bufIdx setup_agro) + 1) mod 6"
    "unat (validSamples (snd ?a)) = min (unat (validSamples setup_agro) + 1) 6"
    using t e1 by simp_all
  then have 1: "uint (bufIdx (snd ?a)) = 1" "unat (validSamples (snd ?a)) = 1"
    unfolding z by simp_all
  have "current_sample_index (snd ?b) = (current_sample_index setup_pro + 1) mod 6"
    "samples_taken_this_hour (snd ?b) = min (samples_taken_this_hour setup_pro + 1) 6"
    using t e2 by simp_all
  then have 2: "current_sample_index (snd ?b) = 1" "samples_taken_this_hour (snd ?b) = 1"
    unfolding z by simp_all
  have 3: "ring_inv (snd ?a)" "ring_inv_pro (snd ?b)" using t by blast+
  show ?thesis using ring_setup shape_setup e1 e2 1 2 3 by blast
qed

subsection \<open>Probe sentinels\<close>

lemma no_sentinel_NaN: "no_sentinel D NaN"
  by (simp add: no_sentinel_def)

lemma list_all_update: "list_all P xs \<Longrightarrow> P v \<Longrightarrow> list_all P (xs[k := v])"
  by (auto simp: list_all_iff dest: set_update_subset_insert [THEN subsetD])

lemma sample_slot_agro:
  assumes "shape s" "bufIdx s < SAMPLES_HR" "i < 4"
  shows "dsBuf (sample_write D inp s) ! i ! unat (bufIdx s) = ds_check D (getTempC inp i)"
proof -
  from assms(1) obtain r0 r1 r2 r3 where ds: "dsBuf s = [r0, r1, r2, r3]"
    unfolding shape_def by (auto dest!: len4)
  with assms(1) have l: "length r0 = 6" "length r1 = 6" "length r2 = 6" "length r3 = 6"
    unfolding shape_def by simp_all
  have k: "unat (bufIdx s) < 6" using assms(2) by (simp add: SAMPLES_HR_def word_less_nat_alt)
  have "i = 0 \<or> i = 1 \<or> i = 2 \<or> i = 3" using assms(3) by auto
  then show ?thesis
    using assms(1) k l by (auto simp: sample_write_ds shape_def ds)
qed

lemma sample_slot_pro:
  assumes "shape_pro s" "0 \<le> k" "k < SAMPLES_PER_HOUR" "i < 4"
  shows "ds18b20_temp_samples (takeSample D inp k s) ! i ! nat k = ds_check D (getTempC_pro inp i)"
proof -
  from assms(1) obtain r0 r1 r2 r3 where ds: "ds18b20_temp_samples s = [r0, r1, r2, r3]"
    unfolding shape_pro_def by (auto dest!: len4)
  with assms(1) have l: "length r0 = 6" "length r1 = 6" "length r2 = 6" "length r3 = 6"
    unfolding shape_pro_def by simp_all
  have k: "nat k < 6" using assms(2,3) by (simp add: SAMPLES_PER_HOUR_def)
  have "i = 0 \<or> i = 1 \<or> i = 2 \<or> i = 3" using assms(4) by auto
  then show ?thesis
    using assms(1) k l by (auto simp: takeSample_ds shape_pro_def ds)
qed

lemma sentinel_free_sample_write:
  assumes "shape s" "sentinel_free D s"
  shows "list_all (list_all (no_sentinel D)) (dsBuf (sample_write D inp s))"
proof -
  from assms(1) obtain r0 r1 r2 r3 where ds: "dsBuf s = [r0, r1, r2, r3]"
    unfolding shape_def by (auto dest!: len4)
  show ?thesis
    using assms by (simp add: sample_write_ds shape_def sentinel_free_def ds list_all_update ds_check_no_sentinel)
qed

lemma sentinel_free_takeSample:
  assumes "shape_pro s" "sentinel_free_pro D s"
  shows "list_all (list_all (no_sentinel D)) (ds18b20_temp_samples (takeSample D inp k s))"
proof -
  from assms(1) obtain r0 r1 r2 r3 where ds: "ds18b20_temp_samples s = [r0, r1, r2, r3]"
    unfolding shape_pro_def by (auto dest!: len4)
  show ?thesis
    using assms
    by (simp add: takeSample_ds shape_pro_def sentinel_free_pro_def ds list_all_update ds_check_no_sentinel)
qed

lemma sentinel_free_loop:
  assumes "shape s" "sentinel_free D s"
  shows "sentinel_free D (snd (loop D inp s))"
proof (cases D inp s rule: loop_cases)
  case invalid
  then show ?thesis using assms(2) by (simp add: sentinel_free_def fast_step_fields)
next
  case sample
  have "shape (fast_step D inp s)" "sentinel_free D (fast_step D inp s)"
    using assms by (simp_all add: shape_fast_step sentinel_free_def fast_step_fields)
  from sentinel_free_sample_write [OF this] show ?thesis
    using sample by (simp add: sentinel_free_def)
next
  case report
  have "shape (fast_step D inp s)" using assms(1) by (simp add: shape_fast_step)
  from reset_window_agro [OF this] show ?thesis
    unfolding report(5) by (simp add: sentinel_free_def no_sentinel_NaN eval_nat_numeral)
next
  case idle
  then show ?thesis using assms(2) by (simp add: sentinel_free_def unlatch_step_def fast_step_fields)
qed

lemma sentinel_free_loop_pro:
  assumes "shape_pro s" "sentinel_free_pro D s"
  shows "sentinel_free_pro D (snd (loop_pro D inp s))"
proof (cases D inp s rule: loop_pro_cases)
  case invalid
  then show ?thesis using assms(2) by (simp add: sentinel_free_pro_def ntp_step_fields)
next
  case sample
  have "shape_pro (ntp_step inp s)" "sentinel_free_pro D (ntp_step inp s)"
    using assms by (simp_all add: shape_ntp_step sentinel_free_pro_def ntp_step_fields)
  from sentinel_free_takeSample [OF this] show ?thesis
    using sample by (simp add: sentinel_free_pro_def)
next
  case report
  have "shape_pro (ntp_step inp s)" using assms(1) by (simp add: shape_ntp_step)
  from reset_window_pro_eq [OF this] show ?thesis
    unfolding report(5) by (simp add: sentinel_free_pro_def no_sentinel_NaN eval_nat_numeral)
next
  case idle
  then show ?thesis
    using assms(2) by (simp add: sentinel_free_pro_def unlatch_step_pro_def ntp_step_fields)
qed

lemma sentinel_free_setup: "sentinel_free D setup_agro" "sentinel_free_pro D setup_pro"
  by (simp_all add: setup_agro_eq setup_pro_eq sentinel_free_def sentinel_free_pro_def nan_row_def
      no_sentinel_NaN eval_nat_numeral)

lemma sampled_slot_loop:
  assumes "shape s" "bufIdx s < SAMPLES_HR" "Sampled \<in> set (fst (loop D inp s))" "i < 4"
  shows "dsBuf (snd (loop D inp s)) ! i ! unat (bufIdx s) = ds_check D (getTempC inp i)"
proof (cases D inp s rule: loop_cases)
  case invalid
  then show ?thesis using assms(3) by simp
next
  case sample
  have "shape (fast_step D inp s)" "bufIdx (fast_step D inp s) < SAMPLES_HR"
    using assms(1,2) by (simp_all add: shape_fast_step fast_step_fields)
  from sample_slot_agro [OF this assms(4), of D inp] show ?thesis
    using sample by (simp add: fast_step_fields)
next
  case report
  then show ?thesis using assms(3) by (simp add: postSheet_def)
next
  case idle
  then show ?thesis using assms(3) by simp
qed

lemma sampled_slot_loop_pro:
  assumes "shape_pro s" "ring_inv_pro s" "Sampled \<in> set (fst (loop_pro D inp s))" "i < 4"
  shows "ds18b20_temp_samples (snd (loop_pro D inp s)) ! i ! nat (current_sample_index s)
     = ds_check D (getTempC_pro inp i)"
proof (cases D inp s rule: loop_pro_cases)
  case invalid
  then show ?thesis using assms(3) by simp
next
  case sample
  have "shape_pro (ntp_step inp s)" "0 \<le> current_sample_index s"
    "current_sample_index s < SAMPLES_PER_HOUR"
    using assms(1,2) by (simp_all add: shape_ntp_step ring_inv_pro_def)
  from sample_slot_pro [OF this assms(4), of D inp] show ?thesis
    using sample by simp
next
  case report
  have "Sampled \<notin> set (reportDataToGoogleSheet inp (ntp_step inp s))"
    using report_counts(2) [of inp "ntp_step inp s"] by (simp add: count_list_0_iff)
  then show ?thesis using report assms(3) by simp
next
  case idle
  then show ?thesis using assms(3) by simp
qed


lemma ds_check_invalid: "invalid_probe_read D r \<Longrightarrow> ds_check D r = NaN"
  by (cases r) (auto simp: invalid_probe_read_def ds_check_def)

lemma ds_check_valid: "\<not> invalid_probe_read D r \<Longrightarrow> ds_check D r = r"
  by (simp add: invalid_probe_read_def ds_check_def)

text \<open>
  Claim C6. At a sample boundary, the value written to a probe channel's window slot for a
  reading \<open>r\<close> is the invalid marker if \<open>r\<close> equals the disconnected-device sentinel, 85 or
  -127, and \<open>r\<close> itself otherwise, in both sketches. The stored value is never one of the
  three raw sentinels, and a window free of them stays free of them in every pass, so none
  reaches the averaging; the window after the set-up routine is free of them.
\<close>

theorem probe_sentinels_stored_invalid:
  assumes "shape s" and "ring_inv s" and "i < 4"
    and "shape_pro p" and "ring_inv_pro p" and "j < 4"
  shows "(Sampled \<in> set (fst (loop D inp s)) \<longrightarrow>
            dsBuf (snd (loop D inp s)) ! i ! unat (bufIdx s) =
              (if feq (getTempC inp i) D \<or> feq (getTempC inp i) (Val 85)
                  \<or> feq (getTempC inp i) (Val (- 127))
               then NaN else getTempC inp i)
            \<and> no_sentinel D (dsBuf (snd (loop D inp s)) ! i ! unat (bufIdx s)))
       \<and> (sentinel_free D s \<longrightarrow> sentinel_free D (snd (loop D inp s)))
       \<and> (Sampled \<in> set (fst (loop_pro D pinp p)) \<longrightarrow>
            ds18b20_temp_samples (snd (loop_pro D pinp p)) ! j ! nat (current_sample_index p) =
              (if feq (getTempC_pro pinp j) D \<or> feq (getTempC_pro pinp j) (Val 85)
                  \<or> feq (getTempC_pro pinp j) (Val (- 127))
               then NaN else getTempC_pro pinp j)
            \<and> no_sentinel D
                 (ds18b20_temp_samples (snd (loop_pro D pinp p)) ! j ! nat (current_sample_index p)))
       \<and> (sentinel_free_pro D p \<longrightarrow> sentinel_free_pro D (snd (loop_pro D pinp p)))
       \<and> sentinel_free D setup_agro \<and> sentinel_free_pro D setup_pro"
proof -
  have b: "bufIdx s < SAMPLES_HR" using assms(2) by (simp add: ring_inv_def)
  have 1: "Sampled \<in> set (fst (loop D inp s)) \<Longrightarrow>
      dsBuf (snd (loop D inp s)) ! i ! unat (bufIdx s) = ds_check D (getTempC inp i)"
    using sampled_slot_loop [OF assms(1) b _ assms(3)] by simp
  have 2: "Sampled \<in> set (fst (loop_pro D pinp p)) \<Longrightarrow>
      ds18b20_temp_samples (snd (loop_pro D pinp p)) ! j ! nat (current_sample_index p)
        = ds_check D (getTempC_pro pinp j)"
    using sampled_slot_loop_pro [OF assms(4,5) _ assms(6)] by simp
  have 3: "sentinel_free D s \<longrightarrow> sentinel_free D (snd (loop D inp s))"
    using sentinel_free_loop [OF assms(1)] by simp
  have 4: "sentinel_free_pro D p \<longrightarrow> sentinel_free_pro D (snd (loop_pro D pinp p))"
    using sentinel_free_loop_pro [OF assms(4)] by simp
  show ?thesis
    using 1 2 3 4 sentinel_free_setup [of D] ds_check_no_sentinel [of D]
    by (simp add: ds_check_cases [symmetric])
qed

theorem probe_sentinels_stored_invalid_witness:
  "shape setup_agro \<and> ring_inv setup_agro \<and> shape_pro setup_pro \<and> ring_inv_pro setup_pro
   \<and> fst (loop (Val (- 127))
        ((tick_at 946684800 (Val 20))\<lparr>getTempC := (\<lambda>i. if i = 0 then Val 85 else Val 20)\<rparr>)
        setup_agro) = [Sampled]
   \<and> dsBuf (snd (loop (Val (- 127))
        ((tick_at 946684800 (Val 20))\<lparr>getTempC := (\<lambda>i. if i = 0 then Val 85 else Val 20)\<rparr>)
        setup_agro)) ! 0 ! 0 = NaN
   \<and> dsBuf (snd (loop (Val (- 127))
        ((tick_at 946684800 (Val 20))\<lparr>getTempC := (\<lambda>i. if i = 0 then Val 85 else Val 20)\<rparr>)
        setup_agro)) ! 1 ! 0 = Val 20
   \<and> fst (loop_pro (Val (- 127))
        ((tick_at_pro 946684800 (Val 20))\<lparr>getTempC_pro := (\<lambda>i. if i = 2 then Val (- 127) else Val 20)\<rparr>)
        setup_pro) = [Sampled]
   \<and> ds18b20_temp_samples (snd (loop_pro (Val (- 127))
        ((tick_at_pro 946684800 (Val 20))\<lparr>getTempC_pro := (\<lambda>i. if i = 2 then Val (- 127) else Val 20)\<rparr>)
        setup_pro)) ! 2 ! 0 = NaN"
proof -
  let ?i = "(tick_at 946684800 (Val 20))\<lparr>getTempC := (\<lambda>i. if i = 0 then Val 85 else Val 20)\<rparr>"
  let ?j = "(tick_at_pro 946684800 (Val 20))\<lparr>getTempC_pro := (\<lambda>i. if i = 2 then Val (- 127) else Val 20)\<rparr>"
  let ?D = "Val (- 127)"
  have e1: "fst (loop ?D ?i setup_agro) = [Sampled]" by code_simp
  have e2: "fst (loop_pro ?D ?j setup_pro) = [Sampled]" by code_simp
  have z: "unat (bufIdx setup_agro) = 0" "nat (current_sample_index setup_pro) = 0"
    by (simp_all add: setup_agro_eq setup_pro_eq boot_def boot_pro_def)
  have g: "getTempC ?i 0 = Val 85" "getTempC ?i 1 = Val 20" "getTempC_pro ?j 2 = Val (- 127)"
    by (simp_all add: tick_at_def tick_at_pro_def)
  note t0 = probe_sentinels_stored_invalid [OF shape_setup(1) ring_setup(1) _ shape_setup(2) ring_setup(2),
      of 0 2 ?D ?i ?j]
  note t1 = probe_sentinels_stored_invalid [OF shape_setup(1) ring_setup(1) _ shape_setup(2) ring_setup(2),
      of 1 2 ?D ?i ?j]
  have "dsBuf (snd (loop ?D ?i setup_agro)) ! 0 ! unat (bufIdx setup_agro) =
      (if feq (getTempC ?i 0) ?D \<or> feq (getTempC ?i 0) (Val 85) \<or> feq (getTempC ?i 0) (Val (- 127))
       then NaN else getTempC ?i 0)"
    using t0 e1 by simp
  then have 1: "dsBuf (snd (loop ?D ?i setup_agro)) ! 0 ! 0 = NaN" unfolding z g by simp
  have "dsBuf (snd (loop ?D ?i setup_agro)) ! 1 ! unat (bufIdx setup_agro) =
      (if feq (getTempC ?i 1) ?D \<or> feq (getTempC ?i 1) (Val 85) \<or> feq (getTempC ?i 1) (Val (- 127))
       then NaN else getTempC ?i 1)"
    using t1 e1 by simp
  then have 2: "dsBuf (snd (loop ?D ?i setup_agro)) ! 1 ! 0 = Val 20" unfolding z g by simp
  have "ds18b20_temp_samples (snd (loop_pro ?D ?j setup_pro)) ! 2 ! nat (current_sample_index setup_pro) =
      (if feq (getTempC_pro ?j 2) ?D \<or> feq (getTempC_pro ?j 2) (Val 85)
          \<or> feq (getTempC_pro ?j 2) (Val (- 127))
       then NaN else getTempC_pro ?j 2)"
    using t0 e2 by simp
  then have 3: "ds18b20_temp_samples (snd (loop_pro ?D ?j setup_pro)) ! 2 ! 0 = NaN"
    unfolding z g by simp
  show ?thesis using shape_setup ring_setup e1 e2 1 2 3 by blast
qed

subsection \<open>Live mirroring on invalid reads\<close>

lemma readSensorsFast_window: "window (readSensorsFast D inp s) = window s"
  by (simp add: readSensorsFast_def window_def Let_def)

lemma cloud_probes_fast:
  "i < 4 \<Longrightarrow> cloud_probes (readSensorsFast D inp s) ! i = ds_check D (fast_getTempC inp i)"
proof -
  assume "i < 4"
  then have "i = 0 \<or> i = 1 \<or> i = 2 \<or> i = 3" by auto
  then show ?thesis by (auto simp: cloud_probes_def readSensorsFast_cloud)
qed

lemma cloud_probes_takeSample:
  assumes "shape_pro s" "0 \<le> k" "k < SAMPLES_PER_HOUR" "i < 4"
  shows "cloud_probes_pro (takeSample D inp k s) ! i = ds_check D (getTempC_pro inp i)"
proof -
  have "i = 0 \<or> i = 1 \<or> i = 2 \<or> i = 3" using assms(4) by auto
  then have "cloud_probes_pro (takeSample D inp k s) ! i
      = ds18b20_temp_samples (takeSample D inp k s) ! i ! nat k"
    by (auto simp: cloud_probes_pro_def takeSample_cloud)
  then show ?thesis using sample_slot_pro [OF assms] by simp
qed

lemma dht_slots_agro:
  assumes "shape s" "bufIdx s < SAMPLES_HR"
  shows "dhtTBuf (sample_write D inp s) ! unat (bufIdx s) = readTemperature inp"
    "dhtHBuf (sample_write D inp s) ! unat (bufIdx s) = readHumidity inp"
proof -
  have k: "unat (bufIdx s) < 6" using assms(2) by (simp add: SAMPLES_HR_def word_less_nat_alt)
  have n: "(if isnan x then NaN else x) = x" for x by (cases x) simp_all
  show "dhtTBuf (sample_write D inp s) ! unat (bufIdx s) = readTemperature inp"
    "dhtHBuf (sample_write D inp s) ! unat (bufIdx s) = readHumidity inp"
    using assms(1) k by (simp_all add: sample_write_dht shape_def n)
qed

lemma dht_slots_pro:
  assumes "shape_pro s" "0 \<le> k" "k < SAMPLES_PER_HOUR"
  shows "dht_temp_samples (takeSample D inp k s) ! nat k = readTemperature_pro inp"
    "dht_humidity_samples (takeSample D inp k s) ! nat k = readHumidity_pro inp"
proof -
  have k: "nat k < 6" using assms(2,3) by (simp add: SAMPLES_PER_HOUR_def)
  have n: "(if \<not> isnan x then x else NaN) = x" for x by (cases x) simp_all
  show "dht_temp_samples (takeSample D inp k s) ! nat k = readTemperature_pro inp"
    "dht_humidity_samples (takeSample D inp k s) ! nat k = readHumidity_pro inp"
    using assms(1) k by (simp_all add: takeSample_dht shape_pro_def n)
qed

text \<open>
  Claim C5, as stated, fails. In AgroPRO.cpp the cloud variables are assigned from the
  sample arrays: after a sample in which every sensor read 20, a sample in which the probes
  return the disconnected sentinel -127 leaves \<open>sensor1\<close> at the invalid marker, not at 20.
  In Agro.cpp the fast read does the same to the probe variables: \<open>temp1\<close> goes from 20 to
  the invalid marker.
\<close>

theorem live_value_overwritten_counterexample:
  "sensor1 sampled_once_pro = Val 20
   \<and> fst (loop_pro (Val (- 127))
        ((tick_at_pro 946685400 (Val 20))\<lparr>getTempC_pro := (\<lambda>i. Val (- 127))\<rparr>) sampled_once_pro)
       = [Sampled]
   \<and> sensor1 (snd (loop_pro (Val (- 127))
        ((tick_at_pro 946685400 (Val 20))\<lparr>getTempC_pro := (\<lambda>i. Val (- 127))\<rparr>) sampled_once_pro))
       = NaN
   \<and> temp1 (readSensorsFast (Val (- 127)) (tick_at 0 (Val 20)) setup_agro) = Val 20
   \<and> temp1 (readSensorsFast (Val (- 127)) (tick_at 0 (Val (- 127)))
        (readSensorsFast (Val (- 127)) (tick_at 0 (Val 20)) setup_agro)) = NaN"
  by code_simp

text \<open>
  Claim C5, amended. In the live mirroring pass of Agro.cpp (\<^verbatim>\<open>readSensorsFast\<close>), an
  invalid (NaN) read of the combined sensor leaves \<open>dhtTemp\<close>, respectively \<open>dhtHumi\<close>, at
  its previous value, while an invalid probe read puts the invalid marker into the probe's
  cloud variable; the pass does not touch the aggregation window. The boundary sample of
  Agro.cpp records the invalid marker in the window slot of a channel whose read is
  invalid. In AgroPRO.cpp (\<^verbatim>\<open>takeSample\<close>) every cloud variable is set to the value just
  stored in the window slot, so an invalid read puts the invalid marker into both.
\<close>

theorem live_mirroring_on_invalid_reads:
  assumes "shape s" and "bufIdx s < SAMPLES_HR" and "i < 4"
    and "shape_pro p" and "0 \<le> k" and "k < SAMPLES_PER_HOUR" and "j < 4"
  shows "(isnan (fast_readTemperature inp) \<longrightarrow> dhtTemp (readSensorsFast D inp s) = dhtTemp s)
       \<and> (isnan (fast_readHumidity inp) \<longrightarrow> dhtHumi (readSensorsFast D inp s) = dhtHumi s)
       \<and> (invalid_probe_read D (fast_getTempC inp i) \<longrightarrow>
            cloud_probes (readSensorsFast D inp s) ! i = NaN)
       \<and> window (readSensorsFast D inp s) = window s
       \<and> (invalid_probe_read D (getTempC inp i) \<longrightarrow>
            dsBuf (sample_write D inp s) ! i ! unat (bufIdx s) = NaN)
       \<and> (isnan (readTemperature inp) \<longrightarrow> dhtTBuf (sample_write D inp s) ! unat (bufIdx s) = NaN)
       \<and> (isnan (readHumidity inp) \<longrightarrow> dhtHBuf (sample_write D inp s) ! unat (bufIdx s) = NaN)
       \<and> cloud_probes_pro (takeSample D pinp k p) ! j
           = ds18b20_temp_samples (takeSample D pinp k p) ! j ! nat k
       \<and> dhtTemp_pro (takeSample D pinp k p) = dht_temp_samples (takeSample D pinp k p) ! nat k
       \<and> dhtHumi_pro (takeSample D pinp k p) = dht_humidity_samples (takeSample D pinp k p) ! nat k
       \<and> (invalid_probe_read D (getTempC_pro pinp j) \<longrightarrow>
            ds18b20_temp_samples (takeSample D pinp k p) ! j ! nat k = NaN
            \<and> cloud_probes_pro (takeSample D pinp k p) ! j = NaN)
       \<and> (isnan (readTemperature_pro pinp) \<longrightarrow>
            dht_temp_samples (takeSample D pinp k p) ! nat k = NaN
            \<and> dhtTemp_pro (takeSample D pinp k p) = NaN)
       \<and> (isnan (readHumidity_pro pinp) \<longrightarrow>
            dht_humidity_samples (takeSample D pinp k p) ! nat k = NaN
            \<and> dhtHumi_pro (takeSample D pinp k p) = NaN)"
proof -
  note a = sample_slot_agro [OF assms(1,2,3), of D inp]
  note b = dht_slots_agro [OF assms(1,2), of D inp]
  note c = sample_slot_pro [OF assms(4,5,6,7), of D pinp]
  note d = dht_slots_pro [OF assms(4,5,6), of D pinp]
  note e = cloud_probes_takeSample [OF assms(4,5,6,7), of D pinp]
  note f = cloud_probes_fast [OF assms(3), of D inp s]
  show ?thesis
    unfolding a b c d e f takeSample_cloud(5,6) readSensorsFast_window
    by (simp add: readSensorsFast_cloud ds_check_invalid isnan_iff)
qed

theorem live_mirroring_on_invalid_reads_witness:
  "shape (sampled_once\<lparr>dhtTemp := Val 20\<rparr>) \<and> bufIdx (sampled_once\<lparr>dhtTemp := Val 20\<rparr>) < SAMPLES_HR
   \<and> shape_pro sampled_once_pro \<and> (1::int) < SAMPLES_PER_HOUR
   \<and> isnan (fast_readTemperature (tick_at 0 NaN))
   \<and> dhtTemp (readSensorsFast (Val (- 127)) (tick_at 0 NaN) (sampled_once\<lparr>dhtTemp := Val 20\<rparr>)) = Val 20
   \<and> dhtTBuf (sample_write (Val (- 127)) (tick_at 0 NaN) (sampled_once\<lparr>dhtTemp := Val 20\<rparr>)) ! 1 = NaN
   \<and> invalid_probe_read (Val (- 127)) (getTempC_pro (tick_at_pro 0 (Val (- 127))) 0)
   \<and> ds18b20_temp_samples (takeSample (Val (- 127)) (tick_at_pro 0 (Val (- 127))) 1 sampled_once_pro) ! 0 ! 1 = NaN
   \<and> cloud_probes_pro (takeSample (Val (- 127)) (tick_at_pro 0 (Val (- 127))) 1 sampled_once_pro) ! 0 = NaN"
proof -
  let ?s = "sampled_once\<lparr>dhtTemp := Val 20\<rparr>"
  have h1: "shape ?s" using shape_sampled_once(1) by (simp add: shape_def)
  have h2: "bufIdx ?s < SAMPLES_HR" by (simp add: sampled_once_eq SAMPLES_HR_def)
  have h3: "(0::nat) < 4" by simp
  have h5: "(0::int) \<le> 1" by simp
  have h6: "(1::int) < SAMPLES_PER_HOUR" by (simp add: SAMPLES_PER_HOUR_def)
  note t = live_mirroring_on_invalid_reads [OF h1 h2 h3 shape_sampled_once(2) h5 h6 h3,
      of "tick_at 0 NaN" "Val (- 127)" "tick_at_pro 0 (Val (- 127))"]
  have n: "isnan (fast_readTemperature (tick_at 0 NaN))" "isnan (readTemperature (tick_at 0 NaN))"
    by (simp_all add: tick_at_def)
  have iv: "invalid_probe_read (Val (- 127)) (getTempC_pro (tick_at_pro 0 (Val (- 127))) 0)"
    by (simp add: tick_at_pro_def invalid_probe_read_def)
  have u: "unat (bufIdx ?s) = 1" "dhtTemp ?s = Val 20" "nat 1 = 1" by (simp_all add: sampled_once_eq)
  have 1: "dhtTemp (readSensorsFast (Val (- 127)) (tick_at 0 NaN) ?s) = Val 20"
    using t n u(2) by simp
  have "dhtTBuf (sample_write (Val (- 127)) (tick_at 0 NaN) ?s) ! unat (bufIdx ?s) = NaN"
    using t n by blast
  then have 2: "dhtTBuf (sample_write (Val (- 127)) (tick_at 0 NaN) ?s) ! 1 = NaN"
    unfolding u .
  have "ds18b20_temp_samples (takeSample (Val (- 127)) (tick_at_pro 0 (Val (- 127))) 1 sampled_once_pro) ! 0 ! nat 1 = NaN
      \<and> cloud_probes_pro (takeSample (Val (- 127)) (tick_at_pro 0 (Val (- 127))) 1 sampled_once_pro) ! 0 = NaN"
    using t iv by blast
  then have 3: "ds18b20_temp_samples (takeSample (Val (- 127)) (tick_at_pro 0 (Val (- 127))) 1 sampled_once_pro) ! 0 ! 1 = NaN"
    "cloud_probes_pro (takeSample (Val (- 127)) (tick_at_pro 0 (Val (- 127))) 1 sampled_once_pro) ! 0 = NaN"
    unfolding u by simp_all
  show ?thesis using h1 h2 h6 shape_sampled_once(2) n(1) iv 1 2 3 by blast
qed

subsection \<open>Actions happen only in a pass that polls the boundary second\<close>

lemma sample_only_at_boundary:
  assumes "Sampled \<in> set (fst (loop D i s))"
  shows "MIN_EPOCH \<le> now i \<and> isSampleBoundary (clock i)"
proof (cases D i s rule: loop_cases)
  case invalid
  then show ?thesis using assms by simp
next
  case sample
  then show ?thesis by simp
next
  case report
  then show ?thesis using assms by (simp add: postSheet_def)
next
  case idle
  then show ?thesis using assms by simp
qed

lemma sample_only_at_boundary_pro:
  assumes "Sampled \<in> set (fst (loop_pro D i s))"
  shows "MIN_EPOCH_TIME_SEC \<le> now_epoch i \<and> isSampleBoundary (clock_pro i)"
proof (cases D i s rule: loop_pro_cases)
  case invalid
  then show ?thesis using assms by simp
next
  case sample
  then show ?thesis by simp
next
  case report
  have "Sampled \<notin> set (reportDataToGoogleSheet i (ntp_step i s))"
    using report_counts(2) [of i "ntp_step i s"] by (simp add: count_list_0_iff)
  then show ?thesis using report assms by simp
next
  case idle
  then show ?thesis using assms by simp
qed

lemma report_only_at_boundary:
  assumes "ReportFired \<in> set (fst (loop D i s))"
  shows "MIN_EPOCH \<le> now i \<and> isReportBoundary (clock i)"
  by (cases D i s rule: loop_cases) (use assms in simp_all)

lemma report_only_at_boundary_pro:
  assumes "ReportFired \<in> set (fst (loop_pro D i s))"
  shows "MIN_EPOCH_TIME_SEC \<le> now_epoch i \<and> isReportBoundary (clock_pro i)"
  by (cases D i s rule: loop_pro_cases) (use assms in simp_all)

section \<open>The claims about sequences of passes\<close>

text \<open>
  Claim C2, as stated, fails. A sample boundary that falls between two polls triggers
  nothing: the passes at 08:09:59 and 08:10:01 take no sample. And a boundary that is
  polled does not fire when the last-acted-on minute still holds its minute: after the
  sample at 08:00:00, a next pass at 09:00:00 takes no sample, in either sketch.
\<close>

theorem sample_boundary_missed_counterexample:
  "isSampleBoundary (localtime_r GMT_OFFSET 946685400)
   \<and> fst (run (Val (- 127)) [tick_at 946685399 (Val 20), tick_at 946685401 (Val 20)] setup_agro) = []
   \<and> isSampleBoundary (clock (tick_at 946684800 (Val 20)))
   \<and> isSampleBoundary (clock (tick_at 946688400 (Val 20)))
   \<and> fst (loop (Val (- 127)) (tick_at 946684800 (Val 20)) setup_agro) = [Sampled]
   \<and> fst (loop (Val (- 127)) (tick_at 946688400 (Val 20)) sampled_once) = []
   \<and> isSampleBoundary (clock_pro (tick_at_pro 946688400 (Val 20)))
   \<and> fst (loop_pro (Val (- 127)) (tick_at_pro 946688400 (Val 20)) sampled_once_pro) = []"
  by code_simp

text \<open>
  Claim C2, amended. For every non-empty sequence of passes over a valid clock that all fall
  in one sample-boundary second, the sampling action is triggered exactly once, by the
  first pass, if the last-acted-on minute differs from the boundary's minute when that pass
  begins (in particular when it is cleared), and not at all otherwise; however many passes
  poll that second. Every pass over a valid clock whose minute fails the minute-mod check
  takes no sample and leaves the last-acted-on minute cleared, so that the next boundary
  that is polled fires. A sample is taken only in a pass that polls a boundary second over
  a valid clock, so a boundary second in which no pass falls triggers nothing.
\<close>

theorem sample_once_per_polled_boundary:
  assumes "inps \<noteq> []" and "\<forall>i\<in>set inps. now i = b" and "MIN_EPOCH \<le> b"
    and "isSampleBoundary (localtime_r GMT_OFFSET b)"
    and "pinps \<noteq> []" and "\<forall>i\<in>set pinps. now_epoch i = c" and "MIN_EPOCH_TIME_SEC \<le> c"
    and "isSampleBoundary (localtime_r (GMT_OFFSET_SECONDS + DAYLIGHT_OFFSET_SECONDS) c)"
  shows "fst (run D inps s) =
           (if lastSampleMin s \<noteq> tm_min (localtime_r GMT_OFFSET b) then [Sampled] else [])
       \<and> (lastSampleMin s = - 1 \<longrightarrow> count_list (fst (run D inps s)) Sampled = 1)
       \<and> lastSampleMin (snd (run D inps s)) = tm_min (localtime_r GMT_OFFSET b)
       \<and> (\<forall>i. MIN_EPOCH \<le> now i \<and> tm_min (clock i) mod 10 \<noteq> 0 \<longrightarrow>
             lastSampleMin (snd (loop D i s)) = - 1 \<and> Sampled \<notin> set (fst (loop D i s)))
       \<and> (\<forall>i. Sampled \<in> set (fst (loop D i s)) \<longrightarrow>
             MIN_EPOCH \<le> now i \<and> isSampleBoundary (clock i))
       \<and> fst (run_pro D pinps p) =
           (if last_sample_minute_taken p \<noteq>
                 tm_min (localtime_r (GMT_OFFSET_SECONDS + DAYLIGHT_OFFSET_SECONDS) c)
            then [Sampled] else [])
       \<and> (last_sample_minute_taken p = - 1 \<longrightarrow> count_list (fst (run_pro D pinps p)) Sampled = 1)
       \<and> last_sample_minute_taken (snd (run_pro D pinps p)) =
           tm_min (localtime_r (GMT_OFFSET_SECONDS + DAYLIGHT_OFFSET_SECONDS) c)
       \<and> (\<forall>i. MIN_EPOCH_TIME_SEC \<le> now_epoch i \<and> tm_min (clock_pro i) mod 10 \<noteq> 0 \<longrightarrow>
             last_sample_minute_taken (snd (loop_pro D i p)) = - 1
             \<and> Sampled \<notin> set (fst (loop_pro D i p)))
       \<and> (\<forall>i. Sampled \<in> set (fst (loop_pro D i p)) \<longrightarrow>
             MIN_EPOCH_TIME_SEC \<le> now_epoch i \<and> isSampleBoundary (clock_pro i))"
proof -
  note a = run_sample_boundary [OF assms(2,3,4,1), of D s]
  note b = run_pro_sample_boundary [OF assms(6,7,8,5), of D p]
  have m: "0 \<le> tm_min (localtime_r GMT_OFFSET b)"
    "0 \<le> tm_min (localtime_r (GMT_OFFSET_SECONDS + DAYLIGHT_OFFSET_SECONDS) c)"
    by (rule localtime_range)+
  have a1: "lastSampleMin s = - 1 \<longrightarrow> count_list (fst (run D inps s)) Sampled = 1"
    using a m(1) by auto
  have b1: "last_sample_minute_taken p = - 1 \<longrightarrow> count_list (fst (run_pro D pinps p)) Sampled = 1"
    using b m(2) by auto
  show ?thesis
    using a b a1 b1 tick_unlatch [of _ D s] tick_pro_unlatch [of _ D p]
      sample_only_at_boundary [of D _ s] sample_only_at_boundary_pro [of D _ p]
    by blast
qed

theorem sample_once_per_polled_boundary_witness:
  "[tick_at 946684800 (Val 20), tick_at 946684800 (Val 21), tick_at 946684800 (Val 22)] \<noteq> []
   \<and> MIN_EPOCH \<le> 946684800 \<and> isSampleBoundary (localtime_r GMT_OFFSET 946684800)
   \<and> MIN_EPOCH_TIME_SEC \<le> 946685400
   \<and> isSampleBoundary (localtime_r (GMT_OFFSET_SECONDS + DAYLIGHT_OFFSET_SECONDS) 946685400)
   \<and> lastSampleMin setup_agro = - 1 \<and> last_sample_minute_taken sampled_once_pro = 0
   \<and> fst (run (Val (- 127))
        [tick_at 946684800 (Val 20), tick_at 946684800 (Val 21), tick_at 946684800 (Val 22)]
        setup_agro) = [Sampled]
   \<and> fst (run_pro (Val (- 127))
        [tick_at_pro 946685400 (Val 20), tick_at_pro 946685400 (Val 21)] sampled_once_pro) = [Sampled]
   \<and> last_sample_minute_taken (snd (run_pro (Val (- 127))
        [tick_at_pro 946685400 (Val 20), tick_at_pro 946685400 (Val 21)] sampled_once_pro)) = 10"
proof -
  let ?is = "[tick_at 946684800 (Val 20), tick_at 946684800 (Val 21), tick_at 946684800 (Val 22)]"
  let ?ps = "[tick_at_pro 946685400 (Val 20), tick_at_pro 946685400 (Val 21)]"
  have h1: "?is \<noteq> []" by simp
  have h2: "\<forall>i\<in>set ?is. now i = 946684800" by (simp add: tick_at_def)
  have h3: "MIN_EPOCH \<le> 946684800" by (simp add: MIN_EPOCH_def)
  have h4: "isSampleBoundary (localtime_r GMT_OFFSET 946684800)"
    by (simp add: isSampleBoundary_def localtime_r_def GMT_OFFSET_def)
  have h5: "?ps \<noteq> []" by simp
  have h6: "\<forall>i\<in>set ?ps. now_epoch i = 946685400" by (simp add: tick_at_pro_def)
  have h7: "MIN_EPOCH_TIME_SEC \<le> 946685400" by (simp add: MIN_EPOCH_TIME_SEC_def)
  have h8: "isSampleBoundary (localtime_r (GMT_OFFSET_SECONDS + DAYLIGHT_OFFSET_SECONDS) 946685400)"
    by (simp add: isSampleBoundary_def localtime_r_def GMT_OFFSET_SECONDS_def DAYLIGHT_OFFSET_SECONDS_def)
  note t = sample_once_per_polled_boundary [OF h1 h2 h3 h4 h5 h6 h7 h8,
      of "Val (- 127)" setup_agro sampled_once_pro]
  have l: "lastSampleMin setup_agro = - 1" "last_sample_minute_taken sampled_once_pro = 0"
    by (simp_all add: setup_agro_eq boot_def sampled_once_pro_eq)
  have m: "tm_min (localtime_r GMT_OFFSET 946684800) = 0"
    "tm_min (localtime_r (GMT_OFFSET_SECONDS + DAYLIGHT_OFFSET_SECONDS) 946685400) = 10"
    by (simp_all add: localtime_r_def GMT_OFFSET_def GMT_OFFSET_SECONDS_def DAYLIGHT_OFFSET_SECONDS_def)
  have 1: "fst (run (Val (- 127)) ?is setup_agro) = [Sampled]"
    using t l(1) unfolding m by simp
  have 2: "fst (run_pro (Val (- 127)) ?ps sampled_once_pro) = [Sampled]"
    using t l(2) unfolding m by simp
  have 3: "last_sample_minute_taken (snd (run_pro (Val (- 127)) ?ps sampled_once_pro)) = 10"
    using t unfolding m by blast
  show ?thesis using h1 h3 h4 h7 h8 l 1 2 3 by blast
qed

lemma first_sample_agro:
  "loop (Val (- 127)) (tick_at 946684800 (Val 20)) setup_agro = ([Sampled], sampled_once)"
proof -
  have "fst (loop (Val (- 127)) (tick_at 946684800 (Val 20)) setup_agro) = [Sampled]"
    by code_simp
  then show ?thesis
    by (simp add: sampled_once_def prod_eq_iff)
qed

lemma first_sample_pro:
  "snd (loop_pro (Val (- 127)) (tick_at_pro 946684800 (Val 20)) setup_pro) = sampled_once_pro"
  by (simp add: sampled_once_pro_def)

lemma next_day_agro:
  "run (Val (- 127))
     [tick_at 946684800 (Val 20), tick_at 946684805 (Val 20), tick_at 946684860 (Val 20),
      tick_at 946771200 (Val 20)] setup_agro
   = ([Sampled, ReportFired, Posted [Val 20, Val 20, Val 20, Val 20, Val 20, Val 20] 200, Sampled],
      sampled_once\<lparr>lastReportHr := 8\<rparr>)"
proof -
  have 2: "loop (Val (- 127)) (tick_at 946684805 (Val 20)) sampled_once =
      ([ReportFired, Posted [Val 20, Val 20, Val 20, Val 20, Val 20, Val 20] 200],
       setup_agro\<lparr>lastSampleMin := 0, lastReportHr := 8\<rparr>)"
    using report_after_first_sample [of "tick_at 946684805 (Val 20)"]
    by (simp add: tick_at_def)
  have 3: "loop (Val (- 127)) (tick_at 946684860 (Val 20))
        (setup_agro\<lparr>lastSampleMin := 0, lastReportHr := 8\<rparr>)
      = ([], setup_agro\<lparr>lastReportHr := 8\<rparr>)"
    by code_simp
  have 4: "loop (Val (- 127)) (tick_at 946771200 (Val 20)) (setup_agro\<lparr>lastReportHr := 8\<rparr>)
      = ([Sampled], sampled_once\<lparr>lastReportHr := 8\<rparr>)"
    by code_simp
  show ?thesis by (simp add: first_sample_agro 2 3 4)
qed

lemma next_day_pro:
  "snd (run_pro (Val (- 127))
     [tick_at_pro 946684800 (Val 20), tick_at_pro 946684805 (Val 20),
      tick_at_pro 946684860 (Val 20), tick_at_pro 946771200 (Val 20)] setup_pro)
   = sampled_once_pro\<lparr>last_report_hour_sent := 8\<rparr>"
proof -
  have 2: "snd (loop_pro (Val (- 127)) (tick_at_pro 946684805 (Val 20)) sampled_once_pro) =
      sampled_once_pro\<lparr>ds18b20_temp_samples := [nan_row, nan_row, nan_row, nan_row],
         dht_temp_samples := nan_row, dht_humidity_samples := nan_row,
         current_sample_index := 0, samples_taken_this_hour := 0,
         last_report_hour_sent := 8\<rparr>"
    by (rule report_after_first_sample_pro(2)) (simp_all add: tick_at_pro_def)
  have 3: "snd (loop_pro (Val (- 127)) (tick_at_pro 946684860 (Val 20))
        (sampled_once_pro\<lparr>ds18b20_temp_samples := [nan_row, nan_row, nan_row, nan_row],
           dht_temp_samples := nan_row, dht_humidity_samples := nan_row,
           current_sample_index := 0, samples_taken_this_hour := 0,
           last_report_hour_sent := 8\<rparr>))
      = sampled_once_pro\<lparr>ds18b20_temp_samples := [nan_row, nan_row, nan_row, nan_row],
           dht_temp_samples := nan_row, dht_humidity_samples := nan_row,
           current_sample_index := 0, samples_taken_this_hour := 0,
           last_sample_minute_taken := - 1, last_report_hour_sent := 8\<rparr>"
    by code_simp
  have 4: "snd (loop_pro (Val (- 127)) (tick_at_pro 946771200 (Val 20))
        (sampled_once_pro\<lparr>ds18b20_temp_samples := [nan_row, nan_row, nan_row, nan_row],
           dht_temp_samples := nan_row, dht_humidity_samples := nan_row,
           current_sample_index := 0, samples_taken_this_hour := 0,
           last_sample_minute_taken := - 1, last_report_hour_sent := 8\<rparr>))
      = sampled_once_pro\<lparr>last_report_hour_sent := 8\<rparr>"
    by code_simp
  show ?thesis by (simp add: first_sample_pro 2 3 4)
qed

text \<open>
  Claim C3, as stated, fails. A report boundary that falls between two polls fires
  nothing: after the sample at 08:00:00 the passes at 08:00:04 and 08:00:06 send no
  report although the populated count is 1. And a boundary that is polled with a
  populated count above 0 does not fire when the last report hour still holds its hour:
  after the report of 08:00:05 and one sample at 08:00:00 of the next day, the pass at
  08:00:05 of that day sends nothing, in either sketch.
\<close>

theorem report_boundary_missed_counterexample:
  "isReportBoundary (localtime_r GMT_OFFSET 946684805)
   \<and> validSamples sampled_once = 1
   \<and> fst (run (Val (- 127)) [tick_at 946684804 (Val 20), tick_at 946684806 (Val 20)] sampled_once) = []
   \<and> fst (run (Val (- 127))
        [tick_at 946684800 (Val 20), tick_at 946684805 (Val 20), tick_at 946684860 (Val 20),
         tick_at 946771200 (Val 20)] setup_agro)
       = [Sampled, ReportFired, Posted [Val 20, Val 20, Val 20, Val 20, Val 20, Val 20] 200, Sampled]
   \<and> validSamples (snd (run (Val (- 127))
        [tick_at 946684800 (Val 20), tick_at 946684805 (Val 20), tick_at 946684860 (Val 20),
         tick_at 946771200 (Val 20)] setup_agro)) = 1
   \<and> isReportBoundary (clock (tick_at 946771205 (Val 20)))
   \<and> fst (loop (Val (- 127)) (tick_at 946771205 (Val 20))
        (snd (run (Val (- 127))
          [tick_at 946684800 (Val 20), tick_at 946684805 (Val 20), tick_at 946684860 (Val 20),
           tick_at 946771200 (Val 20)] setup_agro))) = []
   \<and> samples_taken_this_hour (snd (run_pro (Val (- 127))
        [tick_at_pro 946684800 (Val 20), tick_at_pro 946684805 (Val 20),
         tick_at_pro 946684860 (Val 20), tick_at_pro 946771200 (Val 20)] setup_pro)) = 1
   \<and> isReportBoundary (clock_pro (tick_at_pro 946771205 (Val 20)))
   \<and> fst (loop_pro (Val (- 127)) (tick_at_pro 946771205 (Val 20))
        (snd (run_pro (Val (- 127))
          [tick_at_pro 946684800 (Val 20), tick_at_pro 946684805 (Val 20),
           tick_at_pro 946684860 (Val 20), tick_at_pro 946771200 (Val 20)] setup_pro))) = []"
proof -
  have 1: "isReportBoundary (localtime_r GMT_OFFSET 946684805)"
    "isReportBoundary (clock (tick_at 946771205 (Val 20)))"
    "isReportBoundary (clock_pro (tick_at_pro 946771205 (Val 20)))"
    by (simp_all add: isReportBoundary_def clock_def clock_pro_def localtime_r_def tick_at_def
        tick_at_pro_def GMT_OFFSET_def GMT_OFFSET_SECONDS_def DAYLIGHT_OFFSET_SECONDS_def)
  have 2: "validSamples sampled_once = 1" by (simp add: sampled_once_fields)
  have 3: "fst (run (Val (- 127)) [tick_at 946684804 (Val 20), tick_at 946684806 (Val 20)]
      sampled_once) = []"
    by code_simp
  have 4: "fst (loop (Val (- 127)) (tick_at 946771205 (Val 20)) (sampled_once\<lparr>lastReportHr := 8\<rparr>))
      = []"
    by code_simp
  have 5: "fst (loop_pro (Val (- 127)) (tick_at_pro 946771205 (Val 20))
      (sampled_once_pro\<lparr>last_report_hour_sent := 8\<rparr>)) = []"
    by code_simp
  show ?thesis
    unfolding next_day_agro next_day_pro
    using 1 2 3 4 5 by (simp add: sampled_once_fields sampled_once_pro_fields)
qed

text \<open>
  Claim C3, amended. For every non-empty sequence of passes over a valid clock that all fall
  in one report-boundary second, the reporting action fires exactly once, in the first
  pass, if the populated count is above 0 and the last report hour differs from the current
  hour when that pass begins, and not at all otherwise. If the populated count is 0 the
  boundary is skipped entirely: no report is built, no delivery is attempted, and window
  and boundary state are unchanged. Over any sequence of passes that all fall in one
  wall-clock hour (or see an invalid clock) the reporting action fires at most once. It
  fires only in a pass that polls a boundary second over a valid clock, so a boundary
  second in which no pass falls fires nothing.
\<close>

theorem report_once_per_polled_boundary:
  assumes "inps \<noteq> []" and "\<forall>i\<in>set inps. now i = b" and "MIN_EPOCH \<le> b"
    and "isReportBoundary (localtime_r GMT_OFFSET b)"
    and "pinps \<noteq> []" and "\<forall>i\<in>set pinps. now_epoch i = c" and "MIN_EPOCH_TIME_SEC \<le> c"
    and "isReportBoundary (localtime_r (GMT_OFFSET_SECONDS + DAYLIGHT_OFFSET_SECONDS) c)"
  shows "count_list (fst (run D inps s)) ReportFired =
           (if validSamples s \<noteq> 0 \<and> lastReportHr s \<noteq> tm_hour (localtime_r GMT_OFFSET b)
            then 1 else 0)
       \<and> fst (run D inps s) =
           (if validSamples s \<noteq> 0 \<and> lastReportHr s \<noteq> tm_hour (localtime_r GMT_OFFSET b)
            then ReportFired # postSheet (hd inps) (fast_step D (hd inps) s) else [])
       \<and> (validSamples s = 0 \<longrightarrow>
             fst (run D inps s) = [] \<and> window (snd (run D inps s)) = window s
             \<and> boundary (snd (run D inps s)) = boundary s)
       \<and> (\<forall>tr h. (\<forall>i\<in>set tr. now i < MIN_EPOCH \<or> tm_hour (clock i) = h) \<longrightarrow>
             count_list (fst (run D tr s)) ReportFired \<le> 1)
       \<and> (\<forall>i. ReportFired \<in> set (fst (loop D i s)) \<longrightarrow>
             MIN_EPOCH \<le> now i \<and> isReportBoundary (clock i))
       \<and> count_list (fst (run_pro D pinps p)) ReportFired =
           (if samples_taken_this_hour p > 0
               \<and> last_report_hour_sent p \<noteq>
                   tm_hour (localtime_r (GMT_OFFSET_SECONDS + DAYLIGHT_OFFSET_SECONDS) c)
            then 1 else 0)
       \<and> fst (run_pro D pinps p) =
           (if samples_taken_this_hour p > 0
               \<and> last_report_hour_sent p \<noteq>
                   tm_hour (localtime_r (GMT_OFFSET_SECONDS + DAYLIGHT_OFFSET_SECONDS) c)
            then ReportFired # reportDataToGoogleSheet (hd pinps) (ntp_step (hd pinps) p) else [])
       \<and> (samples_taken_this_hour p = 0 \<longrightarrow>
             fst (run_pro D pinps p) = [] \<and> window_pro (snd (run_pro D pinps p)) = window_pro p
             \<and> boundary_pro (snd (run_pro D pinps p)) = boundary_pro p)
       \<and> (\<forall>tr h. (\<forall>i\<in>set tr. now_epoch i < MIN_EPOCH_TIME_SEC \<or> tm_hour (clock_pro i) = h) \<longrightarrow>
             count_list (fst (run_pro D tr p)) ReportFired \<le> 1)
       \<and> (\<forall>i. ReportFired \<in> set (fst (loop_pro D i p)) \<longrightarrow>
             MIN_EPOCH_TIME_SEC \<le> now_epoch i \<and> isReportBoundary (clock_pro i))"
proof -
  note a = run_report_boundary [OF assms(2,3,4,1), of D s]
  note b = run_pro_report_boundary [OF assms(6,7,8,5), of D p]
  have a1: "fst (run D inps s) =
           (if validSamples s \<noteq> 0 \<and> lastReportHr s \<noteq> tm_hour (localtime_r GMT_OFFSET b)
            then ReportFired # postSheet (hd inps) (fast_step D (hd inps) s) else [])"
    using a by auto
  have b1: "fst (run_pro D pinps p) =
           (if samples_taken_this_hour p > 0
               \<and> last_report_hour_sent p \<noteq>
                   tm_hour (localtime_r (GMT_OFFSET_SECONDS + DAYLIGHT_OFFSET_SECONDS) c)
            then ReportFired # reportDataToGoogleSheet (hd pinps) (ntp_step (hd pinps) p) else [])"
    using b by auto
  have a2: "count_list (fst (run D inps s)) ReportFired =
           (if validSamples s \<noteq> 0 \<and> lastReportHr s \<noteq> tm_hour (localtime_r GMT_OFFSET b)
            then 1 else 0)"
    unfolding a1 by (simp add: postSheet_counts)
  have b2: "count_list (fst (run_pro D pinps p)) ReportFired =
           (if samples_taken_this_hour p > 0
               \<and> last_report_hour_sent p \<noteq>
                   tm_hour (localtime_r (GMT_OFFSET_SECONDS + DAYLIGHT_OFFSET_SECONDS) c)
            then 1 else 0)"
    unfolding b1 by (simp add: report_counts)
  have a3: "validSamples s = 0 \<longrightarrow>
             fst (run D inps s) = [] \<and> window (snd (run D inps s)) = window s
             \<and> boundary (snd (run D inps s)) = boundary s"
    using run_report_skip [OF assms(2,3,4), of s D] by blast
  have b3: "samples_taken_this_hour p = 0 \<longrightarrow>
             fst (run_pro D pinps p) = [] \<and> window_pro (snd (run_pro D pinps p)) = window_pro p
             \<and> boundary_pro (snd (run_pro D pinps p)) = boundary_pro p"
    using run_pro_report_skip [OF assms(6,7,8), of p D] by blast
  have a4: "\<forall>tr h. (\<forall>i\<in>set tr. now i < MIN_EPOCH \<or> tm_hour (clock i) = h) \<longrightarrow>
             count_list (fst (run D tr s)) ReportFired \<le> 1"
    using run_one_report_per_hour [where D = D and s = s] by blast
  have b4: "\<forall>tr h. (\<forall>i\<in>set tr. now_epoch i < MIN_EPOCH_TIME_SEC \<or> tm_hour (clock_pro i) = h) \<longrightarrow>
             count_list (fst (run_pro D tr p)) ReportFired \<le> 1"
    using run_pro_one_report_per_hour [where D = D and s = p] by blast
  show ?thesis
    using a1 a2 a3 a4 b1 b2 b3 b4
      report_only_at_boundary [of D _ s] report_only_at_boundary_pro [of D _ p]
    by blast
qed

theorem report_once_per_polled_boundary_witness:
  "[tick_at 946684805 (Val 20), tick_at 946684805 (Val 21)] \<noteq> []
   \<and> MIN_EPOCH \<le> 946684805 \<and> isReportBoundary (localtime_r GMT_OFFSET 946684805)
   \<and> MIN_EPOCH_TIME_SEC \<le> 946684805
   \<and> isReportBoundary (localtime_r (GMT_OFFSET_SECONDS + DAYLIGHT_OFFSET_SECONDS) 946684805)
   \<and> validSamples sampled_once = 1 \<and> lastReportHr sampled_once = - 1
   \<and> count_list (fst (run (Val (- 127))
        [tick_at 946684805 (Val 20), tick_at 946684805 (Val 21)] sampled_once)) ReportFired = 1
   \<and> samples_taken_this_hour setup_pro = 0
   \<and> fst (run_pro (Val (- 127))
        [tick_at_pro 946684805 (Val 20), tick_at_pro 946684805 (Val 21)] setup_pro) = []
   \<and> window_pro (snd (run_pro (Val (- 127))
        [tick_at_pro 946684805 (Val 20), tick_at_pro 946684805 (Val 21)] setup_pro))
       = window_pro setup_pro"
proof -
  let ?is = "[tick_at 946684805 (Val 20), tick_at 946684805 (Val 21)]"
  let ?ps = "[tick_at_pro 946684805 (Val 20), tick_at_pro 946684805 (Val 21)]"
  have h1: "?is \<noteq> []" by simp
  have h2: "\<forall>i\<in>set ?is. now i = 946684805" by (simp add: tick_at_def)
  have h3: "MIN_EPOCH \<le> 946684805" by (simp add: MIN_EPOCH_def)
  have h4: "isReportBoundary (localtime_r GMT_OFFSET 946684805)"
    by (simp add: isReportBoundary_def localtime_r_def GMT_OFFSET_def)
  have h5: "?ps \<noteq> []" by simp
  have h6: "\<forall>i\<in>set ?ps. now_epoch i = 946684805" by (simp add: tick_at_pro_def)
  have h7: "MIN_EPOCH_TIME_SEC \<le> 946684805" by (simp add: MIN_EPOCH_TIME_SEC_def)
  have h8: "isReportBoundary (localtime_r (GMT_OFFSET_SECONDS + DAYLIGHT_OFFSET_SECONDS) 946684805)"
    by (simp add: isReportBoundary_def localtime_r_def GMT_OFFSET_SECONDS_def DAYLIGHT_OFFSET_SECONDS_def)
  note t = report_once_per_polled_boundary [OF h1 h2 h3 h4 h5 h6 h7 h8,
      of "Val (- 127)" sampled_once setup_pro]
  have l: "validSamples sampled_once = 1" "lastReportHr sampled_once = - 1"
    "samples_taken_this_hour setup_pro = 0"
    by (simp_all add: sampled_once_eq setup_agro_eq boot_def setup_pro_eq boot_pro_def)
  have hr: "tm_hour (localtime_r GMT_OFFSET 946684805) = 8"
    by (simp add: localtime_r_def GMT_OFFSET_def)
  have "count_list (fst (run (Val (- 127)) ?is sampled_once)) ReportFired =
           (if validSamples sampled_once \<noteq> 0
               \<and> lastReportHr sampled_once \<noteq> tm_hour (localtime_r GMT_OFFSET 946684805)
            then 1 else 0)"
    using t by blast
  then have 1: "count_list (fst (run (Val (- 127)) ?is sampled_once)) ReportFired = 1"
    unfolding l hr by simp
  have 2: "fst (run_pro (Val (- 127)) ?ps setup_pro) = []
      \<and> window_pro (snd (run_pro (Val (- 127)) ?ps setup_pro)) = window_pro setup_pro"
    using t l(3) by blast
  show ?thesis using h1 h3 h4 h7 h8 l 1 2 by blast
qed

end
